(* ===== verification/Prelude.thy ===== *)
theory Prelude
  imports Main "HOL-Library.List_Lexorder" "HOL-Library.Char_ord"
begin

text \<open>
  What every component shares: the error values of the Go code, the monad of a Go function
  that reads and writes a state and may return an error, keyed tables (the relational tables
  of the store, as lists of rows in insertion order), the string functions of Go's standard
  library the source calls, and their lemmas.

  Go strings and byte slices are both byte sequences; both are \<open>string\<close> here (a HOL
  \<open>char\<close> is eight bits). The order on strings is the lexicographic one of
  \<open>HOL-Library.List_Lexorder\<close>, which is SQLite's BINARY collation on TEXT.
\<close>

section \<open>Collections of facts\<close>

named_theorems go_defs \<open>the definitions of the monad's operations\<close>
named_theorems go_inv \<open>inversion of a run of the monad into runs of its parts\<close>
named_theorems keeps_intro \<open>operations that leave a component of the state alone\<close>
named_theorems preserves_intro \<open>operations that preserve an invariant\<close>
named_theorems table_simps \<open>lookups after updates of keyed tables\<close>

section \<open>Error values\<close>

text \<open>
  The sentinel errors of \<open>internal/repo/manager.go\<close>, the two results of
  \<open>database/sql\<close> the code tells apart, the errors the code makes itself with
  \<open>fmt.Errorf\<close>, and \<open>Lib\<close> for an error returned by a library the source only calls.
  \<open>Wrap\<close> is \<open>fmt.Errorf("...: %w", err)\<close>; \<open>errors.Is\<close> looks through it.
\<close>

datatype go_error =
    ErrSwapCommitMismatch string
  | ErrSwapRecordMismatch string string
  | ErrRecordExists string string
  | ErrRecordNotFound string string
  | SqlNoRows
  | SqlFault
  | SqlConstraint
  | Failure string
  | Lib string
  | Panic string
  | Wrap string go_error

primrec root_cause :: "go_error \<Rightarrow> go_error" where
  "root_cause (ErrSwapCommitMismatch h) = ErrSwapCommitMismatch h"
| "root_cause (ErrSwapRecordMismatch c k) = ErrSwapRecordMismatch c k"
| "root_cause (ErrRecordExists c k) = ErrRecordExists c k"
| "root_cause (ErrRecordNotFound c k) = ErrRecordNotFound c k"
| "root_cause SqlNoRows = SqlNoRows"
| "root_cause SqlFault = SqlFault"
| "root_cause SqlConstraint = SqlConstraint"
| "root_cause (Failure m) = Failure m"
| "root_cause (Lib m) = Lib m"
| "root_cause (Panic m) = Panic m"
| "root_cause (Wrap m e) = root_cause e"

section \<open>Functions with state and errors\<close>

text \<open>
  A Go function that may fail returns an error or a value together with the new state: an
  error does not undo the writes made before it.
\<close>

type_synonym ('s, 'a) go = "'s \<Rightarrow> (go_error + 'a) \<times> 's"

definition go_ret :: "'a \<Rightarrow> ('s, 'a) go" where
  [go_defs]: "go_ret x s = (Inr x, s)"

definition go_raise :: "go_error \<Rightarrow> ('s, 'a) go" where
  [go_defs]: "go_raise e s = (Inl e, s)"

definition go_bind :: "('s, 'a) go \<Rightarrow> ('a \<Rightarrow> ('s, 'b) go) \<Rightarrow> ('s, 'b) go" where
  [go_defs]: "go_bind m f s = (case m s of (Inl e, s') \<Rightarrow> (Inl e, s') | (Inr x, s') \<Rightarrow> f x s')"

definition go_reads :: "('s \<Rightarrow> 'a) \<Rightarrow> ('s, 'a) go" where
  [go_defs]: "go_reads f s = (Inr (f s), s)"

definition go_modify :: "('s \<Rightarrow> 's) \<Rightarrow> ('s, unit) go" where
  [go_defs]: "go_modify f s = (Inr (), f s)"

definition go_of :: "go_error + 'a \<Rightarrow> ('s, 'a) go" where
  [go_defs]: "go_of r s = (r, s)"

text \<open>\<open>if x, err := m; err == nil\<close>: the error becomes a value the caller inspects.\<close>

definition go_try :: "('s, 'a) go \<Rightarrow> ('s, go_error + 'a) go" where
  [go_defs]: "go_try m s = (case m s of (r, s') \<Rightarrow> (Inr r, s'))"

text \<open>\<open>fmt.Errorf(msg + ": %w", err)\<close>.\<close>

definition go_wrap :: "string \<Rightarrow> ('s, 'a) go \<Rightarrow> ('s, 'a) go" where
  [go_defs]: "go_wrap msg m s =
     (case m s of (Inl e, s') \<Rightarrow> (Inl (Wrap msg e), s') | (Inr x, s') \<Rightarrow> (Inr x, s'))"

text \<open>A \<open>for range\<close> loop whose body returns early on an error.\<close>

primrec go_foreach :: "('x \<Rightarrow> ('s, unit) go) \<Rightarrow> 'x list \<Rightarrow> ('s, unit) go" where
  "go_foreach f [] = go_ret ()"
| "go_foreach f (x # xs) = go_bind (f x) (\<lambda>_. go_foreach f xs)"

text \<open>A loop over a query's rows that scans each row and returns at the first bad one.\<close>

fun scan_all :: "('r \<Rightarrow> go_error + 'a) \<Rightarrow> 'r list \<Rightarrow> go_error + 'a list" where
  "scan_all f [] = Inr []"
| "scan_all f (r # rs) =
     (case f r of
        Inl e \<Rightarrow> Inl e
      | Inr x \<Rightarrow> (case scan_all f rs of Inl e \<Rightarrow> Inl e | Inr xs \<Rightarrow> Inr (x # xs)))"

lemma scan_all_total: "(\<And>r. r \<in> set rs \<Longrightarrow> f r = Inr (g r)) \<Longrightarrow> scan_all f rs = Inr (map g rs)"
  by (induction rs) auto

lemma scan_all_length: "scan_all f rs = Inr xs \<Longrightarrow> length xs = length rs"
  by (induction rs arbitrary: xs) (auto split: sum.splits)

subsection \<open>Inverting a run\<close>

lemma go_ret_iff [go_inv]: "go_ret x s = (r, t) \<longleftrightarrow> r = Inr x \<and> t = s"
  by (auto simp: go_ret_def)

lemma go_raise_iff [go_inv]: "go_raise e s = (r, t) \<longleftrightarrow> r = Inl e \<and> t = s"
  by (auto simp: go_raise_def)

lemma go_reads_iff [go_inv]: "go_reads f s = (r, t) \<longleftrightarrow> r = Inr (f s) \<and> t = s"
  by (auto simp: go_reads_def)

lemma go_modify_iff [go_inv]: "go_modify f s = (r, t) \<longleftrightarrow> r = Inr () \<and> t = f s"
  by (auto simp: go_modify_def)

lemma go_of_iff [go_inv]: "go_of x s = (r, t) \<longleftrightarrow> x = r \<and> t = s"
  by (auto simp: go_of_def)

lemma go_bind_Inr_iff [go_inv]:
  "go_bind m f s = (Inr y, t) \<longleftrightarrow> (\<exists>x u. m s = (Inr x, u) \<and> f x u = (Inr y, t))"
  by (auto simp: go_bind_def split: prod.splits sum.splits)

lemma go_bind_Inl_iff [go_inv]:
  "go_bind m f s = (Inl e, t) \<longleftrightarrow>
     m s = (Inl e, t) \<or> (\<exists>x u. m s = (Inr x, u) \<and> f x u = (Inl e, t))"
  by (auto simp: go_bind_def split: prod.splits sum.splits)

lemma go_wrap_Inr_iff [go_inv]: "go_wrap w m s = (Inr y, t) \<longleftrightarrow> m s = (Inr y, t)"
  by (auto simp: go_wrap_def split: prod.splits sum.splits)

lemma go_try_Inr_iff [go_inv]: "go_try m s = (Inr r, t) \<longleftrightarrow> m s = (r, t)"
  by (auto simp: go_try_def split: prod.splits)

lemma go_try_Inl_iff [go_inv]: "go_try m s = (Inl e, t) \<longleftrightarrow> False"
  by (auto simp: go_try_def split: prod.splits)

lemma go_bind_run: "m s = (Inr x, u) \<Longrightarrow> go_bind m f s = f x u"
  by (simp add: go_bind_def)

lemma go_bind_fail: "m s = (Inl e, u) \<Longrightarrow> go_bind m f s = (Inl e, u)"
  by (simp add: go_bind_def)

subsection \<open>What a function leaves alone\<close>

text \<open>
  \<open>keeps f m\<close>: running \<open>m\<close>, with whatever outcome, does not change the component
  \<open>f\<close> of the state.
\<close>

definition keeps :: "('s \<Rightarrow> 'x) \<Rightarrow> ('s, 'a) go \<Rightarrow> bool" where
  "keeps f m \<longleftrightarrow> (\<forall>s. f (snd (m s)) = f s)"

lemma keepsI: "(\<And>s r t. m s = (r, t) \<Longrightarrow> f t = f s) \<Longrightarrow> keeps f m"
  by (metis keeps_def prod.collapse)

lemma keepsD: "keeps f m \<Longrightarrow> m s = (r, t) \<Longrightarrow> f t = f s"
  by (metis keeps_def snd_conv)

lemma keeps_comp: "keeps f m \<Longrightarrow> keeps (\<lambda>s. g (f s)) m"
  by (simp add: keeps_def)

lemma keeps_ret [keeps_intro]: "keeps f (go_ret x)"
  and keeps_raise [keeps_intro]: "keeps f (go_raise e)"
  and keeps_reads [keeps_intro]: "keeps f (go_reads g)"
  and keeps_of [keeps_intro]: "keeps f (go_of r)"
  by (simp_all add: keeps_def go_defs)

lemma keeps_modify: "(\<And>s. f (g s) = f s) \<Longrightarrow> keeps f (go_modify g)"
  by (simp add: keeps_def go_defs)

lemma keeps_bind [keeps_intro]: "keeps f m \<Longrightarrow> (\<And>x. keeps f (k x)) \<Longrightarrow> keeps f (go_bind m k)"
  by (auto simp: keeps_def go_bind_def split: prod.splits sum.splits) (metis snd_conv)+

lemma keeps_wrap [keeps_intro]: "keeps f m \<Longrightarrow> keeps f (go_wrap w m)"
  by (auto simp: keeps_def go_wrap_def split: prod.splits sum.splits) (metis snd_conv)+

lemma keeps_try [keeps_intro]: "keeps f m \<Longrightarrow> keeps f (go_try m)"
  by (auto simp: keeps_def go_try_def split: prod.splits) (metis snd_conv)+

lemma keeps_foreach [keeps_intro]: "(\<And>x. keeps f (b x)) \<Longrightarrow> keeps f (go_foreach b xs)"
  by (induction xs) (auto intro: keeps_intro)

lemma keeps_if [keeps_intro]: "keeps f m \<Longrightarrow> keeps f n \<Longrightarrow> keeps f (if b then m else n)"
  by simp

lemma keeps_case_option [keeps_intro]:
  "keeps f m \<Longrightarrow> (\<And>x. keeps f (n x)) \<Longrightarrow> keeps f (case y of None \<Rightarrow> m | Some x \<Rightarrow> n x)"
  by (cases y) auto

lemma keeps_case_sum [keeps_intro]:
  "(\<And>x. keeps f (m x)) \<Longrightarrow> (\<And>x. keeps f (n x)) \<Longrightarrow> keeps f (case y of Inl x \<Rightarrow> m x | Inr x \<Rightarrow> n x)"
  by (cases y) auto

lemma keeps_case_prod [keeps_intro]:
  "(\<And>x y. keeps f (m x y)) \<Longrightarrow> keeps f (case p of (x, y) \<Rightarrow> m x y)"
  by (cases p) auto


subsection \<open>Invariants\<close>

text \<open>\<open>preserves P m\<close>: \<open>m\<close> leads from a state of \<open>P\<close> to a state of \<open>P\<close>, whatever its outcome.\<close>

definition preserves :: "('s \<Rightarrow> bool) \<Rightarrow> ('s, 'a) go \<Rightarrow> bool" where
  "preserves P m \<longleftrightarrow> (\<forall>s. P s \<longrightarrow> P (snd (m s)))"

lemma preservesI: "(\<And>s r t. P s \<Longrightarrow> m s = (r, t) \<Longrightarrow> P t) \<Longrightarrow> preserves P m"
  by (metis preserves_def prod.collapse)

lemma preservesD: "preserves P m \<Longrightarrow> P s \<Longrightarrow> m s = (r, t) \<Longrightarrow> P t"
  by (metis preserves_def snd_conv)

lemma keeps_preserves: "keeps f m \<Longrightarrow> preserves (\<lambda>s. P (f s)) m"
  by (simp add: keeps_def preserves_def)

lemma preserves_ret [preserves_intro]: "preserves P (go_ret x)"
  and preserves_raise [preserves_intro]: "preserves P (go_raise e)"
  and preserves_reads [preserves_intro]: "preserves P (go_reads g)"
  and preserves_of [preserves_intro]: "preserves P (go_of r)"
  by (simp_all add: preserves_def go_defs)

lemma preserves_modify: "(\<And>s. P s \<Longrightarrow> P (g s)) \<Longrightarrow> preserves P (go_modify g)"
  by (simp add: preserves_def go_defs)

lemma preserves_bind [preserves_intro]:
  assumes "preserves P m" and "\<And>x. preserves P (k x)"
  shows "preserves P (go_bind m k)"
proof (rule preservesI)
  fix s r t
  assume P: "P s" and run: "go_bind m k s = (r, t)"
  show "P t"
  proof (cases "m s")
    case (Pair a u)
    with assms(1) P have u: "P u" by (blast dest: preservesD)
    show ?thesis
    proof (cases a)
      case (Inl e)
      with Pair run u show ?thesis by (simp add: go_bind_def)
    next
      case (Inr x)
      with Pair run have "k x u = (r, t)" by (simp add: go_bind_def)
      with assms(2) u show ?thesis by (blast dest: preservesD)
    qed
  qed
qed

lemma preserves_wrap [preserves_intro]: "preserves P m \<Longrightarrow> preserves P (go_wrap w m)"
  by (rule preservesI) (auto simp: go_wrap_def split: prod.splits sum.splits dest: preservesD)

lemma preserves_try [preserves_intro]: "preserves P m \<Longrightarrow> preserves P (go_try m)"
  by (rule preservesI) (auto simp: go_try_def split: prod.splits sum.splits dest: preservesD)

lemma preserves_foreach [preserves_intro]:
  "(\<And>x. preserves P (b x)) \<Longrightarrow> preserves P (go_foreach b xs)"
  by (induction xs) (auto intro: preserves_intro)

lemma preserves_if [preserves_intro]:
  "preserves P m \<Longrightarrow> preserves P n \<Longrightarrow> preserves P (if b then m else n)"
  by simp

lemma preserves_case_option [preserves_intro]:
  "preserves P m \<Longrightarrow> (\<And>x. preserves P (n x)) \<Longrightarrow> preserves P (case y of None \<Rightarrow> m | Some x \<Rightarrow> n x)"
  by (cases y) auto

lemma preserves_case_sum [preserves_intro]:
  "(\<And>x. preserves P (m x)) \<Longrightarrow> (\<And>x. preserves P (n x)) \<Longrightarrow>
   preserves P (case y of Inl x \<Rightarrow> m x | Inr x \<Rightarrow> n x)"
  by (cases y) auto

lemma preserves_case_prod [preserves_intro]:
  "(\<And>x y. preserves P (m x y)) \<Longrightarrow> preserves P (case p of (x, y) \<Rightarrow> m x y)"
  by (cases p) auto

end
