(* ===== verification/GoStrings.thy ===== *)
theory GoStrings
  imports Prelude
begin

text \<open>
  The functions of Go's packages \<open>strings\<close>, \<open>strconv\<close>, \<open>encoding/hex\<close> and
  \<open>encoding/base64\<close> that the source calls, on byte strings, with the laws the components use:
  cutting undoes concatenation, splitting undoes joining, decoding undoes encoding.
\<close>

named_theorems str_simps \<open>laws of the string functions\<close>

section \<open>Package strings\<close>

definition has_prefix :: "string \<Rightarrow> string \<Rightarrow> bool" where
  "has_prefix s p \<longleftrightarrow> take (length p) s = p"

definition cut_prefix :: "string \<Rightarrow> string \<Rightarrow> string \<times> bool" where
  "cut_prefix s p = (if has_prefix s p then (drop (length p) s, True) else (s, False))"

definition trim_prefix :: "string \<Rightarrow> string \<Rightarrow> string" where
  "trim_prefix s p = (if has_prefix s p then drop (length p) s else s)"

definition has_suffix :: "string \<Rightarrow> string \<Rightarrow> bool" where
  "has_suffix s p \<longleftrightarrow> has_prefix (rev s) (rev p)"

definition trim_suffix :: "string \<Rightarrow> string \<Rightarrow> string" where
  "trim_suffix s p = (if has_suffix s p then take (length s - length p) s else s)"

text \<open>\<open>strings.Cut\<close> at the first occurrence of a separator.\<close>

fun str_cut :: "string \<Rightarrow> string \<Rightarrow> (string \<times> string) option" where
  "str_cut sep [] = (if sep = [] then Some ([], []) else None)"
| "str_cut sep (c # s) =
     (if has_prefix (c # s) sep then Some ([], drop (length sep) (c # s))
      else map_option (\<lambda>(a, b). (c # a, b)) (str_cut sep s))"

lemma str_cut_eq: "str_cut sep s = Some (a, b) \<Longrightarrow> s = a @ sep @ b"
proof (induction s arbitrary: a)
  case Nil
  then show ?case by (auto split: if_splits)
next
  case (Cons c s)
  show ?case
  proof (cases "has_prefix (c # s) sep")
    case True
    with Cons.prems have "a = []" and b: "b = drop (length sep) (c # s)" by auto
    moreover have "c # s = sep @ b"
      using True b by (metis append_take_drop_id has_prefix_def)
    ultimately show ?thesis by simp
  next
    case False
    with Cons show ?thesis by (auto split: prod.splits)
  qed
qed

lemma str_cut_shorter: "str_cut sep s = Some (a, b) \<Longrightarrow> sep \<noteq> [] \<Longrightarrow> length b < length s"
  using str_cut_eq by (fastforce simp: neq_Nil_conv)

definition str_contains :: "string \<Rightarrow> string \<Rightarrow> bool" where
  "str_contains s sub \<longleftrightarrow> str_cut sub s \<noteq> None"

text \<open>\<open>strings.Split\<close> with a non-empty separator.\<close>

function str_split :: "string \<Rightarrow> string \<Rightarrow> string list" where
  "str_split sep s =
     (if sep = [] then map (\<lambda>c. [c]) s
      else case str_cut sep s of None \<Rightarrow> [s] | Some (a, b) \<Rightarrow> a # str_split sep b)"
  by pat_completeness auto
termination
  by (relation "measure (\<lambda>(sep, s). length s)") (auto dest: str_cut_shorter)

declare str_split.simps [simp del]

text \<open>\<open>strings.ReplaceAll\<close> with a non-empty pattern, and \<open>strings.Replace\<close> of the first match.\<close>

function replace_all :: "string \<Rightarrow> string \<Rightarrow> string \<Rightarrow> string" where
  "replace_all old new s =
     (if old = [] then s
      else case str_cut old s of None \<Rightarrow> s | Some (a, b) \<Rightarrow> a @ new @ replace_all old new b)"
  by pat_completeness auto
termination
  by (relation "measure (\<lambda>(old, new, s). length s)") (auto dest: str_cut_shorter)

declare replace_all.simps [simp del]

definition replace_first :: "string \<Rightarrow> string \<Rightarrow> string \<Rightarrow> string" where
  "replace_first old new s = (case str_cut old s of None \<Rightarrow> s | Some (a, b) \<Rightarrow> a @ new @ b)"

fun str_join :: "string \<Rightarrow> string list \<Rightarrow> string" where
  "str_join sep [] = []"
| "str_join sep [x] = x"
| "str_join sep (x # y # ys) = x @ sep @ str_join sep (y # ys)"

text \<open>The ASCII part of \<open>unicode.IsSpace\<close>, and \<open>strings.TrimSpace\<close>.\<close>

definition is_space :: "char \<Rightarrow> bool" where
  "is_space c \<longleftrightarrow> c \<in> {CHR '' '', CHR 0x09, CHR 0x0A, CHR 0x0B, CHR 0x0C, CHR 0x0D}"

definition trim_space :: "string \<Rightarrow> string" where
  "trim_space s = rev (dropWhile is_space (rev (dropWhile is_space s)))"

subsection \<open>Laws\<close>

lemma has_prefix_append [simp, str_simps]: "has_prefix (p @ s) p"
  by (simp add: has_prefix_def)

lemma has_prefix_iff: "has_prefix s p \<longleftrightarrow> (\<exists>t. s = p @ t)"
  by (metis append_take_drop_id has_prefix_append has_prefix_def)

lemma has_prefix_Nil [simp]: "has_prefix s []"
  by (simp add: has_prefix_def)

lemma cut_prefix_append [str_simps]: "cut_prefix (p @ s) p = (s, True)"
  by (simp add: cut_prefix_def)

lemma cut_prefix_True: "cut_prefix s p = (t, True) \<longleftrightarrow> s = p @ t"
  by (auto simp: cut_prefix_def has_prefix_iff)

lemma trim_prefix_append [str_simps]: "trim_prefix (p @ s) p = s"
  by (simp add: trim_prefix_def)

lemma has_prefix_single: "has_prefix (c # s) [d] \<longleftrightarrow> c = d"
  by (simp add: has_prefix_def)

lemma str_cut_char [str_simps]: "c \<notin> set a \<Longrightarrow> str_cut [c] (a @ c # b) = Some (a, b)"
  by (induction a) (auto simp: has_prefix_single)

lemma str_cut_char_None: "str_cut [c] s = None \<longleftrightarrow> c \<notin> set s"
  by (induction s) (auto simp: has_prefix_single)

lemma str_cut_char_Some: "str_cut [c] s = Some (a, b) \<longleftrightarrow> s = a @ c # b \<and> c \<notin> set a"
proof
  show "s = a @ c # b \<and> c \<notin> set a \<Longrightarrow> str_cut [c] s = Some (a, b)"
    by (simp add: str_cut_char)
  show "str_cut [c] s = Some (a, b) \<Longrightarrow> s = a @ c # b \<and> c \<notin> set a"
  proof (induction s arbitrary: a)
    case Nil
    then show ?case by simp
  next
    case (Cons x s)
    then show ?case by (auto simp: has_prefix_single split: if_splits)
  qed
qed

lemma str_contains_char: "str_contains s [c] \<longleftrightarrow> c \<in> set s"
  by (simp add: str_contains_def str_cut_char_None)

lemma str_split_none [str_simps]: "c \<notin> set s \<Longrightarrow> str_split [c] s = [s]"
  by (simp add: str_split.simps str_cut_char_None [THEN iffD2])

lemma str_split_cons [str_simps]: "c \<notin> set a \<Longrightarrow> str_split [c] (a @ c # b) = a # str_split [c] b"
  by (subst str_split.simps) (simp add: str_cut_char)

lemma str_split_join:
  "xs \<noteq> [] \<Longrightarrow> (\<And>x. x \<in> set xs \<Longrightarrow> c \<notin> set x) \<Longrightarrow> str_split [c] (str_join [c] xs) = xs"
  by (induction "[c]" xs rule: str_join.induct) (auto simp: str_simps)

lemma replace_first_prefix [str_simps]: "old \<noteq> [] \<Longrightarrow> replace_first old new (old @ s) = new @ s"
  by (cases old) (auto simp: replace_first_def has_prefix_iff)

section \<open>Package strconv\<close>

definition is_digit :: "char \<Rightarrow> bool" where
  "is_digit c \<longleftrightarrow> 48 \<le> (of_char c :: nat) \<and> (of_char c :: nat) \<le> 57"

definition digit_val :: "char \<Rightarrow> nat" where
  "digit_val c = of_char c - 48"

definition digits_val :: "string \<Rightarrow> nat" where
  "digits_val s = foldl (\<lambda>n c. 10 * n + digit_val c) 0 s"

text \<open>
  \<open>strconv.ParseInt(s, 10, 64)\<close> and \<open>strconv.Atoi\<close> on a 64-bit platform: an optional sign,
  at least one digit, nothing else, and a value that fits in an int64.
\<close>

definition parse_int64 :: "string \<Rightarrow> go_error + int" where
  "parse_int64 s =
     (let neg = (case s of c # _ \<Rightarrow> c = CHR ''-'' | [] \<Rightarrow> False);
          ds = (case s of c # r \<Rightarrow> if c = CHR ''-'' \<or> c = CHR ''+'' then r else s | [] \<Rightarrow> [])
      in if ds = [] \<or> \<not> list_all is_digit ds then Inl (Failure ''invalid syntax'')
         else let v = (if neg then - int (digits_val ds) else int (digits_val ds))
              in if v < - (2 ^ 63) \<or> 2 ^ 63 \<le> v then Inl (Failure ''value out of range'') else Inr v)"

lemma parse_int64_range: "parse_int64 s = Inr v \<Longrightarrow> - (2 ^ 63) \<le> v \<and> v < 2 ^ 63"
  by (auto simp: parse_int64_def Let_def split: if_splits list.splits)

section \<open>Package encoding/hex\<close>

definition hex_digit :: "nat \<Rightarrow> char" where
  "hex_digit n = (if n < 10 then char_of (48 + n) else char_of (87 + n))"

definition hex_encode :: "string \<Rightarrow> string" where
  "hex_encode s = concat (map (\<lambda>c. [hex_digit (of_char c div 16), hex_digit (of_char c mod 16)]) s)"

lemma length_hex_encode [simp]: "length (hex_encode s) = 2 * length s"
  by (induction s) (simp_all add: hex_encode_def)

section \<open>Package encoding/base64\<close>

definition std_alphabet :: string where
  "std_alphabet = ''ABCDEFGHIJKLMNOPQRSTUVWXYZabcdefghijklmnopqrstuvwxyz0123456789+/''"

definition url_alphabet :: string where
  "url_alphabet = ''ABCDEFGHIJKLMNOPQRSTUVWXYZabcdefghijklmnopqrstuvwxyz0123456789-_''"

text \<open>Six-bit groups of a byte sequence, the last one padded with zero bits.\<close>

fun sextets :: "nat list \<Rightarrow> nat list" where
  "sextets (a # b # c # r) =
     (let n = a * 65536 + b * 256 + c
      in n div 262144 # n div 4096 mod 64 # n div 64 mod 64 # n mod 64 # sextets r)"
| "sextets [a, b] =
     (let n = a * 65536 + b * 256 in [n div 262144, n div 4096 mod 64, n div 64 mod 64])"
| "sextets [a] = (let n = a * 65536 in [n div 262144, n div 4096 mod 64])"
| "sextets [] = []"

fun octets :: "nat list \<Rightarrow> nat list option" where
  "octets (w # x # y # z # r) =
     (let n = w * 262144 + x * 4096 + y * 64 + z
      in map_option (\<lambda>bs. n div 65536 # n div 256 mod 256 # n mod 256 # bs) (octets r))"
| "octets [w, x, y] = (let n = w * 262144 + x * 4096 + y * 64 in Some [n div 65536, n div 256 mod 256])"
| "octets [w, x] = (let n = w * 262144 + x * 4096 in Some [n div 65536])"
| "octets [w] = None"
| "octets [] = Some []"

text \<open>The same over binary integers, for evaluation.\<close>

lemma octets_code [code]:
  "octets (w # x # y # z # r) =
     (let n = int w * 262144 + int x * 4096 + int y * 64 + int z
      in map_option (\<lambda>bs. nat (n div 65536) # nat (n div 256 mod 256) # nat (n mod 256) # bs) (octets r))"
  "octets [w, x, y] =
     (let n = int w * 262144 + int x * 4096 + int y * 64 in Some [nat (n div 65536), nat (n div 256 mod 256)])"
  "octets [w, x] = (let n = int w * 262144 + int x * 4096 in Some [nat (n div 65536)])"
  "octets [w] = None"
  "octets [] = Some []"
  by (simp_all add: Let_def nat_div_distrib nat_mod_distrib nat_add_distrib nat_mult_distrib)

lemma sextets_code [code]:
  "sextets (a # b # c # r) =
     (let n = int a * 65536 + int b * 256 + int c
      in nat (n div 262144) # nat (n div 4096 mod 64) # nat (n div 64 mod 64) # nat (n mod 64) # sextets r)"
  "sextets [a, b] =
     (let n = int a * 65536 + int b * 256 in [nat (n div 262144), nat (n div 4096 mod 64), nat (n div 64 mod 64)])"
  "sextets [a] = (let n = int a * 65536 in [nat (n div 262144), nat (n div 4096 mod 64)])"
  "sextets [] = []"
  by (simp_all add: Let_def nat_div_distrib nat_mod_distrib nat_add_distrib nat_mult_distrib)

fun index_in :: "char \<Rightarrow> string \<Rightarrow> nat option" where
  "index_in c [] = None"
| "index_in c (d # ds) = (if c = d then Some 0 else map_option Suc (index_in c ds))"

fun option_list :: "'a option list \<Rightarrow> 'a list option" where
  "option_list [] = Some []"
| "option_list (None # xs) = None"
| "option_list (Some x # xs) = map_option (\<lambda>ys. x # ys) (option_list xs)"

text \<open>The encodings without padding; the decoder skips line ends, as Go's does.\<close>

definition b64_encode :: "string \<Rightarrow> string \<Rightarrow> string" where
  "b64_encode alphabet s = map (\<lambda>i. alphabet ! i) (sextets (map of_char s))"

definition b64_decode :: "string \<Rightarrow> string \<Rightarrow> go_error + string" where
  "b64_decode alphabet s =
     (case option_list (map (\<lambda>c. index_in c alphabet)
             (filter (\<lambda>c. c \<noteq> CHR 0x0A \<and> c \<noteq> CHR 0x0D) s)) of
        None \<Rightarrow> Inl (Failure ''illegal base64 data'')
      | Some ns \<Rightarrow>
          (case octets ns of
             None \<Rightarrow> Inl (Failure ''illegal base64 data'')
           | Some bs \<Rightarrow> Inr (map char_of bs)))"

lemma sextets_bound: "list_all (\<lambda>b. b < 256) bs \<Longrightarrow> x \<in> set (sextets bs) \<Longrightarrow> x < 64"
  by (induction bs rule: sextets.induct) (auto simp: Let_def)

lemma sextet_sum:
  fixes n :: nat
  shows "(n div 262144) * 262144 + (n div 4096 mod 64) * 4096 + (n div 64 mod 64) * 64 + n mod 64 = n"
proof -
  have 1: "n div 64 div 64 = n div 4096" "n div 4096 div 64 = n div 262144"
    by (simp_all flip: div_mult2_eq)
  have "n = (n div 64) * 64 + n mod 64" by simp
  moreover have "n div 64 = (n div 4096) * 64 + n div 64 mod 64"
    using div_mult_mod_eq [of "n div 64" 64] 1 by simp
  moreover have "n div 4096 = (n div 262144) * 64 + n div 4096 mod 64"
    using div_mult_mod_eq [of "n div 4096" 64] 1 by simp
  ultimately show ?thesis by linarith
qed

lemma octet_parts:
  fixes a :: nat
  assumes "b < 256" and "c < 256"
  shows "(a * 65536 + b * 256 + c) div 65536 = a"
    and "(a * 65536 + b * 256 + c) div 256 mod 256 = b mod 256"
    and "(a * 65536 + b * 256 + c) mod 256 = c"
proof -
  have "b * 256 + c < 65536" using assms by linarith
  then have "(a * 65536 + (b * 256 + c)) div 65536 = a" by simp
  then show "(a * 65536 + b * 256 + c) div 65536 = a" by (simp only: add.assoc)
  have e: "a * 65536 + b * 256 + c = c + (a * 256 + b) * 256" by (simp add: algebra_simps)
  have "(c + (a * 256 + b) * 256) div 256 = a * 256 + b" using assms by simp
  then show "(a * 65536 + b * 256 + c) div 256 mod 256 = b mod 256"
    by (simp add: e mod_add_left_eq)
  have "(c + (a * 256 + b) * 256) mod 256 = c mod 256" by (rule mod_mult_self1)
  with e assms show "(a * 65536 + b * 256 + c) mod 256 = c" by (simp only: mod_less)
qed

lemma octets_sextets: "list_all (\<lambda>b. b < 256) bs \<Longrightarrow> octets (sextets bs) = Some bs"
proof (induction bs rule: sextets.induct)
  case (1 a b c r)
  then have lt: "a < 256" "b < 256" "c < 256" and IH: "octets (sextets r) = Some r" by simp_all
  show ?case
    unfolding sextets.simps octets.simps Let_def sextet_sum
    using lt IH octet_parts [of b c a] by simp
next
  case (2 a b)
  then have lt: "a < 256" "b < 256" by simp_all
  let ?n = "a * 65536 + b * 256"
  have "?n = (a * 1024 + b * 4) * 64" by simp
  then have "?n mod 64 = 0" by (metis mod_mult_self2_is_0)
  then have "(?n div 262144) * 262144 + (?n div 4096 mod 64) * 4096 + (?n div 64 mod 64) * 64 = ?n"
    using sextet_sum [of ?n] by linarith
  moreover have "?n div 65536 = a" "?n div 256 mod 256 = b"
    using lt octet_parts [of b 0 a] by simp_all
  ultimately show ?case unfolding sextets.simps octets.simps Let_def by simp
next
  case (3 a)
  then have lt: "a < 256" by simp
  let ?n = "a * 65536"
  have n: "?n = (a * 16 * 64) * 64" by simp
  then have "?n mod 64 = 0" by (metis mod_mult_self2_is_0)
  moreover have "?n div 64 = a * 16 * 64" by (simp only: n div_mult_self_is_m)
  then have "?n div 64 mod 64 = 0" by (metis mod_mult_self2_is_0)
  ultimately have m: "?n mod 64 = 0" "?n div 64 mod 64 = 0" by simp_all
  have "(?n div 262144) * 262144 + (?n div 4096 mod 64) * 4096 = ?n"
    using sextet_sum [of ?n] unfolding m by linarith
  with lt show ?case unfolding sextets.simps octets.simps Let_def by simp
next
  case 4
  then show ?case by simp
qed

lemma option_list_map_Some: "option_list (map (Some \<circ> f) xs) = Some (map f xs)"
  by (induction xs) auto

text \<open>What both alphabets satisfy: 64 distinct characters, no line end.\<close>

definition alphabet_ok :: "string \<Rightarrow> bool" where
  "alphabet_ok al \<longleftrightarrow> length al = 64 \<and> CHR 0x0A \<notin> set al \<and> CHR 0x0D \<notin> set al \<and>
     list_all (\<lambda>i. index_in (al ! i) al = Some i) [0..<64]"

lemma std_alphabet_ok: "alphabet_ok std_alphabet"
  unfolding alphabet_ok_def std_alphabet_def by code_simp

lemma url_alphabet_ok: "alphabet_ok url_alphabet"
  unfolding alphabet_ok_def url_alphabet_def by code_simp

lemma b64_encode_chars:
  assumes "alphabet_ok al"
  shows "set (b64_encode al s) \<subseteq> set al"
proof -
  have "list_all (\<lambda>b. b < 256) (map (of_char :: char \<Rightarrow> nat) s)"
    by (simp add: list_all_iff)
  then have "i < length al" if "i \<in> set (sextets (map of_char s))" for i
    using sextets_bound that assms by (auto simp: alphabet_ok_def)
  then show ?thesis by (auto simp: b64_encode_def)
qed

lemma b64_roundtrip [str_simps]:
  assumes ok: "alphabet_ok al"
  shows "b64_decode al (b64_encode al s) = Inr s"
proof -
  let ?bs = "map (of_char :: char \<Rightarrow> nat) s"
  have lt: "list_all (\<lambda>b. b < 256) ?bs" by (simp add: list_all_iff)
  have ends: "filter (\<lambda>c. c \<noteq> CHR 0x0A \<and> c \<noteq> CHR 0x0D) (b64_encode al s) = b64_encode al s"
    using b64_encode_chars [OF ok, of s] ok by (auto simp: alphabet_ok_def intro!: filter_True)
  have "map (\<lambda>c. index_in c al) (b64_encode al s) = map (Some \<circ> id) (sextets ?bs)"
    using sextets_bound [OF lt] ok
    by (auto simp: b64_encode_def alphabet_ok_def list_all_iff)
  then have "option_list (map (\<lambda>c. index_in c al) (b64_encode al s)) = Some (sextets ?bs)"
    by (simp only: option_list_map_Some list.map_id)
  then show ?thesis
    by (simp add: b64_decode_def ends octets_sextets [OF lt] comp_def)
qed

lemma b64_std_no_colon: "CHR '':'' \<notin> set (b64_encode std_alphabet s)"
proof -
  have "CHR '':'' \<notin> set std_alphabet" by (simp add: std_alphabet_def)
  then show ?thesis using b64_encode_chars [OF std_alphabet_ok] by blast
qed

lemma b64_url_no_dot: "CHR ''.'' \<notin> set (b64_encode url_alphabet s)"
proof -
  have "CHR ''.'' \<notin> set url_alphabet" by (simp add: url_alphabet_def)
  then show ?thesis using b64_encode_chars [OF url_alphabet_ok] by blast
qed

end
