(* ===== verification/Tables.thy ===== *)
theory Tables
  imports Prelude
begin

text \<open>
  Relational tables and the two interfaces the program's queries rest on.

  A table is the list of its rows in insertion order (SQLite's rowid order); a query without
  ORDER BY scans it in that order. The statements the source issues are: a single-row
  select by key (\<open>tbl_get\<close>), a plain insert that violates the primary key on a duplicate
  (\<open>tbl_insert\<close>), \<open>ON CONFLICT DO NOTHING\<close> (\<open>tbl_ignore\<close>), \<open>ON CONFLICT DO UPDATE\<close>
  of all non-key columns (\<open>tbl_upsert\<close>), update and delete by predicate.

  Two locales state the contracts: \<open>keyed_table\<close>, what a lookup returns after writes, and
  \<open>keyset_pager\<close>, a page of rows after a cursor. Their client lemmas are the net effect of
  a batch of writes and the completeness of a walk over all pages.
\<close>

section \<open>Statements on a table\<close>

definition tbl_get :: "('r \<Rightarrow> 'k) \<Rightarrow> 'k \<Rightarrow> 'r list \<Rightarrow> 'r option" where
  "tbl_get key k t = find (\<lambda>r. key r = k) t"

definition tbl_has :: "('r \<Rightarrow> 'k) \<Rightarrow> 'k \<Rightarrow> 'r list \<Rightarrow> bool" where
  "tbl_has key k t \<longleftrightarrow> list_ex (\<lambda>r. key r = k) t"

definition tbl_insert :: "('r \<Rightarrow> 'k) \<Rightarrow> 'r \<Rightarrow> 'r list \<Rightarrow> go_error + 'r list" where
  "tbl_insert key r t = (if tbl_has key (key r) t then Inl SqlConstraint else Inr (t @ [r]))"

definition tbl_ignore :: "('r \<Rightarrow> 'k) \<Rightarrow> 'r \<Rightarrow> 'r list \<Rightarrow> 'r list" where
  "tbl_ignore key r t = (if tbl_has key (key r) t then t else t @ [r])"

definition tbl_upsert :: "('r \<Rightarrow> 'k) \<Rightarrow> 'r \<Rightarrow> 'r list \<Rightarrow> 'r list" where
  "tbl_upsert key r t =
     (if tbl_has key (key r) t then map (\<lambda>x. if key x = key r then r else x) t else t @ [r])"

definition tbl_update :: "('r \<Rightarrow> bool) \<Rightarrow> ('r \<Rightarrow> 'r) \<Rightarrow> 'r list \<Rightarrow> 'r list" where
  "tbl_update p f t = map (\<lambda>x. if p x then f x else x) t"

definition tbl_delete :: "('r \<Rightarrow> bool) \<Rightarrow> 'r list \<Rightarrow> 'r list" where
  "tbl_delete p t = filter (\<lambda>x. \<not> p x) t"

definition tbl_keys_ok :: "('r \<Rightarrow> 'k) \<Rightarrow> 'r list \<Rightarrow> bool" where
  "tbl_keys_ok key t \<longleftrightarrow> distinct (map key t)"

lemma tbl_has_iff: "tbl_has key k t \<longleftrightarrow> k \<in> key ` set t"
  by (auto simp: tbl_has_def list_ex_iff)

lemma tbl_get_None_iff: "tbl_get key k t = None \<longleftrightarrow> k \<notin> key ` set t"
  by (auto simp: tbl_get_def find_None_iff)

lemma tbl_get_Some: "tbl_get key k t = Some r \<Longrightarrow> r \<in> set t \<and> key r = k"
  by (auto simp: tbl_get_def find_Some_iff)

lemma tbl_get_append:
  "tbl_get key k (t @ u) = (case tbl_get key k t of Some r \<Rightarrow> Some r | None \<Rightarrow> tbl_get key k u)"
  by (induction t) (auto simp: tbl_get_def)

lemma tbl_get_snoc [table_simps]:
  "tbl_get key k (t @ [r]) =
     (case tbl_get key k t of Some x \<Rightarrow> Some x | None \<Rightarrow> if k = key r then Some r else None)"
  by (simp add: tbl_get_append split: option.split) (auto simp: tbl_get_def)

lemma tbl_get_mem: "tbl_keys_ok key t \<Longrightarrow> r \<in> set t \<Longrightarrow> tbl_get key (key r) t = Some r"
  by (induction t) (auto simp: tbl_get_def tbl_keys_ok_def rev_image_eqI)

lemma tbl_get_map_same:
  "(\<And>x. key (f x) = key x) \<Longrightarrow> tbl_get key k (map f t) = map_option f (tbl_get key k t)"
  by (induction t) (auto simp: tbl_get_def)

lemma tbl_get_upsert [table_simps]:
  "tbl_get key k (tbl_upsert key r t) = (if k = key r then Some r else tbl_get key k t)"
proof (cases "tbl_has key (key r) t")
  case True
  have "tbl_get key k (map (\<lambda>x. if key x = key r then r else x) t) =
        (if k = key r then (if tbl_has key k t then Some r else None) else tbl_get key k t)"
    by (induction t) (auto simp: tbl_get_def tbl_has_def)
  with True show ?thesis by (auto simp: tbl_upsert_def)
next
  case False
  then have "tbl_get key (key r) t = None" by (simp add: tbl_get_None_iff tbl_has_iff)
  then show ?thesis using False by (auto simp: tbl_upsert_def tbl_get_snoc split: option.splits)
qed

lemma tbl_get_delete_key [table_simps]:
  "tbl_get key k (tbl_delete (\<lambda>x. key x = j) t) = (if k = j then None else tbl_get key k t)"
  by (induction t) (auto simp: tbl_get_def tbl_delete_def)

lemma tbl_get_delete_other:
  "(\<And>x. x \<in> set t \<Longrightarrow> key x = k \<Longrightarrow> \<not> p x) \<Longrightarrow> tbl_get key k (tbl_delete p t) = tbl_get key k t"
  by (induction t) (auto simp: tbl_get_def tbl_delete_def)

lemma tbl_get_delete_hit:
  "(\<And>x. x \<in> set t \<Longrightarrow> key x = k \<Longrightarrow> p x) \<Longrightarrow> tbl_get key k (tbl_delete p t) = None"
  by (auto simp: tbl_get_None_iff tbl_delete_def)

lemma tbl_get_ignore [table_simps]:
  "tbl_get key k (tbl_ignore key r t) =
     (if k = key r then (case tbl_get key k t of None \<Rightarrow> Some r | Some x \<Rightarrow> Some x)
      else tbl_get key k t)"
  by (simp add: tbl_ignore_def tbl_get_snoc tbl_has_iff split: option.split)
     (metis option.distinct(1) tbl_get_None_iff)

lemma tbl_insert_Inr [table_simps]:
  "tbl_insert key r t = Inr u \<longleftrightarrow> tbl_get key (key r) t = None \<and> u = t @ [r]"
  by (auto simp: tbl_insert_def tbl_get_None_iff tbl_has_iff)

lemma tbl_keys_ok_upsert: "tbl_keys_ok key t \<Longrightarrow> tbl_keys_ok key (tbl_upsert key r t)"
proof -
  have "map key (map (\<lambda>x. if key x = key r then r else x) t) = map key t" by simp
  then show "tbl_keys_ok key t \<Longrightarrow> ?thesis"
    by (auto simp: tbl_keys_ok_def tbl_upsert_def tbl_has_iff simp del: map_map)
qed

lemma tbl_keys_ok_delete: "tbl_keys_ok key t \<Longrightarrow> tbl_keys_ok key (tbl_delete p t)"
  by (simp add: tbl_keys_ok_def tbl_delete_def distinct_map_filter)

lemma tbl_keys_ok_insert: "tbl_keys_ok key t \<Longrightarrow> tbl_insert key r t = Inr u \<Longrightarrow> tbl_keys_ok key u"
  by (auto simp: tbl_keys_ok_def tbl_insert_def tbl_has_iff split: if_splits)

lemma set_tbl_upsert: "set (tbl_upsert key r t) = insert r {x \<in> set t. key x \<noteq> key r}"
  by (auto simp: tbl_upsert_def tbl_has_iff) (metis rev_image_eqI)+

section \<open>The contract of a keyed table\<close>

text \<open>
  What a lookup returns after an upsert and after a delete by key. The clients are the index
  of a repo, the block revisions and the settings; the lemmas give the effect of the loops
  that issue one statement per element.
\<close>

locale keyed_table =
  fixes key :: "'r \<Rightarrow> 'k"
    and lookup :: "'k \<Rightarrow> 't \<Rightarrow> 'r option"
    and upsert :: "'r \<Rightarrow> 't \<Rightarrow> 't"
    and remove :: "'k \<Rightarrow> 't \<Rightarrow> 't"
  assumes lookup_upsert: "lookup k (upsert r t) = (if k = key r then Some r else lookup k t)"
    and lookup_remove: "lookup k (remove j t) = (if k = j then None else lookup k t)"
begin

lemma lookup_upserts:
  "lookup k (fold upsert rs t) =
     (case find (\<lambda>r. key r = k) (rev rs) of Some r \<Rightarrow> Some r | None \<Rightarrow> lookup k t)"
proof (induction rs arbitrary: t)
  case Nil
  then show ?case by simp
next
  case (Cons r rs)
  have app: "find P (xs @ ys) = (case find P xs of Some x \<Rightarrow> Some x | None \<Rightarrow> find P ys)"
    for P and xs ys :: "'r list"
    by (induction xs) auto
  show ?case
    by (auto simp: Cons.IH app lookup_upsert split: option.splits)
qed

lemma lookup_removes:
  "lookup k (fold remove ks t) = (if k \<in> set ks then None else lookup k t)"
  by (induction ks arbitrary: t) (auto simp: lookup_remove)

lemma lookup_upserts_other: "k \<notin> key ` set rs \<Longrightarrow> lookup k (fold upsert rs t) = lookup k t"
  by (induction rs arbitrary: t) (auto simp: lookup_upsert)

lemma lookup_upsert_idem: "lookup k (upsert r (upsert r t)) = lookup k (upsert r t)"
  by (simp add: lookup_upsert)

text \<open>
  The net effect of a batch: all upserts first, then all deletes. A key written twice keeps
  the last row; a key that is also deleted is gone, whatever the order of the two was.
\<close>

lemma lookup_batch:
  "lookup k (fold remove ks (fold upsert rs t)) =
     (if k \<in> set ks then None
      else case find (\<lambda>r. key r = k) (rev rs) of Some r \<Rightarrow> Some r | None \<Rightarrow> lookup k t)"
  by (simp add: lookup_removes lookup_upserts)

end

section \<open>Keyset pagination\<close>

text \<open>
  The shape of every list operation: ask for one row more than the limit, cut the page to the
  limit and return as the next cursor the key of the last row kept. \<open>items[len(items)-1]\<close>
  panics when the limit is 0 and there is a row.
\<close>

definition cut_page :: "('i \<Rightarrow> string) \<Rightarrow> nat \<Rightarrow> 'i list \<Rightarrow> go_error + ('i list \<times> string option)" where
  "cut_page key limit items =
     (if length items > limit then
        (if limit = 0 then Inl (Panic ''index out of range [-1]'')
         else Inr (take limit items, Some (key (last (take limit items)))))
      else Inr (items, None))"

text \<open>
  Reading a whole list through its pages: start without a cursor (the empty string) and pass
  each returned cursor on. \<open>fuel\<close> bounds the number of pages.
\<close>

fun walk_pages :: "(string \<Rightarrow> go_error + ('i list \<times> string option)) \<Rightarrow> nat \<Rightarrow> string \<Rightarrow> go_error + 'i list" where
  "walk_pages page 0 c = Inl (Failure ''out of fuel'')"
| "walk_pages page (Suc fuel) c =
     (case page c of
        Inl e \<Rightarrow> Inl e
      | Inr (is, None) \<Rightarrow> Inr is
      | Inr (is, Some c') \<Rightarrow>
          (case walk_pages page fuel c' of Inl e \<Rightarrow> Inl e | Inr js \<Rightarrow> Inr (is @ js)))"

locale keyset_pager =
  fixes key :: "'i \<Rightarrow> string"
    and before :: "string \<Rightarrow> string \<Rightarrow> bool"
    and rows :: "'t \<Rightarrow> 'i list"
    and page :: "'t \<Rightarrow> string \<Rightarrow> nat \<Rightarrow> go_error + ('i list \<times> string option)"
    and ok :: "'t \<Rightarrow> bool"
  assumes before_asym: "before a b \<Longrightarrow> \<not> before b a"
    and rows_sorted: "ok t \<Longrightarrow> sorted_wrt (\<lambda>x y. before (key x) (key y)) (rows t)"
    and rows_nonempty: "ok t \<Longrightarrow> x \<in> set (rows t) \<Longrightarrow> key x \<noteq> []"
    and page_first: "ok t \<Longrightarrow> page t [] n = cut_page key n (take (Suc n) (rows t))"
    and page_after: "ok t \<Longrightarrow> c \<noteq> [] \<Longrightarrow>
           page t c n = cut_page key n (take (Suc n) (filter (\<lambda>x. before c (key x)) (rows t)))"
begin

lemma before_irrefl: "\<not> before a a"
  using before_asym by blast

lemma filter_after_nth:
  assumes sorted: "sorted_wrt (\<lambda>x y. before (key x) (key y)) xs" and i: "i < length xs"
  shows "filter (\<lambda>x. before (key (xs ! i)) (key x)) xs = drop (Suc i) xs"
proof -
  let ?P = "\<lambda>x. before (key (xs ! i)) (key x)"
  have split: "xs = take (Suc i) xs @ drop (Suc i) xs" by simp
  have "filter ?P (take (Suc i) xs) = []"
  proof (rule filter_False, rule ballI)
    fix x assume "x \<in> set (take (Suc i) xs)"
    then obtain j where "j < length (take (Suc i) xs)" "take (Suc i) xs ! j = x"
      by (metis in_set_conv_nth)
    then have j: "j \<le> i" "x = xs ! j" using i by auto
    show "\<not> ?P x"
    proof (cases "j = i")
      case True
      then show ?thesis using j before_irrefl by simp
    next
      case False
      with j i sorted have "before (key x) (key (xs ! i))"
        by (simp add: sorted_wrt_iff_nth_less)
      then show ?thesis by (rule before_asym)
    qed
  qed
  moreover have "filter ?P (drop (Suc i) xs) = drop (Suc i) xs"
  proof (rule filter_True, rule ballI)
    fix x assume "x \<in> set (drop (Suc i) xs)"
    then obtain j where "j < length (drop (Suc i) xs)" "drop (Suc i) xs ! j = x"
      by (metis in_set_conv_nth)
    then have "Suc i + j < length xs" "x = xs ! (Suc i + j)" using i by auto
    with sorted show "?P x" by (simp add: sorted_wrt_iff_nth_less)
  qed
  ultimately show ?thesis
    by (metis split filter_append self_append_conv2)
qed

lemma page_at:
  assumes ok: "ok t" and k: "k \<le> length (rows t)" and c: "c = (if k = 0 then [] else key (rows t ! (k - 1)))"
  shows "page t c n = cut_page key n (take (Suc n) (drop k (rows t)))"
proof (cases "k = 0")
  case True
  then show ?thesis using page_first [OF ok] c by simp
next
  case False
  then have i: "k - 1 < length (rows t)" using k by simp
  then have ne: "key (rows t ! (k - 1)) \<noteq> []" using rows_nonempty [OF ok] nth_mem by blast
  with False c have "page t c n =
      cut_page key n (take (Suc n) (filter (\<lambda>x. before (key (rows t ! (k - 1))) (key x)) (rows t)))"
    using page_after [OF ok] by simp
  also have "\<dots> = cut_page key n (take (Suc n) (drop k (rows t)))"
    using filter_after_nth [OF rows_sorted [OF ok] i] False by simp
  finally show ?thesis .
qed

text \<open>
  Walking the pages with any positive limit returns every row once, in order, and needs no
  more pages than there are rows plus one.
\<close>

lemma walk_from:
  assumes ok: "ok t" and n: "0 < n" and k: "k \<le> length (rows t)"
    and c: "c = (if k = 0 then [] else key (rows t ! (k - 1)))"
    and fuel: "length (rows t) - k < fuel"
  shows "walk_pages (\<lambda>c. page t c n) fuel c = Inr (drop k (rows t))"
  using k c fuel
proof (induction fuel arbitrary: k c)
  case 0
  then show ?case by simp
next
  case (Suc fuel)
  let ?xs = "rows t"
  have pg: "page t c n = cut_page key n (take (Suc n) (drop k ?xs))"
    by (rule page_at [OF ok Suc.prems(1,2)])
  show ?case
  proof (cases "length ?xs - k > n")
    case False
    then show ?thesis by (simp add: pg cut_page_def)
  next
    case True
    let ?k = "k + n"
    have lst: "last (take n (take (Suc n) (drop k ?xs))) = ?xs ! (?k - 1)"
      using True n by (simp add: last_conv_nth)
    have "page t c n = Inr (take n (drop k ?xs), Some (key (?xs ! (?k - 1))))"
      using True n lst by (simp add: pg cut_page_def)
    moreover have "walk_pages (\<lambda>c. page t c n) fuel (key (?xs ! (?k - 1))) = Inr (drop ?k ?xs)"
      using True n Suc.prems(3) by (intro Suc.IH) auto
    moreover have "take n (drop k ?xs) @ drop ?k ?xs = drop k ?xs"
      by (metis add.commute append_take_drop_id drop_drop)
    ultimately show ?thesis by simp
  qed
qed

lemma walk_complete:
  "ok t \<Longrightarrow> 0 < n \<Longrightarrow> length (rows t) < fuel \<Longrightarrow> walk_pages (\<lambda>c. page t c n) fuel [] = Inr (rows t)"
  using walk_from [of t n 0 "[]" fuel] by simp

end

section \<open>Ordered results\<close>

text \<open>\<open>ORDER BY key ASC\<close> and \<open>DESC\<close> on a column that is unique among the selected rows.\<close>

definition order_asc :: "('r \<Rightarrow> 'k::linorder) \<Rightarrow> 'r list \<Rightarrow> 'r list" where
  "order_asc key t = sort_key key t"

definition order_desc :: "('r \<Rightarrow> 'k::linorder) \<Rightarrow> 'r list \<Rightarrow> 'r list" where
  "order_desc key t = rev (sort_key key t)"

lemma set_order [simp]: "set (order_asc key t) = set t" "set (order_desc key t) = set t"
  by (simp_all add: order_asc_def order_desc_def)

lemma length_order [simp]: "length (order_asc key t) = length t" "length (order_desc key t) = length t"
  by (simp_all add: order_asc_def order_desc_def)

lemma distinct_map_sort_key: "distinct (map key (sort_key key t)) \<longleftrightarrow> distinct (map key t)"
  by (metis distinct_map distinct_sort set_sort)

lemma order_asc_sorted:
  "distinct (map key t) \<Longrightarrow> sorted_wrt (\<lambda>x y. key x < key y) (order_asc key t)"
proof -
  assume d: "distinct (map key t)"
  have "sorted_wrt (<) (map key (sort_key key t))"
    using d by (simp add: strict_sorted_iff distinct_map_sort_key)
  then show ?thesis by (simp add: order_asc_def sorted_wrt_map)
qed

lemma order_desc_sorted:
  "distinct (map key t) \<Longrightarrow> sorted_wrt (\<lambda>x y. key x > key y) (order_desc key t)"
  using order_asc_sorted [of key t] by (simp add: order_desc_def order_asc_def sorted_wrt_rev)

lemma filter_order_asc: "order_asc key (filter p t) = filter p (order_asc key t)"
  by (simp add: order_asc_def filter_sort)

lemma filter_order_desc: "order_desc key (filter p t) = filter p (order_desc key t)"
  by (simp add: order_desc_def filter_sort flip: rev_filter)

text \<open>\<open>ORDER BY key DESC LIMIT 1\<close>: the row with the greatest key.\<close>

definition top_row :: "('r \<Rightarrow> 'k::linorder) \<Rightarrow> 'r list \<Rightarrow> 'r option" where
  "top_row key t = (case order_desc key t of [] \<Rightarrow> None | r # _ \<Rightarrow> Some r)"

lemma top_row_None [simp]: "top_row key t = None \<longleftrightarrow> t = []"
proof -
  have "order_desc key t = [] \<longleftrightarrow> t = []"
    by (metis length_0_conv length_order(2))
  then show ?thesis by (auto simp: top_row_def split: list.splits)
qed

lemma top_row_mem: "top_row key t = Some r \<Longrightarrow> r \<in> set t"
  by (metis list.set_intros(1) option.discI option.inject set_order(2) top_row_def list.exhaust list.simps(4,5))

lemma top_row_max: "top_row key t = Some r \<Longrightarrow> x \<in> set t \<Longrightarrow> key x \<le> key r"
proof -
  assume a: "top_row key t = Some r" "x \<in> set t"
  then obtain rs where rs: "order_desc key t = r # rs"
    by (auto simp: top_row_def split: list.splits)
  have "sorted (map key (rev (r # rs)))"
    using rs by (metis order_desc_def rev_rev_ident sorted_sort_key)
  moreover have "x \<in> set (r # rs)" using a(2) rs by (metis set_order(2))
  ultimately show ?thesis by (auto simp: sorted_append)
qed

lemma top_row_append_max:
  assumes "\<And>x. x \<in> set t \<Longrightarrow> key x < key r"
  shows "top_row key (t @ [r]) = Some r"
proof (cases "top_row key (t @ [r])")
  case None
  then show ?thesis by simp
next
  case (Some q)
  then have "key r \<le> key q" "q \<in> set (t @ [r])"
    using top_row_max top_row_mem by (metis in_set_conv_decomp append_Nil2 list.set_intros(1) append.right_neutral, metis)
  then have "q \<notin> set t" using assms leD by blast
  with \<open>q \<in> set (t @ [r])\<close> Some show ?thesis by simp
qed

end
