(* ===== verification/Json.thy ===== *)
theory Json
  imports GoStrings
begin

text \<open>
  The JSON values the program writes and Go's \<open>json.Marshal\<close> of them. A Go map is \<open>JObj\<close>, whose
  keys are written in sorted order; a struct is \<open>JStruct\<close>, whose fields are written in the
  order of their declaration; \<open>JScalar\<close> is null, a boolean or a number by its text;
  \<open>JRaw\<close> is a \<open>json.RawMessage\<close>, and \<open>JDecoded\<close> the value \<open>json.Unmarshal\<close> makes of a text
  (null when it rejects the text).
\<close>

datatype json =
    JObj "(string \<times> json) list"
  | JStruct "(string \<times> json) list"
  | JArr "json list"
  | JStr string
  | JScalar string
  | JRaw string
  | JDecoded string

section \<open>Numbers\<close>

text \<open>\<open>strconv.Itoa\<close> and \<open>%d\<close>.\<close>

fun show_nat :: "nat \<Rightarrow> string" where
  "show_nat n = (if n < 10 then [char_of (48 + n)] else show_nat (n div 10) @ [char_of (48 + n mod 10)])"

declare show_nat.simps [simp del]

definition show_int :: "int \<Rightarrow> string" where
  "show_int i = (if i < 0 then CHR ''-'' # show_nat (nat (- i)) else show_nat (nat i))"

lemma digit_char: "n < 10 \<Longrightarrow> is_digit (char_of (48 + n)) \<and> digit_val (char_of (48 + n)) = n"
  by (simp add: is_digit_def digit_val_def)

lemma show_nat_digits: "list_all is_digit (show_nat n)"
proof (induction n rule: show_nat.induct)
  case (1 n)
  then show ?case
    by (cases "n < 10") (simp_all add: show_nat.simps [of n] digit_char)
qed

lemma show_nat_not_Nil [simp]: "show_nat n \<noteq> []"
  by (subst show_nat.simps) simp

lemma digits_val_snoc: "digits_val (s @ [c]) = 10 * digits_val s + digit_val c"
  by (simp add: digits_val_def)

lemma digits_val_show_nat [simp]: "digits_val (show_nat n) = n"
proof (induction n rule: show_nat.induct)
  case (1 n)
  show ?case
  proof (cases "n < 10")
    case True
    then show ?thesis
      by (simp add: show_nat.simps [of n] digits_val_def digit_char)
  next
    case False
    with 1 show ?thesis
      by (simp add: show_nat.simps [of n] digits_val_snoc digit_char)
  qed
qed

text \<open>What \<open>Itoa\<close> prints, \<open>ParseInt\<close> reads.\<close>

lemma parse_show_nat: "int n < 2 ^ 63 \<Longrightarrow> parse_int64 (show_nat n) = Inr (int n)"
proof -
  assume n: "int n < 2 ^ 63"
  obtain c r where s: "show_nat n = c # r" by (meson list.exhaust show_nat_not_Nil)
  have "is_digit c" using show_nat_digits [of n] by (simp add: s)
  then have "c \<noteq> CHR ''-''" "c \<noteq> CHR ''+''" by (auto simp: is_digit_def)
  moreover have "list_all is_digit (c # r)" "digits_val (c # r) = n"
    using show_nat_digits [of n] digits_val_show_nat [of n] by (simp_all only: s)
  moreover have "- (2 ^ 63) \<le> int n" by (rule order_trans [of _ 0]) simp_all
  ultimately show ?thesis using n by (simp add: parse_int64_def s)
qed

section \<open>Values\<close>

abbreviation "jnull \<equiv> JScalar ''null''"

definition jbool :: "bool \<Rightarrow> json" where
  "jbool b = JScalar (if b then ''true'' else ''false'')"

definition jint :: "int \<Rightarrow> json" where
  "jint i = JScalar (show_int i)"

text \<open>A pointer to a string, and a slice that is nil until the first \<open>append\<close>.\<close>

definition jopt :: "string option \<Rightarrow> json" where
  "jopt x = (case x of None \<Rightarrow> jnull | Some s \<Rightarrow> JStr s)"

definition jnil :: "json list \<Rightarrow> json" where
  "jnil xs = (if xs = [] then jnull else JArr xs)"

section \<open>json.Marshal\<close>

text \<open>
  Keys of a map in sorted order, strings quoted with Go's escapes (HTML characters
  included) of ASCII; bytes above are copied, as for valid UTF-8.
\<close>

definition json_char :: "char \<Rightarrow> string" where
  "json_char c =
     (if c = CHR 0x22 then [CHR 0x5C, CHR 0x22] else if c = CHR 0x5C then [CHR 0x5C, CHR 0x5C]
      else if c = CHR 0x0A then [CHR 0x5C, CHR ''n''] else if c = CHR 0x0D then [CHR 0x5C, CHR ''r'']
      else if c = CHR 0x09 then [CHR 0x5C, CHR ''t''] else if c = CHR 0x08 then [CHR 0x5C, CHR ''b'']
      else if c = CHR 0x0C then [CHR 0x5C, CHR ''f'']
      else if c < CHR 0x20 \<or> c = CHR ''<'' \<or> c = CHR ''>'' \<or> c = CHR ''&''
      then [CHR 0x5C, CHR ''u'', CHR ''0'', CHR ''0'', hex_digit (of_char c div 16), hex_digit (of_char c mod 16)]
      else [c])"

definition json_string :: "string \<Rightarrow> string" where
  "json_string s = CHR 0x22 # concat (map json_char s) @ [CHR 0x22]"

fun json_marshal :: "json \<Rightarrow> string" where
  "json_marshal (JScalar s) = s"
| "json_marshal (JRaw s) = s"
| "json_marshal (JDecoded s) = s"
| "json_marshal (JStr s) = json_string s"
| "json_marshal (JObj m) = ''{'' @
     str_join '','' (map snd (sort_key fst (map (\<lambda>(k, v). (k, json_string k @ '':'' @ json_marshal v)) m))) @ ''}''"
| "json_marshal (JStruct m) = ''{'' @
     str_join '','' (map (\<lambda>(k, v). json_string k @ '':'' @ json_marshal v) m) @ ''}''"
| "json_marshal (JArr xs) = ''['' @ str_join '','' (map json_marshal xs) @ '']''"

end
