(* ===== verification/State.thy ===== *)
theory State
  imports Tables Json
begin

text \<open>
  The state of a running PDS and the world outside \<open>src/\<close>.

  \<open>database\<close> is the SQLite file: one list of rows per table of
  \<open>internal/db/db.go\<close> (columns the code never reads are left out). \<open>pds\<close> adds what the
  process keeps in memory: the cache of open repo handles and the recording set of
  \<open>repo.Manager\<close>, the firehose \<open>Emitter\<close>, the blob files, and the messages sent to other
  hosts. \<open>'r\<close> is the type of indigo's \<open>*repo.Repo\<close> handle, which is not under \<open>src/\<close>.

  \<open>env\<close> holds every function the code takes from elsewhere. SQLite itself is modelled by the
  tables; that any statement may fail is \<open>fault n\<close>, the outcome of the \<open>n\<close>-th statement, so
  a property about all environments covers every pattern of failures.
\<close>

section \<open>Names and values\<close>

type_synonym did = string
type_synonym cid = string
type_synonym bytes = string

text \<open>\<open>cid.Undef\<close> is the CID with the empty byte string; \<open>Defined\<close> is its negation.\<close>

abbreviation (input) cid_undef :: cid where
  "cid_undef \<equiv> []"

text \<open>
  A TEXT column that holds a timestamp: the instant (in seconds, which is what
  \<open>time.RFC3339\<close> keeps) when \<open>time.Parse\<close> accepts the text, or a text it rejects.
\<close>

datatype stamp = Stamp int | BadStamp string

fun parse_rfc3339 :: "stamp \<Rightarrow> go_error + int" where
  "parse_rfc3339 (Stamp t) = Inr t"
| "parse_rfc3339 (BadStamp x) = Inl (Failure ''parsing time'')"

section \<open>Rows\<close>

record account =
  acc_did :: did
  acc_handle :: string
  acc_email :: "string option"
  acc_password_hash :: string
  acc_recovery_key :: string
  acc_signing_key :: string
  acc_created_at :: stamp
  acc_did_doc :: "string option"
  acc_deactivated_at :: "stamp option"
  acc_email_confirmed_at :: "stamp option"

record session =
  ses_token_hash :: string
  ses_did :: did
  ses_created_at :: stamp
  ses_expires_at :: stamp
  ses_app_password :: "string option"

record commit_row =
  cm_did :: did
  cm_rev :: string
  cm_cid :: bytes
  cm_prev :: "bytes option"
  cm_data :: bytes
  cm_sig :: bytes
  cm_created_at :: stamp

record block_row =
  blk_cid :: bytes
  blk_data :: bytes
  blk_size :: nat

record record_row =
  rr_did :: did
  rr_collection :: string
  rr_rkey :: string
  rr_cid :: bytes
  rr_value :: bytes

record block_rev_row =
  br_did :: did
  br_cid :: bytes
  br_rev :: string

record blob_row =
  bl_cid :: bytes
  bl_did :: did
  bl_size :: nat
  bl_mime :: "string option"
  bl_path :: string
  bl_created_at :: string

record app_password =
  ap_did :: did
  ap_name :: string
  ap_hash :: string
  ap_created_at :: stamp

record invite_code =
  iv_code :: string
  iv_created_by :: string
  iv_created_at :: stamp
  iv_used_by :: "string option"
  iv_used_at :: "stamp option"
  iv_disabled_at :: "stamp option"

record email_token =
  et_token :: string
  et_did :: did
  et_purpose :: string
  et_email :: string
  et_expires_at :: stamp
  et_used_at :: "stamp option"

abbreviation commit_key :: "commit_row \<Rightarrow> did \<times> string" where
  "commit_key r \<equiv> (cm_did r, cm_rev r)"

abbreviation record_key :: "record_row \<Rightarrow> did \<times> string \<times> string" where
  "record_key r \<equiv> (rr_did r, rr_collection r, rr_rkey r)"

abbreviation block_rev_key :: "block_rev_row \<Rightarrow> did \<times> bytes" where
  "block_rev_key r \<equiv> (br_did r, br_cid r)"

abbreviation app_password_key :: "app_password \<Rightarrow> did \<times> string" where
  "app_password_key r \<equiv> (ap_did r, ap_name r)"

text \<open>A firehose event, before it is serialised (\<open>atproto.SyncSubscribeRepos_*\<close>).\<close>

record repo_op =
  op_action :: string
  op_path :: string
  op_cid :: "cid option"
  op_prev :: "cid option"

datatype event =
    CommitEvent did cid string "string option" "cid option" "repo_op list" bytes
  | IdentityEvent did "string option"
  | AccountEvent did bool "string option"

text \<open>A frame of the stream: its sequence number, message type and body.\<close>

record frame =
  fr_seq :: int
  fr_type :: string
  fr_event :: event

text \<open>What the bridge has carried over: the direction and the CID it was known by at its source.\<close>

record sync_row =
  sy_direction :: string
  sy_source_cid :: string
  sy_local_uri :: string
  sy_remote_uri :: string
  sy_synced_at :: stamp

text \<open>
  A request of the bridge or of the Cloudflare client: the headers \<open>Content-Type\<close> and
  \<open>Authorization\<close> are empty when they are not set. And the reply: its status, the status line, the
  header \<open>Content-Type\<close> and the body.
\<close>

record http_request =
  hq_method :: string
  hq_url :: string
  hq_type :: string
  hq_auth :: string
  hq_body :: bytes

record http_reply =
  hr_status :: nat
  hr_line :: string
  hr_type :: string
  hr_body :: bytes

section \<open>The state\<close>

record database =
  accounts :: "account list"
  auth_sessions :: "session list"
  repo_commits :: "commit_row list"
  repo_blocks :: "block_row list"
  repo_records :: "record_row list"
  repo_block_revs :: "block_rev_row list"
  blobs :: "blob_row list"
  firehose_events :: "(int \<times> frame) list"
  app_passwords :: "app_password list"
  invite_codes :: "invite_code list"
  email_tokens :: "email_token list"
  relays :: "(string \<times> stamp) list"
  settings :: "(string \<times> string) list"
  app_preferences :: "(did \<times> bytes) list"
  mutes :: "(did \<times> string) list"
  bridge_config :: "(string \<times> string) list"
  bridge_sync :: "sync_row list"

text \<open>\<open>Emitter\<close>: the last sequence number, the last subscriber id, the live channels.\<close>

record emitter =
  em_seq :: int
  em_id :: int
  em_subs :: "(int \<times> frame list) list"

datatype message =
    RequestCrawl string string
  | Mail string string string string
  | Called http_request
  | TunnelRestart
  | TunnelStop
  | Reexec

record 'r pds =
  tick :: nat
  db :: database
  repos :: "did \<Rightarrow> 'r option"
  recorded :: "cid list option"
  emitter :: emitter
  files :: "string \<Rightarrow> bytes option"
  outbox :: "message list"
  blob_root :: "string option"
  public_url :: string

section \<open>The world outside\<close>

text \<open>
  A value \<open>cbor.DecodeInto\<close> produces for an \<open>any\<close>: the dynamic types \<open>toJSON\<close> tells
  apart. \<open>GScalar\<close> is nil, a boolean or a number, by its JSON text; a map is the list of its
  entries.
\<close>

datatype gov =
    GCid cid
  | GBytes bytes
  | GMap "(string \<times> gov) list"
  | GList "gov list"
  | GStr string
  | GScalar string

text \<open>\<open>atrepo.SignedCommit\<close>, as far as the code reads it.\<close>

record signed_commit =
  sc_data :: cid
  sc_prev :: "cid option"
  sc_rev :: string
  sc_sig :: bytes

text \<open>
  A library function that works on a blockstore handed to it is any program over the two
  operations of the interface: it may get and put blocks, sees their outcome, and ends with a
  value.
\<close>

datatype 'a blk_prog =
    Done 'a
  | GetBlk cid "go_error + bytes \<Rightarrow> 'a blk_prog"
  | PutBlk cid bytes "go_error option \<Rightarrow> 'a blk_prog"

text \<open>What \<open>MarshalCBOR\<close> of a record writes, or its error.\<close>

type_synonym marshaler = "go_error + bytes"

text \<open>The claims of an access token, and a URL as \<open>url.Parse\<close> splits it.\<close>

record claims =
  cl_sub :: string
  cl_iat :: int
  cl_exp :: int

record url =
  url_scheme :: string
  url_host :: string
  url_hostname :: string
  url_port :: string

text \<open>A value of SQLite's \<open>json_extract\<close>; a number by its text.\<close>

datatype sql_value = SqlNull | SqlText string | SqlNumber string

text \<open>
  The fields, in order: the outcome of each statement; the wall clock, in seconds and the
  nanoseconds past it, the text of an instant in the local zone, and the entropy, both by the step at which they are read; go-cid's \<open>Cast\<close> and \<open>String\<close>; indigo's \<open>repo\<close> package (a mutating operation
  returns its outcome and the handle as it left it); atproto's P-256 keys; indigo's TID clock; the generated \<open>MarshalCBOR\<close> of an event with its
  sequence number; go-car's header; the SHA-256 digest; the raw CIDv1 of a SHA2-256 multihash of its argument; go-car's reader, as the roots of
  the header and the outcomes of \<open>Next\<close> until \<open>io.EOF\<close>; the CBOR decoder and encoder.

  Then what the API layer uses: the configured secret, Argon2id (password, salt, time, memory,
  threads, key length), AES-GCM, HMAC-SHA256, \<open>encoding/json\<close> of the claims and of the PLC
  audit log, \<open>net/url\<close>, indigo's \<open>syntax\<close> parsers (each returns the normalised name), go-cid's
  \<open>Decode\<close>, key generation and the two public forms of a key, the answer of another host to a
  request (method, URL, body), indigo's lexicon registry and decoders of records, and its
  identity directory. Last, what the AppView uses: \<open>json.Unmarshal\<close> into an \<open>any\<close> (an object is
  the list of its entries, of a repeated key the last one), and SQLite's \<open>json_extract\<close> of the
  JSON in a column and a path. And for the bridge and the Cloudflare client: the reply to a request, or the error
  of sending it or of reading the reply, and the text of an error.
\<close>

record 'r env =
  fault :: "nat \<Rightarrow> bool"
  clock :: "nat \<Rightarrow> int"
  subsec :: "nat \<Rightarrow> nat"
  rfc3339 :: "int \<Rightarrow> string"
  entropy :: "nat \<Rightarrow> nat \<Rightarrow> bytes"
  cid_cast :: "bytes \<Rightarrow> go_error + cid"
  cid_string :: "cid \<Rightarrow> string"
  ix_new :: "did \<Rightarrow> 'r"
  ix_open :: "cid \<Rightarrow> (go_error + 'r) blk_prog"
  ix_create :: "'r \<Rightarrow> int \<Rightarrow> string \<Rightarrow> marshaler \<Rightarrow> ((go_error + cid \<times> string) \<times> 'r) blk_prog"
  ix_put :: "'r \<Rightarrow> string \<Rightarrow> marshaler \<Rightarrow> ((go_error + cid) \<times> 'r) blk_prog"
  ix_delete :: "'r \<Rightarrow> string \<Rightarrow> ((go_error + unit) \<times> 'r) blk_prog"
  ix_commit :: "'r \<Rightarrow> int \<Rightarrow> (bytes \<Rightarrow> go_error + bytes) \<Rightarrow> ((go_error + cid \<times> string) \<times> 'r) blk_prog"
  ix_signed :: "'r \<Rightarrow> signed_commit"
  ix_did :: "'r \<Rightarrow> did"
  ix_entries :: "'r \<Rightarrow> (go_error + (string \<times> cid) list) blk_prog"
  p256_parse :: "bytes \<Rightarrow> go_error + bytes"
  p256_sign :: "bytes \<Rightarrow> bytes \<Rightarrow> go_error + bytes"
  tid_next :: "nat \<Rightarrow> string"
  event_body :: "int \<Rightarrow> event \<Rightarrow> go_error + bytes"
  car_header :: "cid list \<Rightarrow> go_error + bytes"
  sha256 :: "bytes \<Rightarrow> bytes"
  raw_cid :: "bytes \<Rightarrow> go_error + cid"
  car_read :: "bytes \<Rightarrow> go_error + cid list \<times> (go_error + cid \<times> bytes) list"
  cbor_decode :: "bytes \<Rightarrow> go_error + gov"
  dag_cbor :: "gov \<Rightarrow> go_error + bytes"
  secret :: string
  argon2 :: "string \<Rightarrow> bytes \<Rightarrow> nat \<Rightarrow> int \<Rightarrow> nat \<Rightarrow> nat \<Rightarrow> bytes"
  aes_seal :: "bytes \<Rightarrow> bytes \<Rightarrow> bytes \<Rightarrow> bytes"
  aes_open :: "bytes \<Rightarrow> bytes \<Rightarrow> bytes \<Rightarrow> go_error + bytes"
  hmac :: "bytes \<Rightarrow> bytes \<Rightarrow> bytes"
  claims_json :: "claims \<Rightarrow> bytes"
  claims_parse :: "bytes \<Rightarrow> go_error + claims"
  audit_log :: "bytes \<Rightarrow> go_error + string list"
  url_parse :: "string \<Rightarrow> go_error + url"
  syntax_handle :: "string \<Rightarrow> go_error + string"
  syntax_did :: "string \<Rightarrow> go_error + string"
  syntax_nsid :: "string \<Rightarrow> go_error + string"
  syntax_rkey :: "string \<Rightarrow> go_error + string"
  cid_decode :: "string \<Rightarrow> go_error + cid"
  p256_generate :: "nat \<Rightarrow> go_error + bytes"
  p256_didkey :: "bytes \<Rightarrow> go_error + string"
  p256_multibase :: "bytes \<Rightarrow> go_error + string"
  http :: "nat \<Rightarrow> string \<Rightarrow> string \<Rightarrow> bytes \<Rightarrow> go_error + nat \<times> bytes"
  type_extract :: "bytes \<Rightarrow> go_error + string"
  lex_known :: "string \<Rightarrow> bool"
  lex_decode :: "bytes \<Rightarrow> go_error + marshaler"
  atdata_parse :: "bytes \<Rightarrow> go_error + gov"
  atdata_cbor :: "gov \<Rightarrow> go_error + bytes"
  lookup_handle :: "nat \<Rightarrow> string \<Rightarrow> go_error + did"
  resolve_did :: "nat \<Rightarrow> string \<Rightarrow> go_error + bytes"
  json_read :: "bytes \<Rightarrow> go_error + json"
  json_extract :: "bytes \<Rightarrow> string \<Rightarrow> sql_value"
  http_call :: "nat \<Rightarrow> http_request \<Rightarrow> go_error + http_reply"
  error_text :: "go_error \<Rightarrow> string"

section \<open>Statements\<close>

text \<open>
  One statement against the database: it fails when the environment says so, and then
  changes nothing; otherwise it runs \<open>q\<close> on the tables. Every statement takes one step.
\<close>

definition sql :: "'r env \<Rightarrow> (database, 'a) go \<Rightarrow> ('r pds, 'a) go" where
  "sql E q s =
     (let s1 = s\<lparr>tick := Suc (tick s)\<rparr>
      in if fault E (tick s) then (Inl SqlFault, s1)
         else (case q (db s) of
                 (Inl e, d) \<Rightarrow> (Inl e, s1)
               | (Inr x, d) \<Rightarrow> (Inr x, s1\<lparr>db := d\<rparr>)))"

text \<open>\<open>QueryRow(...).Scan\<close>: \<open>sql.ErrNoRows\<close> when the query selects no row.\<close>

definition q_row :: "(database \<Rightarrow> 'a option) \<Rightarrow> (database, 'a) go" where
  "q_row f d = (case f d of None \<Rightarrow> (Inl SqlNoRows, d) | Some x \<Rightarrow> (Inr x, d))"

definition q_rows :: "(database \<Rightarrow> 'a) \<Rightarrow> (database, 'a) go" where
  "q_rows f d = (Inr (f d), d)"

definition q_exec :: "(database \<Rightarrow> database) \<Rightarrow> (database, unit) go" where
  "q_exec f d = (Inr (), f d)"

text \<open>A statement that may violate a constraint.\<close>

definition q_try :: "(database \<Rightarrow> go_error + database) \<Rightarrow> (database, unit) go" where
  "q_try f d = (case f d of Inl e \<Rightarrow> (Inl e, d) | Inr d' \<Rightarrow> (Inr (), d'))"

text \<open>\<open>time.Now()\<close>, formatted with RFC 3339.\<close>

definition time_now :: "'r env \<Rightarrow> ('r pds, int) go" where
  "time_now E s = (Inr (clock E (tick s)), s)"

text \<open>
  \<open>time.Now().After(exp)\<close> for an \<open>exp\<close> read from a text of whole seconds, \<open>rand.Read\<close>,
  which never fails (a step, so that two reads differ), and a random private key.
\<close>

definition now_after :: "'r env \<Rightarrow> int \<Rightarrow> ('r pds, bool) go" where
  "now_after E e s = (Inr (e < clock E (tick s) \<or> e = clock E (tick s) \<and> 0 < subsec E (tick s)), s)"

definition rand_read :: "'r env \<Rightarrow> nat \<Rightarrow> ('r pds, bytes) go" where
  "rand_read E n s = (Inr (entropy E (tick s) n), s\<lparr>tick := Suc (tick s)\<rparr>)"

definition generate_key :: "'r env \<Rightarrow> ('r pds, bytes) go" where
  "generate_key E s = (p256_generate E (tick s), s\<lparr>tick := Suc (tick s)\<rparr>)"

text \<open>A request to another host: a step, answered as the environment says.\<close>

definition http_do :: "'r env \<Rightarrow> string \<Rightarrow> string \<Rightarrow> bytes \<Rightarrow> ('r pds, nat \<times> bytes) go" where
  "http_do E verb u body s = (http E (tick s) verb u body, s\<lparr>tick := Suc (tick s)\<rparr>)"

definition http_send :: "'r env \<Rightarrow> http_request \<Rightarrow> ('r pds, http_reply) go" where
  "http_send E rq s = (http_call E (tick s) rq, s\<lparr>tick := Suc (tick s), outbox := outbox s @ [Called rq]\<rparr>)"

text \<open>
  \<open>BeginTx\<close> ... \<open>Commit\<close> with the deferred \<open>Rollback\<close>: when the body or the commit fails
  the tables are those of the beginning.
\<close>

definition sql_tx :: "'r env \<Rightarrow> ('r pds, 'a) go \<Rightarrow> ('r pds, 'a) go" where
  "sql_tx E body =
     go_bind (sql E (q_rows id)) (\<lambda>before s.
       case body s of
         (Inl e, s') \<Rightarrow> (Inl e, s'\<lparr>db := before\<rparr>)
       | (Inr x, s') \<Rightarrow>
           (if fault E (tick s')
            then (Inl SqlFault, s'\<lparr>tick := Suc (tick s'), db := before\<rparr>)
            else (Inr x, s'\<lparr>tick := Suc (tick s')\<rparr>)))"

text \<open>
  A call of the operating system takes a step as well, and fails by the same schedule.
\<close>

definition os_call :: "'r env \<Rightarrow> string \<Rightarrow> ('r pds, 'a) go \<Rightarrow> ('r pds, 'a) go" where
  "os_call E msg m s =
     (let s1 = s\<lparr>tick := Suc (tick s)\<rparr>
      in if fault E (tick s) then (Inl (Failure msg), s1) else m s1)"

subsection \<open>Inversion and frame rules\<close>

lemma sql_tx_cases:
  assumes "sql_tx E body s = (r, t)"
  shows "isl r \<and> db t = db s \<or>
    (\<exists>x u. r = Inr x \<and> body (s\<lparr>tick := Suc (tick s)\<rparr>) = (Inr x, u) \<and> t = u\<lparr>tick := Suc (tick u)\<rparr>)"
  using assms
  by (auto simp: sql_tx_def go_bind_def sql_def q_rows_def Let_def split: if_splits prod.splits sum.splits)

lemma keeps_sql_tx:
  assumes "keeps f body" and "\<And>s n. f (s\<lparr>tick := n\<rparr>) = f s" and "\<And>s d. f (s\<lparr>db := d\<rparr>) = f s"
  shows "keeps f (sql_tx E body)"
proof (rule keepsI)
  fix s r t
  assume run: "sql_tx E body s = (r, t)"
  let ?s = "s\<lparr>tick := Suc (tick s)\<rparr>"
  obtain x u where u: "body ?s = (x, u)" by fastforce
  then have "f u = f s" using keepsD [OF assms(1) u] assms(2) by simp
  moreover have "f (s'\<lparr>tick := n, db := d\<rparr>) = f s'" for s' n d
    using assms(2,3) by metis
  ultimately show "f t = f s"
    using run u assms(2,3)
    by (auto simp: sql_tx_def go_bind_def sql_def q_rows_def Let_def split: if_splits sum.splits)
qed

lemma os_call_Inr_iff [go_inv]:
  "os_call E msg m s = (Inr x, t) \<longleftrightarrow>
     \<not> fault E (tick s) \<and> m (s\<lparr>tick := Suc (tick s)\<rparr>) = (Inr x, t)"
  by (auto simp: os_call_def Let_def)

lemma keeps_os_call:
  "(\<And>s n. f (s\<lparr>tick := n\<rparr>) = f s) \<Longrightarrow> keeps f m \<Longrightarrow> keeps f (os_call E msg m)"
  by (auto simp: keeps_def os_call_def Let_def)

lemma q_row_iff [go_inv]:
  "q_row f d = (r, d') \<longleftrightarrow> d' = d \<and> r = (case f d of None \<Rightarrow> Inl SqlNoRows | Some x \<Rightarrow> Inr x)"
  by (auto simp: q_row_def split: option.splits)

lemma q_rows_iff [go_inv]: "q_rows f d = (r, d') \<longleftrightarrow> d' = d \<and> r = Inr (f d)"
  by (auto simp: q_rows_def)

lemma q_exec_iff [go_inv]: "q_exec f d = (r, d') \<longleftrightarrow> d' = f d \<and> r = Inr ()"
  by (auto simp: q_exec_def)

lemma q_try_Inr_iff [go_inv]: "q_try f d = (Inr x, d') \<longleftrightarrow> f d = Inr d'"
  by (auto simp: q_try_def split: sum.splits)

lemma sql_Inr_iff [go_inv]:
  "sql E q s = (Inr x, t) \<longleftrightarrow>
     \<not> fault E (tick s) \<and> (\<exists>d. q (db s) = (Inr x, d) \<and> t = s\<lparr>tick := Suc (tick s), db := d\<rparr>)"
  by (auto simp: sql_def Let_def split: prod.splits sum.splits)

lemma sql_InlD: "sql E q s = (Inl e, t) \<Longrightarrow> t = s\<lparr>tick := Suc (tick s)\<rparr>"
  by (auto simp: sql_def Let_def split: prod.splits sum.splits if_splits)

lemma sql_row_NoRows:
  "sql E (q_row g) s = (Inl SqlNoRows, t) \<longleftrightarrow>
     \<not> fault E (tick s) \<and> g (db s) = None \<and> t = s\<lparr>tick := Suc (tick s)\<rparr>"
  by (auto simp: sql_def q_row_def Let_def split: option.splits)

lemma time_now_iff [go_inv]: "time_now E s = (r, t) \<longleftrightarrow> r = Inr (clock E (tick s)) \<and> t = s"
  by (auto simp: time_now_def)

lemma now_after_iff [go_inv]:
  "now_after E e s = (r, t) \<longleftrightarrow>
     r = Inr (e < clock E (tick s) \<or> e = clock E (tick s) \<and> 0 < subsec E (tick s)) \<and> t = s"
  by (auto simp: now_after_def)

lemma rand_read_iff [go_inv]:
  "rand_read E n s = (r, t) \<longleftrightarrow> r = Inr (entropy E (tick s) n) \<and> t = s\<lparr>tick := Suc (tick s)\<rparr>"
  by (auto simp: rand_read_def)

lemma generate_key_iff [go_inv]:
  "generate_key E s = (r, t) \<longleftrightarrow> p256_generate E (tick s) = r \<and> t = s\<lparr>tick := Suc (tick s)\<rparr>"
  by (auto simp: generate_key_def)

lemma http_do_iff [go_inv]:
  "http_do E verb u body s = (r, t) \<longleftrightarrow> http E (tick s) verb u body = r \<and> t = s\<lparr>tick := Suc (tick s)\<rparr>"
  by (auto simp: http_do_def)

lemma keeps_tick_step:
  assumes "\<And>s n. f (s\<lparr>tick := n\<rparr>) = f s"
  shows "keeps f (rand_read E k)" and "keeps f (generate_key E)" and "keeps f (http_do E verb u body)"
  using assms by (simp_all add: keeps_def rand_read_def generate_key_def http_do_def)

lemma keeps_db_step [keeps_intro]:
  "keeps (\<lambda>s. g (db s)) (rand_read E k)" "keeps (\<lambda>s. g (db s)) (generate_key E)"
  "keeps (\<lambda>s. g (db s)) (http_do E verb u body)"
  by (rule keeps_tick_step; simp)+

lemma keeps_now_after [keeps_intro]: "keeps f (now_after E e)"
  by (simp add: keeps_def now_after_def)

lemma keeps_sql:
  assumes "\<And>s n. f (s\<lparr>tick := n\<rparr>) = f s"
    and "\<And>s n x d. q (db s) = (Inr x, d) \<Longrightarrow> f (s\<lparr>tick := n, db := d\<rparr>) = f s"
  shows "keeps f (sql E q)"
  using assms by (auto simp: keeps_def sql_def Let_def split: prod.splits sum.splits)

text \<open>A component outside the database is kept by every statement.\<close>

definition off_db :: "('r pds \<Rightarrow> 'x) \<Rightarrow> bool" where
  "off_db f \<longleftrightarrow> (\<forall>s n d. f (s\<lparr>tick := n\<rparr>) = f s \<and> f (s\<lparr>db := d\<rparr>) = f s)"

lemma keeps_sql_off: "off_db f \<Longrightarrow> keeps f (sql E q)"
  by (rule keeps_sql) (auto simp: off_db_def)

lemma off_db_simps [simp, intro]:
  "off_db repos" "off_db recorded" "off_db emitter" "off_db files" "off_db outbox"
  "off_db blob_root" "off_db public_url"
  by (simp_all add: off_db_def)

lemma keeps_now [keeps_intro]: "keeps f (time_now E)"
  by (simp add: keeps_def time_now_def)

text \<open>A table is kept by a query and by a statement that writes other tables.\<close>

lemma keeps_sql_rows [keeps_intro]: "keeps (\<lambda>s. g (db s)) (sql E (q_rows f))"
  and keeps_sql_row [keeps_intro]: "keeps (\<lambda>s. g (db s)) (sql E (q_row h))"
  by (rule keeps_sql; auto simp: go_inv)+

lemma keeps_sql_exec: "(\<And>d. g (f d) = g d) \<Longrightarrow> keeps (\<lambda>s. g (db s)) (sql E (q_exec f))"
  by (rule keeps_sql) (auto simp: go_inv)

lemma keeps_sql_try:
  "(\<And>d d'. f d = Inr d' \<Longrightarrow> g d' = g d) \<Longrightarrow> keeps (\<lambda>s. g (db s)) (sql E (q_try f))"
  by (rule keeps_sql) (auto simp: go_inv)

text \<open>An invariant of the tables is preserved when each statement preserves it.\<close>

lemma preserves_sql:
  assumes "\<And>x d d'. P d \<Longrightarrow> q d = (Inr x, d') \<Longrightarrow> P d'"
  shows "preserves (\<lambda>s. P (db s)) (sql E q)"
  using assms by (auto simp: preserves_def sql_def Let_def split: prod.splits sum.splits)

lemma preserves_sql_rows [preserves_intro]: "preserves (\<lambda>s. P (db s)) (sql E (q_rows f))"
  and preserves_sql_row [preserves_intro]: "preserves (\<lambda>s. P (db s)) (sql E (q_row h))"
  by (rule preserves_sql; simp add: go_inv)+

lemma preserves_os_call:
  "(\<And>s n. P s \<Longrightarrow> P (s\<lparr>tick := n\<rparr>)) \<Longrightarrow> preserves P m \<Longrightarrow> preserves P (os_call E msg m)"
  by (auto simp: preserves_def os_call_def Let_def)

lemma preserves_now [preserves_intro]: "preserves P (time_now E)"
  by (simp add: preserves_def time_now_def)

lemma preserves_db_step [preserves_intro]:
  "preserves (\<lambda>s. P (db s)) (rand_read E k)" "preserves (\<lambda>s. P (db s)) (generate_key E)"
  "preserves (\<lambda>s. P (db s)) (http_do E verb u body)" "preserves (\<lambda>s. P (db s)) (now_after E e)"
  by (simp_all add: preserves_def rand_read_def generate_key_def http_do_def now_after_def)

text \<open>Statements on an environment without failures.\<close>

definition no_faults :: "'r env \<Rightarrow> bool" where
  "no_faults E \<longleftrightarrow> (\<forall>n. \<not> fault E n)"

lemma sql_run: "no_faults E \<Longrightarrow> q (db s) = (Inr x, d) \<Longrightarrow> sql E q s = (Inr x, s\<lparr>tick := Suc (tick s), db := d\<rparr>)"
  by (simp add: no_faults_def sql_def)

end
