(* ===== verification/Crypto.thy ===== *)
theory Crypto
  imports State Json
begin

text \<open>
  \<open>internal/crypto/crypto.go\<close>, \<open>internal/db/password.go\<close> and \<open>internal/api/jwt.go\<close>: private
  keys at rest, password hashes and access tokens. Argon2id, AES-GCM, HMAC and the JSON of the
  claims are parameters; the formats around them (prefixes, separators, base64, the order of
  the checks) are the code's.
\<close>

section \<open>Box\<close>

definition box_salt :: bytes where
  "box_salt = ''pocketpds:v1''"

definition enc_key :: "'r env \<Rightarrow> bytes" where
  "enc_key E = argon2 E (secret E) box_salt 1 (64 * 1024) 4 32"

definition mac_key :: "'r env \<Rightarrow> bytes" where
  "mac_key E = argon2 E (secret E) (box_salt @ '':mac'') 1 (64 * 1024) 4 32"

text \<open>\<open>aes.NewCipher\<close> accepts keys of three lengths; \<open>cipher.NewGCM\<close> has nonces of 12 bytes.\<close>

definition new_cipher :: "bytes \<Rightarrow> go_error + bytes" where
  "new_cipher k = (if length k = 16 \<or> length k = 24 \<or> length k = 32 then Inr k
     else Inl (Lib ''crypto/aes: invalid key size''))"

definition Encrypt :: "'r env \<Rightarrow> bytes \<Rightarrow> ('r pds, string) go" where
  "Encrypt E plain_text =
     go_bind (go_of (new_cipher (enc_key E))) (\<lambda>k.
     go_bind (rand_read E 12) (\<lambda>nonce.
     go_ret (''enc:v1:'' @ b64_encode std_alphabet nonce @ '':'' @
       b64_encode std_alphabet (aes_seal E k nonce plain_text))))"

definition splitOnce :: "string \<Rightarrow> string \<Rightarrow> string \<times> string \<times> bool" where
  "splitOnce s sep = (case str_cut sep s of None \<Rightarrow> (s, [], False) | Some (a, b) \<Rightarrow> (a, b, True))"

text \<open>\<open>gcm.Open\<close> panics on a nonce of another length.\<close>

definition gcm_open :: "'r env \<Rightarrow> bytes \<Rightarrow> bytes \<Rightarrow> bytes \<Rightarrow> go_error + bytes" where
  "gcm_open E k nonce ct =
     (if length nonce \<noteq> 12 then Inl (Panic ''crypto/cipher: incorrect nonce length given to GCM'')
      else aes_open E k nonce ct)"

definition Decrypt :: "'r env \<Rightarrow> string \<Rightarrow> go_error + bytes" where
  "Decrypt E s =
     (case cut_prefix s ''enc:v1:'' of (s1, ok) \<Rightarrow>
        if \<not> ok then Inl (Failure ''not an encrypted value'')
        else case splitOnce s1 '':'' of (nonce64, ct64, found) \<Rightarrow>
          if \<not> found then Inl (Failure ''malformed encrypted value'')
          else case b64_decode std_alphabet nonce64 of
            Inl e \<Rightarrow> Inl e
          | Inr nonce \<Rightarrow>
              (case b64_decode std_alphabet ct64 of
                 Inl e \<Rightarrow> Inl e
               | Inr ct \<Rightarrow>
                   (case new_cipher (enc_key E) of
                      Inl e \<Rightarrow> Inl e
                    | Inr k \<Rightarrow> gcm_open E k nonce ct)))"

definition SecureEqual :: "bytes \<Rightarrow> bytes \<Rightarrow> bool" where
  "SecureEqual a b \<longleftrightarrow> a = b"

section \<open>Passwords\<close>

definition argon_header :: string where
  "argon_header = ''$argon2id$v=19$m=16384,t=3,p=2$''"

definition HashPassword :: "'r env \<Rightarrow> string \<Rightarrow> ('r pds, string) go" where
  "HashPassword E password =
     go_bind (rand_read E 16) (\<lambda>salt.
     go_ret (''$argon2id$v='' @ show_nat 19 @ ''$m='' @ show_nat (16 * 1024) @ '',t='' @ show_nat 3 @
       '',p='' @ show_nat 2 @ ''$'' @ b64_encode std_alphabet salt @ ''$'' @
       b64_encode std_alphabet (argon2 E password salt 3 (16 * 1024) 2 32)))"

text \<open>
  \<open>fmt.Sscanf\<close> of a literal and of \<open>%d\<close>: blanks before the number are skipped, the value must
  fit, and what follows is left for the rest of the format (a rest of the input is ignored).
\<close>

definition scan_lit :: "string \<Rightarrow> string \<Rightarrow> string option" where
  "scan_lit p s = (if has_prefix s p then Some (drop (length p) s) else None)"

definition scan_digits :: "nat \<Rightarrow> string \<Rightarrow> (nat \<times> string) option" where
  "scan_digits bound s =
     (let r = dropWhile (\<lambda>c. c = CHR '' '' \<or> c = CHR 0x09) s; ds = takeWhile is_digit r
      in if ds = [] \<or> bound \<le> digits_val ds then None else Some (digits_val ds, dropWhile is_digit r))"

text \<open>The signed \<open>%d\<close> of the version; the parameters are unsigned 32-bit.\<close>

definition scan_version :: "string \<Rightarrow> int option" where
  "scan_version s =
     (case scan_lit ''v='' s of
        None \<Rightarrow> None
      | Some r \<Rightarrow>
          (case dropWhile (\<lambda>c. c = CHR '' '' \<or> c = CHR 0x09) r of
             [] \<Rightarrow> None
           | c # q \<Rightarrow>
               let neg = (c = CHR ''-''); ds = takeWhile is_digit (if neg \<or> c = CHR ''+'' then q else c # q)
               in if ds = [] \<or> 2 ^ 63 \<le> digits_val ds then None
                  else Some (if neg then - int (digits_val ds) else int (digits_val ds))))"

definition scan_params :: "string \<Rightarrow> (nat \<times> nat \<times> nat) option" where
  "scan_params s =
     (case scan_lit ''m='' s of None \<Rightarrow> None | Some s1 \<Rightarrow>
     (case scan_digits (2 ^ 32) s1 of None \<Rightarrow> None | Some (m, s2) \<Rightarrow>
     (case scan_lit '',t='' s2 of None \<Rightarrow> None | Some s3 \<Rightarrow>
     (case scan_digits (2 ^ 32) s3 of None \<Rightarrow> None | Some (t, s4) \<Rightarrow>
     (case scan_lit '',p='' s4 of None \<Rightarrow> None | Some s5 \<Rightarrow>
     (case scan_digits (2 ^ 32) s5 of None \<Rightarrow> None | Some (p, _) \<Rightarrow> Some (m, t, p)))))))"

definition VerifyPassword :: "'r env \<Rightarrow> string \<Rightarrow> string \<Rightarrow> go_error + bool" where
  "VerifyPassword E encoded password =
     (case str_split ''$'' encoded of
        [_, p1, p2, p3, p4, p5] \<Rightarrow>
          if p1 \<noteq> ''argon2id'' then Inl (Failure ''unrecognized password hash format'')
          else case scan_version p2 of
            None \<Rightarrow> Inl (Failure ''scan version'')
          | Some v \<Rightarrow>
              if v \<noteq> 19 then Inl (Failure ''incompatible argon2 version'')
              else (case scan_params p3 of
                 None \<Rightarrow> Inl (Failure ''scan parameters'')
               | Some (m, t, p) \<Rightarrow>
                   (case b64_decode std_alphabet p4 of
                      Inl e \<Rightarrow> Inl e
                    | Inr salt \<Rightarrow>
                        (case b64_decode std_alphabet p5 of
                           Inl e \<Rightarrow> Inl e
                         | Inr want \<Rightarrow>
                             if t < 1 \<or> p mod 256 < 1 then Inl (Panic ''argon2: parameter too small'')
                             else Inr (SecureEqual (argon2 E password salt t (int m) (p mod 256)
                                    (length want mod 2 ^ 32)) want))))
      | _ \<Rightarrow> Inl (Failure ''unrecognized password hash format''))"

section \<open>Access tokens\<close>

definition jwt_header :: string where
  "jwt_header = b64_encode url_alphabet
     (''{'' @ json_string ''alg'' @ '':'' @ json_string ''HS256'' @ '','' @
      json_string ''typ'' @ '':'' @ json_string ''JWT'' @ ''}'')"

definition sign_token :: "'r env \<Rightarrow> bytes \<Rightarrow> claims \<Rightarrow> string" where
  "sign_token E key c =
     (let signingInput = jwt_header @ ''.'' @ b64_encode url_alphabet (claims_json E c)
      in signingInput @ ''.'' @ b64_encode url_alphabet (hmac E key signingInput))"

text \<open>\<open>accessTokenTTL\<close> is two hours.\<close>

definition mintAccessJWT :: "'r env \<Rightarrow> bytes \<Rightarrow> did \<Rightarrow> ('r pds, string) go" where
  "mintAccessJWT E key did =
     go_bind (time_now E) (\<lambda>now.
     go_ret (sign_token E key \<lparr>cl_sub = did, cl_iat = now, cl_exp = now + 2 * 60 * 60\<rparr>))"

definition parseAccessJWT :: "'r env \<Rightarrow> bytes \<Rightarrow> string \<Rightarrow> ('r pds, did) go" where
  "parseAccessJWT E key token =
     (case str_split ''.'' token of
        [p0, p1, p2] \<Rightarrow>
          go_bind (go_of (b64_decode url_alphabet p2)) (\<lambda>sig.
          if sig \<noteq> hmac E key (p0 @ ''.'' @ p1) then go_raise (Failure ''invalid signature'')
          else
            go_bind (go_of (b64_decode url_alphabet p1)) (\<lambda>payload.
            go_bind (go_of (claims_parse E payload)) (\<lambda>c.
            go_bind (time_now E) (\<lambda>now.
            if now > cl_exp c then go_raise (Failure ''token expired'')
            else if cl_sub c = [] then go_raise (Failure ''missing subject'')
            else go_ret (cl_sub c)))))
      | _ \<Rightarrow> go_raise (Failure ''malformed token''))"

section \<open>Properties\<close>

lemma cut_prefix_lit: "cut_prefix (p @ s) p = (s, True)"
  by (rule cut_prefix_append)

lemma splitOnce_b64:
  "splitOnce (b64_encode std_alphabet a @ '':'' @ b) '':'' = (b64_encode std_alphabet a, b, True)"
  by (simp add: splitOnce_def str_cut_char [OF b64_std_no_colon])

text \<open>A value in the stored form, under a key of a length the cipher takes.\<close>

definition boxed :: "'r env \<Rightarrow> bytes \<Rightarrow> bytes \<Rightarrow> bytes \<Rightarrow> string" where
  "boxed E k nonce m = ''enc:v1:'' @ b64_encode std_alphabet nonce @ '':'' @ b64_encode std_alphabet (aes_seal E k nonce m)"

lemma Encrypt_boxed:
  assumes "Encrypt E m s = (Inr x, t)"
  obtains k where "new_cipher (enc_key E) = Inr k" "x = boxed E k (entropy E (tick s) 12) m"
  using assms by (auto simp: Encrypt_def boxed_def go_bind_Inr_iff go_of_iff rand_read_iff go_ret_iff)

lemma Decrypt_boxed:
  assumes "new_cipher (enc_key E) = Inr k" and "aes_open E k nonce (aes_seal E k nonce m) = Inr m" and "length nonce = 12"
  shows "Decrypt E (boxed E k nonce m) = Inr m"
  unfolding boxed_def Decrypt_def cut_prefix_lit splitOnce_b64
  by (simp add: splitOnce_b64 [simplified] b64_roundtrip std_alphabet_ok assms gcm_open_def)

text \<open>C23: What \<open>Box.Encrypt\<close> returns, \<open>Box.Decrypt\<close> opens: for every plaintext and nonce, with an
  AEAD whose \<open>Open\<close> inverts its \<open>Seal\<close>, the private key comes back unchanged.\<close>

theorem Encrypt_Decrypt:
  assumes "Encrypt E m s = (Inr x, t)"
    and "\<And>k n p. aes_open E k n (aes_seal E k n p) = Inr p"
    and "\<And>n k. length (entropy E n k) = k"
  shows "Decrypt E x = Inr m"
  using assms by (auto elim!: Encrypt_boxed simp: Decrypt_boxed)

lemma b64_std_no_dollar: "CHR ''$'' \<notin> set (b64_encode std_alphabet s)"
proof -
  have "CHR ''$'' \<notin> set std_alphabet" by (simp add: std_alphabet_def)
  then show ?thesis using b64_encode_chars [OF std_alphabet_ok] by blast
qed

lemma argon_header_eq:
  "''$argon2id$v='' @ show_nat 19 @ ''$m='' @ show_nat (16 * 1024) @ '',t='' @ show_nat 3 @ '',p='' @ show_nat 2 @ ''$''
     = argon_header"
  by (simp add: argon_header_def show_nat.simps char_of_def bit_simps)

lemma split_hash:
  assumes "CHR ''$'' \<notin> set a" and "CHR ''$'' \<notin> set b"
  shows "str_split ''$'' (argon_header @ a @ ''$'' @ b) = [[], ''argon2id'', ''v=19'', ''m=16384,t=3,p=2'', a, b]"
proof -
  let ?xs = "[[], ''argon2id'', ''v=19'', ''m=16384,t=3,p=2'', a, b]"
  have "str_split ''$'' (str_join ''$'' ?xs) = ?xs" using assms by (intro str_split_join) auto
  then show ?thesis by (simp add: argon_header_def)
qed

lemma scan_params_header: "scan_params ''m=16384,t=3,p=2'' = Some (16384, 3, 2)" "scan_version ''v=19'' = Some 19"
  by (simp_all add: scan_params_def scan_version_def scan_lit_def scan_digits_def has_prefix_def is_digit_def
      digits_val_def digit_val_def Let_def)

lemma VerifyPassword_hash:
  assumes "HashPassword E p s = (Inr x, t)"
    and "\<And>q n. length (argon2 E q n 3 (16 * 1024) 2 32) = 32"
  shows "VerifyPassword E x q =
    Inr (argon2 E q (entropy E (tick s) 16) 3 (16 * 1024) 2 32 = argon2 E p (entropy E (tick s) 16) 3 (16 * 1024) 2 32)"
proof -
  let ?salt = "entropy E (tick s) 16"
  let ?h = "argon2 E p ?salt 3 (16 * 1024) 2 32"
  have x: "x = argon_header @ b64_encode std_alphabet ?salt @ ''$'' @ b64_encode std_alphabet ?h"
    using assms(1) argon_header_eq by (simp add: HashPassword_def go_inv)
  show ?thesis
    unfolding x VerifyPassword_def split_hash [OF b64_std_no_dollar b64_std_no_dollar]
    using assms(2) [of p ?salt]
    by (simp add: scan_params_header b64_roundtrip std_alphabet_ok SecureEqual_def)
qed

text \<open>A stored hash accepts exactly the passwords that Argon2id maps to it: checking any candidate
  against the result of \<open>HashPassword\<close> compares the two digests under the salt and the
  parameters the hash was made with; in particular the password itself is accepted.\<close>

theorem HashPassword_VerifyPassword:
  assumes "HashPassword E p s = (Inr x, t)"
    and "\<And>q n. length (argon2 E q n 3 (16 * 1024) 2 32) = 32"
  shows "VerifyPassword E x q =
    Inr (argon2 E q (entropy E (tick s) 16) 3 (16 * 1024) 2 32 = argon2 E p (entropy E (tick s) 16) 3 (16 * 1024) 2 32)"
  using assms by (rule VerifyPassword_hash)

lemma split_token:
  assumes "CHR ''.'' \<notin> set a" and "CHR ''.'' \<notin> set b" and "CHR ''.'' \<notin> set c"
  shows "str_split ''.'' ((a @ ''.'' @ b) @ ''.'' @ c) = [a, b, c]"
proof -
  have "str_split ''.'' (str_join ''.'' [a, b, c]) = [a, b, c]" using assms by (intro str_split_join) auto
  then show ?thesis by simp
qed

lemma parse_signed:
  assumes "claims_parse E (claims_json E c) = Inr c'" and "cl_sub c' \<noteq> []"
  shows "parseAccessJWT E key (sign_token E key c) u =
    (if clock E (tick u) > cl_exp c' then Inl (Failure ''token expired'') else Inr (cl_sub c'), u)"
proof -
  have h: "CHR ''.'' \<notin> set jwt_header" by (simp add: jwt_header_def b64_url_no_dot)
  show ?thesis
    unfolding sign_token_def Let_def parseAccessJWT_def split_token [OF h b64_url_no_dot b64_url_no_dot]
    using assms by (simp add: b64_roundtrip url_alphabet_ok go_defs time_now_def)
qed

text \<open>C24: An access token names the account it was minted for until two hours have passed, and is
  refused afterwards: parsing what \<open>mintAccessJWT\<close> returned, at any later state, gives the
  DID or "token expired", and changes nothing.\<close>

theorem mint_parse:
  assumes "mintAccessJWT E key did s = (Inr tok, s')"
    and "claims_parse E (claims_json E \<lparr>cl_sub = did, cl_iat = clock E (tick s), cl_exp = clock E (tick s) + 7200\<rparr>) =
      Inr \<lparr>cl_sub = did, cl_iat = clock E (tick s), cl_exp = clock E (tick s) + 7200\<rparr>"
    and "did \<noteq> []"
  shows "parseAccessJWT E key tok u =
    (if clock E (tick u) > clock E (tick s) + 7200 then Inl (Failure ''token expired'') else Inr did, u)"
proof -
  have "tok = sign_token E key \<lparr>cl_sub = did, cl_iat = clock E (tick s), cl_exp = clock E (tick s) + 7200\<rparr>"
    using assms(1) by (simp add: mintAccessJWT_def go_inv)
  with parse_signed [OF assms(2)] assms(3) show ?thesis by simp
qed

lemma parseAccessJWT_InrD:
  assumes "parseAccessJWT E key tok u = (Inr did, t)"
  obtains p0 p1 p2 payload c where
    "str_split ''.'' tok = [p0, p1, p2]" "b64_decode url_alphabet p2 = Inr (hmac E key (p0 @ ''.'' @ p1))"
    "b64_decode url_alphabet p1 = Inr payload" "claims_parse E payload = Inr c"
    "clock E (tick u) \<le> cl_exp c" "did = cl_sub c" "did \<noteq> []" "t = u"
  using assms by (auto simp: parseAccessJWT_def go_inv split: list.splits if_splits)

lemma keeps_parseAccessJWT [keeps_intro]: "keeps f (parseAccessJWT E key tok)"
proof (rule keepsI)
  fix s r t
  assume "parseAccessJWT E key tok s = (r, t)"
  then have "t = s"
    by (cases r) (auto simp: parseAccessJWT_def go_inv split: list.splits if_splits)
  then show "f t = f s" by simp
qed

lemma parseAccessJWT_state: "snd (parseAccessJWT E key tok s) = s"
  using keepsD [OF keeps_parseAccessJWT [of id], of E key tok s] by (metis id_apply prod.collapse)

end
