(* ===== verification/Http.thy ===== *)
theory Http
  imports Crypto
begin

text \<open>
  \<open>internal/xrpc/xrpc.go\<close> and what a handler of \<open>net/http\<close> is here: a function of the request
  that runs on the state and ends with a response. It is the monad of the other operations
  with \<open>response\<close> as its value; the error branch is left for a panic, after which \<open>net/http\<close>
  sends no response. A request body is passed to a handler as the outcome of decoding it.
\<close>

section \<open>Requests and responses\<close>

record request =
  rq_method :: string
  rq_host :: string
  rq_path :: string
  rq_remote :: string
  rq_header :: "string \<Rightarrow> string"
  rq_query :: "string \<Rightarrow> string list"
  rq_raw_query :: string
  rq_cookie :: "string \<Rightarrow> string option"

text \<open>\<open>r.URL.Query().Get\<close>.\<close>

definition query_get :: "request \<Rightarrow> string \<Rightarrow> string" where
  "query_get rq k = (case rq_query rq k of [] \<Rightarrow> [] | x # _ \<Rightarrow> x)"

text \<open>A message is a literal of the code or \<open>err.Error()\<close>.\<close>

datatype message_text =
    Text string
  | ErrText go_error
  | PrefixText string go_error

text \<open>A JSON reply, an XRPC error, \<open>http.Error\<close>, and any other content with its type.\<close>

datatype response =
    Json json
  | XrpcError nat string message_text
  | PlainError nat message_text
  | Content nat string bytes

type_synonym 'r handler = "('r pds, response) go"

definition WriteJSON :: "json \<Rightarrow> 'r handler" where
  "WriteJSON v = go_ret (Json v)"

definition WriteXRPCError :: "nat \<Rightarrow> string \<Rightarrow> message_text \<Rightarrow> 'r handler" where
  "WriteXRPCError status err msg = go_ret (XrpcError status err msg)"

definition HttpError :: "nat \<Rightarrow> message_text \<Rightarrow> 'r handler" where
  "HttpError status msg = go_ret (PlainError status msg)"

section \<open>Errors of a step\<close>

definition panics :: "go_error \<Rightarrow> bool" where
  "panics e \<longleftrightarrow> (case root_cause e of Panic _ \<Rightarrow> True | _ \<Rightarrow> False)"

text \<open>
  \<open>x, err := m; if err != nil { write a response; return }\<close>, then the rest of the handler. A
  panic in \<open>m\<close> leaves the handler.
\<close>

definition on_error :: "('s, 'a) go \<Rightarrow> (go_error \<Rightarrow> response) \<Rightarrow> ('a \<Rightarrow> ('s, response) go) \<Rightarrow> ('s, response) go" where
  "on_error m f k s =
     (case m s of
        (Inl e, t) \<Rightarrow> if panics e then (Inl e, t) else (Inr (f e), t)
      | (Inr x, t) \<Rightarrow> k x t)"

text \<open>\<open>_ = m\<close> or \<open>_, _ = m\<close>: the error is dropped.\<close>

definition ignoring :: "('s, 'a) go \<Rightarrow> ('s, unit) go" where
  "ignoring m s = (case m s of (r, t) \<Rightarrow> (Inr (), t))"

text \<open>\<open>_ = row.Scan(&x)\<close>: on an error \<open>x\<close> keeps its zero value.\<close>

definition scan_or :: "'a \<Rightarrow> ('s, 'a) go \<Rightarrow> ('s, 'a) go" where
  "scan_or z m s = (case m s of (Inl e, t) \<Rightarrow> (Inr z, t) | (Inr x, t) \<Rightarrow> (Inr x, t))"

definition internal_error :: "go_error \<Rightarrow> response" where
  "internal_error e = XrpcError 500 ''InternalError'' (ErrText e)"

definition invalid_request :: "go_error \<Rightarrow> response" where
  "invalid_request e = XrpcError 400 ''InvalidRequest'' (ErrText e)"

definition DecodeBody :: "go_error + 'a \<Rightarrow> ('a \<Rightarrow> 'r handler) \<Rightarrow> 'r handler" where
  "DecodeBody body k = on_error (go_of body) invalid_request k"

text \<open>
  The \<open>limit\<close> parameter of a paged endpoint: a default, or a number of the range; any other
  text is a bad request (\<open>limit_strict\<close>) or ignored (\<open>limit_lax\<close>).
\<close>

definition limit_strict :: "nat \<Rightarrow> nat \<Rightarrow> string \<Rightarrow> request \<Rightarrow> (nat \<Rightarrow> 'r handler) \<Rightarrow> 'r handler" where
  "limit_strict def most msg rq k =
     (let raw = query_get rq ''limit'' in
      if raw = [] then k def
      else case parse_int64 raw of
        Inl e \<Rightarrow> WriteXRPCError 400 ''InvalidRequest'' (Text msg)
      | Inr n \<Rightarrow> if n < 1 \<or> n > int most then WriteXRPCError 400 ''InvalidRequest'' (Text msg) else k (nat n))"

definition limit_lax :: "nat \<Rightarrow> nat \<Rightarrow> request \<Rightarrow> nat" where
  "limit_lax def most rq =
     (let raw = query_get rq ''limit'' in
      if raw = [] then def
      else case parse_int64 raw of
        Inl e \<Rightarrow> def
      | Inr n \<Rightarrow> if n \<ge> 1 \<and> n \<le> int most then nat n else def)"

subsection \<open>Rules\<close>

lemma on_error_Inr_iff [go_inv]:
  "on_error m f k s = (Inr y, t) \<longleftrightarrow>
     (\<exists>x u. m s = (Inr x, u) \<and> k x u = (Inr y, t)) \<or> (\<exists>e. m s = (Inl e, t) \<and> \<not> panics e \<and> y = f e)"
  by (auto simp: on_error_def split: prod.splits sum.splits)

text \<open>A response that the error branch does not write comes from the rest of the handler.\<close>

lemma on_error_Json:
  "(\<And>e. f e \<noteq> y) \<Longrightarrow> on_error m f k s = (Inr y, t) \<longleftrightarrow> (\<exists>x u. m s = (Inr x, u) \<and> k x u = (Inr y, t))"
  by (auto simp: on_error_def split: prod.splits sum.splits)

lemma ignoring_iff [go_inv]: "ignoring m s = (Inr x, t) \<longleftrightarrow> snd (m s) = t"
  by (auto simp: ignoring_def split: prod.splits)

lemma ignoring_not_Inl [simp]: "ignoring m s \<noteq> (Inl e, t)"
  by (auto simp: ignoring_def split: prod.splits)

lemma scan_or_iff [go_inv]:
  "scan_or z m s = (Inr x, t) \<longleftrightarrow> m s = (Inr x, t) \<or> (x = z \<and> (\<exists>e. m s = (Inl e, t)))"
  by (auto simp: scan_or_def split: prod.splits sum.splits)

lemma WriteJSON_iff [go_inv]: "WriteJSON v s = (r, t) \<longleftrightarrow> r = Inr (Json v) \<and> t = s"
  by (auto simp: WriteJSON_def go_inv)

lemma WriteXRPCError_iff [go_inv]:
  "WriteXRPCError n x m s = (r, t) \<longleftrightarrow> r = Inr (XrpcError n x m) \<and> t = s"
  by (auto simp: WriteXRPCError_def go_inv)

lemma HttpError_iff [go_inv]: "HttpError n m s = (r, t) \<longleftrightarrow> r = Inr (PlainError n m) \<and> t = s"
  by (auto simp: HttpError_def go_inv)

lemma error_responses [simp]:
  "internal_error e \<noteq> Json v" "invalid_request e \<noteq> Json v" "Json v \<noteq> internal_error e" "Json v \<noteq> invalid_request e"
  by (simp_all add: internal_error_def invalid_request_def)

lemma keeps_on_error [keeps_intro]:
  "keeps f m \<Longrightarrow> (\<And>x. keeps f (k x)) \<Longrightarrow> keeps f (on_error m g k)"
  by (auto simp: keeps_def on_error_def split: prod.splits sum.splits) (metis snd_conv)+

lemma keeps_ignoring [keeps_intro]: "keeps f m \<Longrightarrow> keeps f (ignoring m)"
  by (auto simp: keeps_def ignoring_def split: prod.splits) (metis snd_conv)+

lemma keeps_scan_or [keeps_intro]: "keeps f m \<Longrightarrow> keeps f (scan_or z m)"
  by (auto simp: keeps_def scan_or_def split: prod.splits sum.splits) (metis snd_conv)+

lemma keeps_write [keeps_intro]:
  "keeps f (WriteJSON v)" "keeps f (WriteXRPCError n x m)" "keeps f (HttpError n m)"
  by (simp_all add: keeps_def WriteJSON_def WriteXRPCError_def HttpError_def go_defs)

lemma keeps_DecodeBody [keeps_intro]: "(\<And>x. keeps f (k x)) \<Longrightarrow> keeps f (DecodeBody b k)"
  unfolding DecodeBody_def by (intro keeps_intro)

lemma keeps_limit_strict [keeps_intro]: "(\<And>n. keeps f (k n)) \<Longrightarrow> keeps f (limit_strict d m x rq k)"
  by (auto simp: limit_strict_def Let_def intro!: keeps_intro)

lemma preserves_on_error [preserves_intro]:
  assumes "preserves P m" and "\<And>x. preserves P (k x)"
  shows "preserves P (on_error m g k)"
proof (rule preservesI)
  fix s r t
  assume P: "P s" and run: "on_error m g k s = (r, t)"
  obtain a u where a: "m s = (a, u)" by fastforce
  with assms(1) P have "P u" by (blast dest: preservesD)
  with run a show "P t"
    by (cases a) (auto simp: on_error_def split: if_splits dest: preservesD [OF assms(2)])
qed

lemma preserves_ignoring [preserves_intro]: "preserves P m \<Longrightarrow> preserves P (ignoring m)"
  by (rule preservesI) (auto simp: ignoring_def split: prod.splits dest: preservesD)

lemma preserves_scan_or [preserves_intro]: "preserves P m \<Longrightarrow> preserves P (scan_or z m)"
  by (rule preservesI) (auto simp: scan_or_def split: prod.splits sum.splits dest: preservesD)

lemma preserves_write [preserves_intro]:
  "preserves P (WriteJSON v)" "preserves P (WriteXRPCError n x m)" "preserves P (HttpError n m)"
  by (simp_all add: preserves_def WriteJSON_def WriteXRPCError_def HttpError_def go_defs)

lemma preserves_DecodeBody [preserves_intro]:
  "(\<And>x. preserves P (k x)) \<Longrightarrow> preserves P (DecodeBody b k)"
  unfolding DecodeBody_def by (intro preserves_intro)

lemma limit_strict_range:
  assumes "limit_strict d most msg rq k s = (Inr (Json v), t)" and "1 \<le> d" and "d \<le> most"
  obtains n where "1 \<le> n" "n \<le> most" "k n s = (Inr (Json v), t)"
proof -
  have "k d s = (Inr (Json v), t) \<or>
      (\<exists>i. 1 \<le> i \<and> i \<le> int most \<and> k (nat i) s = (Inr (Json v), t))"
    using assms(1) by (auto simp: limit_strict_def Let_def go_inv not_less split: if_splits sum.splits)
  then show thesis
  proof
    assume "k d s = (Inr (Json v), t)"
    with assms(2,3) that show thesis by blast
  next
    assume "\<exists>i. 1 \<le> i \<and> i \<le> int most \<and> k (nat i) s = (Inr (Json v), t)"
    then obtain i where "1 \<le> i" "i \<le> int most" "k (nat i) s = (Inr (Json v), t)" by blast
    then show thesis using that [of "nat i"] by (simp add: le_nat_iff nat_le_iff)
  qed
qed

lemma limit_lax_range: "1 \<le> d \<Longrightarrow> d \<le> most \<Longrightarrow> 1 \<le> limit_lax d most rq \<and> limit_lax d most rq \<le> most"
  by (auto simp: limit_lax_def Let_def split: sum.splits)

section \<open>Writers\<close>

text \<open>
  A handler streams when its writer implements \<open>http.Flusher\<close>. The writer of \<open>net/http\<close> does;
  \<open>statusRecorder\<close> (\<open>internal/server/server.go\<close>) embeds the interface \<open>http.ResponseWriter\<close>, whose
  methods are \<open>Header\<close>, \<open>Write\<close> and \<open>WriteHeader\<close>, and adds none. \<open>Server.Handler\<close> runs every route
  under \<open>logUnhandled\<close>, which passes on a \<open>statusRecorder\<close>.
\<close>

datatype response_writer = NetWriter | StatusRecorder response_writer

primrec flusher :: "response_writer \<Rightarrow> bool" where
  "flusher NetWriter = True"
| "flusher (StatusRecorder w) = False"

definition logUnhandled :: "(response_writer \<Rightarrow> 'h) \<Rightarrow> response_writer \<Rightarrow> 'h" where
  "logUnhandled next w = next (StatusRecorder w)"

end
