(* ===== verification/Config.thy ===== *)
theory Config
  imports Http Tables
begin

text \<open>
  \<open>internal/config/config.go\<close>, \<open>internal/config/settings.go\<close>, \<open>internal/db/settings.go\<close> and
  \<open>internal/admin/api_settings.go\<close>: the configuration from the environment, the persisted
  settings laid over it at boot, and the two endpoints that read and write them. A Go map is
  the list of its entries in the order an iteration happens to visit them.
\<close>

section \<open>The environment\<close>

record config =
  ListenAddr :: string
  DatabasePath :: string
  DataDir :: string
  ServiceDID :: string
  PublicURL :: string
  Secret :: string
  PlcURL :: string
  DIDMethod :: string
  InviteRequired :: bool
  AdminToken :: string
  TrustProxy :: bool
  BlobSizeLimit :: int
  AppviewProxyURL :: string
  SMTPHost :: string
  SMTPPort :: string
  SMTPUser :: string
  SMTPPass :: string
  SMTPFrom :: string

type_synonym os_env = "string \<Rightarrow> string option"

definition os_Getenv :: "os_env \<Rightarrow> string \<Rightarrow> string" where
  "os_Getenv env key = (case env key of None \<Rightarrow> [] | Some v \<Rightarrow> v)"

definition getenv :: "os_env \<Rightarrow> string \<Rightarrow> string \<Rightarrow> string" where
  "getenv env key def = (if os_Getenv env key \<noteq> [] then os_Getenv env key else def)"

definition appviewProxyFromEnv :: "os_env \<Rightarrow> string" where
  "appviewProxyFromEnv env =
     (case env ''POCKETPDS_APPVIEW_PROXY'' of Some v \<Rightarrow> v | None \<Rightarrow> ''https://public.api.bsky.app'')"

definition getenvInt64 :: "os_env \<Rightarrow> string \<Rightarrow> int \<Rightarrow> int" where
  "getenvInt64 env key def =
     (let v = os_Getenv env key in
      if v = [] then def
      else case parse_int64 v of Inl e \<Rightarrow> def | Inr n \<Rightarrow> if n < 0 then def else n)"

definition defaultBlobSizeLimit :: int where
  "defaultBlobSizeLimit = 5 * 1024 * 1024"

definition FromEnv :: "os_env \<Rightarrow> config" where
  "FromEnv env = \<lparr>
     ListenAddr = getenv env ''POCKETPDS_LISTEN'' ''127.0.0.1:3000'',
     DatabasePath = getenv env ''POCKETPDS_DB'' ''pocketpds.db'',
     DataDir = getenv env ''POCKETPDS_DATA_DIR'' ''./data'',
     ServiceDID = os_Getenv env ''POCKETPDS_SERVICE_DID'',
     PublicURL = getenv env ''POCKETPDS_PUBLIC_URL'' ''http://127.0.0.1:3000'',
     Secret = os_Getenv env ''POCKETPDS_SECRET'',
     PlcURL = getenv env ''POCKETPDS_PLC_URL'' ''https://plc.directory'',
     DIDMethod = getenv env ''POCKETPDS_DID_METHOD'' ''web'',
     InviteRequired = (os_Getenv env ''POCKETPDS_INVITE_REQUIRED'' = ''true''),
     AdminToken = os_Getenv env ''POCKETPDS_ADMIN_TOKEN'',
     TrustProxy = (os_Getenv env ''POCKETPDS_TRUST_PROXY'' = ''true''),
     BlobSizeLimit = getenvInt64 env ''POCKETPDS_BLOB_SIZE_LIMIT'' defaultBlobSizeLimit,
     AppviewProxyURL = appviewProxyFromEnv env,
     SMTPHost = os_Getenv env ''POCKETPDS_SMTP_HOST'',
     SMTPPort = getenv env ''POCKETPDS_SMTP_PORT'' ''587'',
     SMTPUser = os_Getenv env ''POCKETPDS_SMTP_USER'',
     SMTPPass = os_Getenv env ''POCKETPDS_SMTP_PASS'',
     SMTPFrom = getenv env ''POCKETPDS_SMTP_FROM'' []\<rparr>"

definition EffectiveServiceDID :: "'r env \<Rightarrow> config \<Rightarrow> string" where
  "EffectiveServiceDID E c =
     (if ServiceDID c \<noteq> [] then ServiceDID c
      else if DIDMethod c \<noteq> ''web'' then []
      else case url_parse E (PublicURL c) of
        Inl e \<Rightarrow> []
      | Inr u \<Rightarrow>
          if url_hostname u = [] then []
          else
            let port = url_port u;
                def = (if url_scheme u = ''http'' then ''80'' else ''443'');
                host = (if port \<noteq> [] \<and> port \<noteq> def then url_hostname u @ ''%3A'' @ port else url_hostname u)
            in ''did:web:'' @ host)"

section \<open>Persisted settings\<close>

abbreviation "SettingPublicURL \<equiv> ''public_url''"
abbreviation "SettingServiceDID \<equiv> ''service_did''"
abbreviation "SettingDIDMethod \<equiv> ''did_method''"
abbreviation "SettingInviteRequired \<equiv> ''invite_required''"
abbreviation "SettingAdminToken \<equiv> ''admin_token''"
abbreviation "SettingSMTPHost \<equiv> ''smtp_host''"
abbreviation "SettingSMTPPort \<equiv> ''smtp_port''"
abbreviation "SettingSMTPUser \<equiv> ''smtp_user''"
abbreviation "SettingSMTPPass \<equiv> ''smtp_pass''"
abbreviation "SettingSMTPFrom \<equiv> ''smtp_from''"

definition apply_setting :: "string \<times> string \<Rightarrow> config \<Rightarrow> config" where
  "apply_setting kv c =
     (case kv of (k, v) \<Rightarrow>
        if k = SettingPublicURL then (if v \<noteq> [] then c\<lparr>PublicURL := v\<rparr> else c)
        else if k = SettingServiceDID then c\<lparr>ServiceDID := v\<rparr>
        else if k = SettingDIDMethod then (if v = ''web'' \<or> v = ''plc'' then c\<lparr>DIDMethod := v\<rparr> else c)
        else if k = SettingInviteRequired then c\<lparr>InviteRequired := (v = ''true'')\<rparr>
        else if k = SettingAdminToken then c\<lparr>AdminToken := v\<rparr>
        else if k = SettingSMTPHost then c\<lparr>SMTPHost := v\<rparr>
        else if k = SettingSMTPPort then (if v \<noteq> [] then c\<lparr>SMTPPort := v\<rparr> else c)
        else if k = SettingSMTPUser then c\<lparr>SMTPUser := v\<rparr>
        else if k = SettingSMTPPass then c\<lparr>SMTPPass := v\<rparr>
        else if k = SettingSMTPFrom then c\<lparr>SMTPFrom := v\<rparr>
        else c)"

definition ApplySettings :: "(string \<times> string) list \<Rightarrow> config \<Rightarrow> config" where
  "ApplySettings overrides c = fold apply_setting overrides c"

definition ValidateSetting :: "'r env \<Rightarrow> string \<Rightarrow> string \<Rightarrow> go_error + unit" where
  "ValidateSetting E key v =
     (if key = SettingPublicURL then
        (case url_parse E v of
           Inl e \<Rightarrow> Inl (Failure ''public_url must be a valid URL'')
         | Inr u \<Rightarrow>
             if url_host u = [] then Inl (Failure ''public_url must be a valid URL'')
             else if url_scheme u \<noteq> ''http'' \<and> url_scheme u \<noteq> ''https''
             then Inl (Failure ''public_url must use http or https'')
             else Inr ())
      else if key = SettingServiceDID then
        (if v \<noteq> [] \<and> \<not> has_prefix v ''did:'' then Inl (Failure ''service_did must be a DID or empty'') else Inr ())
      else if key = SettingDIDMethod then
        (if v \<noteq> ''web'' \<and> v \<noteq> ''plc'' then Inl (Failure ''did_method must be web or plc'') else Inr ())
      else if key = SettingInviteRequired then
        (if v \<noteq> ''true'' \<and> v \<noteq> ''false'' then Inl (Failure ''invite_required must be true or false'') else Inr ())
      else if key \<in> {SettingAdminToken, SettingSMTPHost, SettingSMTPUser, SettingSMTPPass, SettingSMTPFrom}
      then Inr ()
      else if key = SettingSMTPPort then
        (if v = [] then Inr ()
         else case parse_int64 v of Inl e \<Rightarrow> Inl (Failure ''smtp_port must be a number'') | Inr n \<Rightarrow> Inr ())
      else Inl (Failure ''unknown setting''))"

definition LoadSettings :: "'r env \<Rightarrow> ('r pds, (string \<times> string) list) go" where
  "LoadSettings E = sql E (q_rows settings)"

definition SetSetting :: "'r env \<Rightarrow> string \<Rightarrow> string \<Rightarrow> ('r pds, unit) go" where
  "SetSetting E key v = sql E (q_exec (\<lambda>d. d\<lparr>settings := tbl_upsert fst (key, v) (settings d)\<rparr>))"

section \<open>The settings endpoints\<close>

record settings_payload =
  sp_public_url :: string
  sp_service_did :: string
  sp_did_method :: string
  sp_invite_required :: bool
  sp_admin_token :: string
  sp_smtp_host :: string
  sp_smtp_port :: string
  sp_smtp_user :: string
  sp_smtp_pass :: string
  sp_smtp_from :: string

definition format_bool :: "bool \<Rightarrow> string" where
  "format_bool b = (if b then ''true'' else ''false'')"

definition toMap :: "settings_payload \<Rightarrow> (string \<times> string) list" where
  "toMap p =
     [(SettingPublicURL, sp_public_url p), (SettingServiceDID, sp_service_did p),
      (SettingDIDMethod, sp_did_method p), (SettingInviteRequired, format_bool (sp_invite_required p)),
      (SettingAdminToken, sp_admin_token p), (SettingSMTPHost, sp_smtp_host p),
      (SettingSMTPPort, sp_smtp_port p), (SettingSMTPUser, sp_smtp_user p),
      (SettingSMTPPass, sp_smtp_pass p), (SettingSMTPFrom, sp_smtp_from p)]"

definition settingsFromConfig :: "config \<Rightarrow> settings_payload" where
  "settingsFromConfig c = \<lparr>
     sp_public_url = PublicURL c, sp_service_did = ServiceDID c, sp_did_method = DIDMethod c,
     sp_invite_required = InviteRequired c, sp_admin_token = AdminToken c, sp_smtp_host = SMTPHost c,
     sp_smtp_port = SMTPPort c, sp_smtp_user = SMTPUser c, sp_smtp_pass = SMTPPass c, sp_smtp_from = SMTPFrom c\<rparr>"

definition settingsFromMap :: "(string \<times> string) list \<Rightarrow> settings_payload \<Rightarrow> settings_payload \<times> bool" where
  "settingsFromMap m fallback =
     (let get = (\<lambda>k d. case map_of m k of None \<Rightarrow> d | Some v \<Rightarrow> v) in
      if m = [] then (\<lparr>sp_public_url = [], sp_service_did = [], sp_did_method = [], sp_invite_required = False,
        sp_admin_token = [], sp_smtp_host = [], sp_smtp_port = [], sp_smtp_user = [], sp_smtp_pass = [],
        sp_smtp_from = []\<rparr>, False)
      else (\<lparr>
        sp_public_url = get SettingPublicURL (sp_public_url fallback),
        sp_service_did = get SettingServiceDID (sp_service_did fallback),
        sp_did_method = get SettingDIDMethod (sp_did_method fallback),
        sp_invite_required =
          (case map_of m SettingInviteRequired of None \<Rightarrow> sp_invite_required fallback | Some v \<Rightarrow> v = ''true''),
        sp_admin_token = get SettingAdminToken (sp_admin_token fallback),
        sp_smtp_host = get SettingSMTPHost (sp_smtp_host fallback),
        sp_smtp_port = get SettingSMTPPort (sp_smtp_port fallback),
        sp_smtp_user = get SettingSMTPUser (sp_smtp_user fallback),
        sp_smtp_pass = get SettingSMTPPass (sp_smtp_pass fallback),
        sp_smtp_from = get SettingSMTPFrom (sp_smtp_from fallback)\<rparr>, True))"

text \<open>A missing key of a Go map reads as the empty string.\<close>

definition settingsEqual :: "(string \<times> string) list \<Rightarrow> settings_payload \<Rightarrow> bool" where
  "settingsEqual persisted effective \<longleftrightarrow>
     list_all (\<lambda>(k, v). (case map_of (toMap effective) k of None \<Rightarrow> [] | Some w \<Rightarrow> w) = v) persisted"

definition payload_json :: "settings_payload \<Rightarrow> json" where
  "payload_json p = JStruct
     [(''publicUrl'', JStr (sp_public_url p)), (''serviceDid'', JStr (sp_service_did p)),
      (''didMethod'', JStr (sp_did_method p)), (''inviteRequired'', jbool (sp_invite_required p)),
      (''adminToken'', JStr (sp_admin_token p)), (''smtpHost'', JStr (sp_smtp_host p)),
      (''smtpPort'', JStr (sp_smtp_port p)), (''smtpUser'', JStr (sp_smtp_user p)),
      (''smtpPass'', JStr (sp_smtp_pass p)), (''smtpFrom'', JStr (sp_smtp_from p))]"

definition plain_error :: "nat \<Rightarrow> go_error \<Rightarrow> response" where
  "plain_error status e = PlainError status (ErrText e)"

definition settingsGet :: "'r env \<Rightarrow> config \<Rightarrow> 'r handler" where
  "settingsGet E cfg =
     on_error (LoadSettings E) (plain_error 500) (\<lambda>persisted.
       let effective = settingsFromConfig cfg;
           view = (case settingsFromMap persisted effective of (p, ok) \<Rightarrow> if ok then p else effective)
       in go_bind (scan_or 0 (sql E (q_rows (\<lambda>d. length (accounts d))))) (\<lambda>accountCount.
          WriteJSON (JObj
            [(''settings'', payload_json view), (''secretSet'', jbool (Secret cfg \<noteq> [])),
             (''accountsExist'', jbool (accountCount > 0)),
             (''restartRequired'', jbool (\<not> settingsEqual persisted effective))])))"

text \<open>The first loop returns at a setting that does not validate, the second stores them all.\<close>

fun validate_all :: "'r env \<Rightarrow> (string \<times> string) list \<Rightarrow> go_error + unit" where
  "validate_all E [] = Inr ()"
| "validate_all E ((k, v) # kvs) =
     (case ValidateSetting E k v of Inl e \<Rightarrow> Inl e | Inr _ \<Rightarrow> validate_all E kvs)"

definition settingsPut ::
  "'r env \<Rightarrow> ((string \<times> string) list \<Rightarrow> (string \<times> string) list) \<Rightarrow> go_error + settings_payload \<Rightarrow> 'r handler" where
  "settingsPut E visit body =
     DecodeBody body (\<lambda>p.
       let pairs = visit (toMap p) in
       on_error (go_of (validate_all E pairs)) (plain_error 400) (\<lambda>_.
       on_error (go_foreach (\<lambda>(k, v). SetSetting E k v) pairs) (plain_error 500) (\<lambda>_.
       WriteJSON (JObj [(''ok'', jbool True), (''restartRequired'', jbool True)]))))"

text \<open>
  \<open>restart\<close>: the reply goes out first; the goroutine then stops the tunnel, when there is one, and
  replaces the process by \<open>os.Executable\<close>, if that can be found. What the new process does first
  is \<open>serve_start\<close> in \<open>Command\<close>.
\<close>

definition settings_restart :: "'r env \<Rightarrow> bool \<Rightarrow> 'r handler" where
  "settings_restart E tunnelled =
     go_bind (if tunnelled then go_modify (\<lambda>s. s\<lparr>outbox := outbox s @ [TunnelStop]\<rparr>) else go_ret ()) (\<lambda>_.
     go_bind (ignoring (os_call E ''executable'' (go_modify (\<lambda>s. s\<lparr>outbox := outbox s @ [Reexec]\<rparr>)))) (\<lambda>_.
     WriteJSON (JObj [(''ok'', jbool True)])))"

text \<open>The configuration of the next start: the environment, then the persisted settings.\<close>

definition boot_config :: "os_env \<Rightarrow> database \<Rightarrow> config" where
  "boot_config env d = ApplySettings (settings d) (FromEnv env)"

section \<open>A map as its entries\<close>

text \<open>
  A field that one key sets: after the overlay it is what the map holds at that key, whatever
  order the entries are visited in.
\<close>

lemma fold_setting_field:
  assumes "\<And>k v c. F (apply_setting (k, v) c) = (if k = K then g v (F c) else F c)"
    and "distinct (map fst m)"
  shows "F (fold apply_setting m c) = (case map_of m K of None \<Rightarrow> F c | Some v \<Rightarrow> g v (F c))"
  using assms(2)
proof (induction m arbitrary: c)
  case Nil
  then show ?case by simp
next
  case (Cons kv m)
  obtain k v where kv: "kv = (k, v)" by fastforce
  show ?case
  proof (cases "k = K")
    case True
    with Cons.prems have "map_of m K = None" by (auto simp: kv map_of_eq_None_iff)
    with True Cons show ?thesis by (simp add: kv assms(1))
  next
    case False
    then have "F (apply_setting (k, v) c) = F c" by (simp add: assms(1))
    with False Cons show ?thesis by (cases "map_of m K") (simp_all add: kv)
  qed
qed

lemma apply_setting_fields:
  "PublicURL (apply_setting (k, v) c) = (if k = SettingPublicURL then (if v \<noteq> [] then v else PublicURL c) else PublicURL c)"
  "ServiceDID (apply_setting (k, v) c) = (if k = SettingServiceDID then v else ServiceDID c)"
  "DIDMethod (apply_setting (k, v) c) =
     (if k = SettingDIDMethod then (if v = ''web'' \<or> v = ''plc'' then v else DIDMethod c) else DIDMethod c)"
  "InviteRequired (apply_setting (k, v) c) = (if k = SettingInviteRequired then v = ''true'' else InviteRequired c)"
  "AdminToken (apply_setting (k, v) c) = (if k = SettingAdminToken then v else AdminToken c)"
  "SMTPHost (apply_setting (k, v) c) = (if k = SettingSMTPHost then v else SMTPHost c)"
  "SMTPPort (apply_setting (k, v) c) = (if k = SettingSMTPPort then (if v \<noteq> [] then v else SMTPPort c) else SMTPPort c)"
  "SMTPUser (apply_setting (k, v) c) = (if k = SettingSMTPUser then v else SMTPUser c)"
  "SMTPPass (apply_setting (k, v) c) = (if k = SettingSMTPPass then v else SMTPPass c)"
  "SMTPFrom (apply_setting (k, v) c) = (if k = SettingSMTPFrom then v else SMTPFrom c)"
  by (simp_all add: apply_setting_def)

text \<open>The overlay as a payload: the entries of the map over the effective values.\<close>

lemmas ApplySettings_fields =
  fold_setting_field [where F = PublicURL, OF apply_setting_fields(1)]
  fold_setting_field [where F = ServiceDID, OF apply_setting_fields(2)]
  fold_setting_field [where F = DIDMethod, OF apply_setting_fields(3)]
  fold_setting_field [where F = InviteRequired, OF apply_setting_fields(4)]
  fold_setting_field [where F = AdminToken, OF apply_setting_fields(5)]
  fold_setting_field [where F = SMTPHost, OF apply_setting_fields(6)]
  fold_setting_field [where F = SMTPPort, OF apply_setting_fields(7)]
  fold_setting_field [where F = SMTPUser, OF apply_setting_fields(8)]
  fold_setting_field [where F = SMTPPass, OF apply_setting_fields(9)]
  fold_setting_field [where F = SMTPFrom, OF apply_setting_fields(10)]

lemma map_of_tbl_upsert: "map_of (tbl_upsert fst (k, v) m) = (map_of m)(k \<mapsto> v)"
proof (rule ext)
  fix x
  have "map_of t y = map_option snd (tbl_get fst y t)" for t :: "('a \<times> 'b) list" and y
    by (induction t) (auto simp: tbl_get_def)
  then show "map_of (tbl_upsert fst (k, v) m) x = ((map_of m)(k \<mapsto> v)) x"
    by (simp add: tbl_get_upsert)
qed

lemma map_of_upserts:
  "distinct (map fst kvs) \<Longrightarrow> map_of (fold (tbl_upsert fst) kvs m) = map_of m ++ map_of kvs"
proof (induction kvs arbitrary: m)
  case Nil
  then show ?case by simp
next
  case (Cons kv kvs)
  obtain k v where kv: "kv = (k, v)" by fastforce
  from Cons.prems have "map_of kvs k = None" by (auto simp: kv map_of_eq_None_iff)
  with Cons show ?case by (auto simp: kv map_of_tbl_upsert map_add_def split: option.split)
qed

lemma upserts_keys: "distinct (map fst m) \<Longrightarrow> distinct (map fst (fold (tbl_upsert fst) kvs m))"
  by (induction kvs arbitrary: m) (auto simp: tbl_keys_ok_upsert [unfolded tbl_keys_ok_def])

lemma toMap_distinct: "distinct (map fst (toMap p))"
  by (simp add: toMap_def)

lemma SetSettings_run:
  "go_foreach (\<lambda>(k, v). SetSetting E k v) kvs s = (Inr x, t) \<Longrightarrow>
     settings (db t) = fold (tbl_upsert fst) kvs (settings (db s))"
  by (induction kvs arbitrary: s) (auto simp: go_inv SetSetting_def)

lemma validate_all_Inr: "validate_all E kvs = Inr () \<Longrightarrow> (k, v) \<in> set kvs \<Longrightarrow> ValidateSetting E k v = Inr ()"
  by (induction E kvs rule: validate_all.induct) (auto split: sum.splits)

lemma settingsPut_run:
  assumes "settingsPut E visit (Inr p) s = (Inr (Json v), t)"
    and "set (visit (toMap p)) = set (toMap p)" and "distinct (map fst (visit (toMap p)))"
  shows "map_of (settings (db t)) = map_of (settings (db s)) ++ map_of (toMap p)"
    and "settings (db t) = fold (tbl_upsert fst) (visit (toMap p)) (settings (db s))"
    and "\<forall>(k, v) \<in> set (toMap p). ValidateSetting E k v = Inr ()"
proof -
  from assms(1) have val: "validate_all E (visit (toMap p)) = Inr ()"
    and run: "settings (db t) = fold (tbl_upsert fst) (visit (toMap p)) (settings (db s))"
    by (auto simp: settingsPut_def DecodeBody_def Let_def go_inv plain_error_def dest!: SetSettings_run)
  show "settings (db t) = fold (tbl_upsert fst) (visit (toMap p)) (settings (db s))" by (rule run)
  show "\<forall>(k, v) \<in> set (toMap p). ValidateSetting E k v = Inr ()"
    using validate_all_Inr [OF val] assms(2) by auto
  have "map_of (visit (toMap p)) = map_of (toMap p)"
    using map_of_inject_set [OF assms(3) toMap_distinct] assms(2) by simp
  then show "map_of (settings (db t)) = map_of (settings (db s)) ++ map_of (toMap p)"
    using map_of_upserts [OF assms(3)] by (simp add: run)
qed

section \<open>Properties\<close>

text \<open>
  The settings of the next start, when all ten keys are persisted: the payload, but for an
  empty port, where the port of the environment stays.
\<close>

lemma boot_settings:
  assumes "map_of m = old ++ map_of (toMap p)" and "distinct (map fst m)"
    and "sp_public_url p \<noteq> []" and "sp_did_method p = ''web'' \<or> sp_did_method p = ''plc''"
  shows "settingsFromConfig (ApplySettings m c) =
    p\<lparr>sp_smtp_port := (if sp_smtp_port p = [] then SMTPPort c else sp_smtp_port p)\<rparr>"
  unfolding ApplySettings_def settingsFromConfig_def ApplySettings_fields [OF assms(2)]
  using assms(3,4) by (auto simp: assms(1) map_add_def toMap_def format_bool_def)

lemma valid_payload:
  assumes "\<forall>(k, v) \<in> set (toMap p). ValidateSetting E k v = Inr ()"
  shows "sp_did_method p = ''web'' \<or> sp_did_method p = ''plc''"
    and "(\<And>u. url_parse E [] = Inr u \<Longrightarrow> url_host u = []) \<Longrightarrow> sp_public_url p \<noteq> []"
  using assms by (auto simp: toMap_def ValidateSetting_def split: if_splits sum.splits)

lemma settingsPut_boot:
  assumes "settingsPut E visit (Inr p) s = (Inr (Json v), t)"
    and "set (visit (toMap p)) = set (toMap p)" and "distinct (map fst (visit (toMap p)))"
    and "distinct (map fst (settings (db s)))"
    and "\<And>u. url_parse E [] = Inr u \<Longrightarrow> url_host u = []"
  shows "settingsFromConfig (boot_config env (db t)) =
      p\<lparr>sp_smtp_port := (if sp_smtp_port p = [] then SMTPPort (FromEnv env) else sp_smtp_port p)\<rparr>"
proof -
  note run = settingsPut_run [OF assms(1-3)]
  have "distinct (map fst (settings (db t)))"
    unfolding run(2) by (rule upserts_keys [OF assms(4)])
  then show ?thesis
    unfolding boot_config_def
    using boot_settings [OF run(1)] valid_payload [OF run(3)] assms(5) by blast
qed


text \<open>An accepted payload without a port leaves the console asking for a restart for ever: the
  stored empty port is never applied, so after every restart the effective port still differs
  from it.\<close>

theorem empty_port_stays_pending:
  assumes "settingsPut E visit (Inr p) s = (Inr (Json v), t)"
    and "set (visit (toMap p)) = set (toMap p)" and "distinct (map fst (visit (toMap p)))"
    and "distinct (map fst (settings (db s)))"
    and "\<And>u. url_parse E [] = Inr u \<Longrightarrow> url_host u = []"
    and "sp_smtp_port p = []"
  shows "\<not> settingsEqual (settings (db t)) (settingsFromConfig (boot_config env (db t)))"
proof -
  note run = settingsPut_run [OF assms(1-3)]
  have "map_of (settings (db t)) SettingSMTPPort = Some []"
    using assms(6) by (simp add: run(1) map_add_def toMap_def)
  then have "(SettingSMTPPort, []) \<in> set (settings (db t))" by (rule map_of_SomeD)
  moreover have "SMTPPort (FromEnv env) \<noteq> []" by (simp add: FromEnv_def getenv_def)
  moreover have "sp_smtp_port (settingsFromConfig (boot_config env (db t))) = SMTPPort (FromEnv env)"
    using settingsPut_boot [OF assms(1-4), of env] assms(5,6) by simp
  ultimately show ?thesis
    by (auto simp: settingsEqual_def list_all_iff toMap_def intro!: bexI [of _ "(SettingSMTPPort, [])"])
qed

end
