(* ===== verification/Demo.thy ===== *)
theory Demo
  imports State Json
begin

text \<open>
  A small world outside the code, for evaluating the model on concrete inputs: a repo handle
  whose tree is an association list, whose blocks are text and whose revisions and record keys
  grow by one letter. The properties are stated for every world that satisfies the laws they
  name; this one shows that the laws can hold, and is what the witnesses run on.
\<close>

section \<open>A repo handle\<close>

record ref_repo =
  rp_did :: did
  rp_tree :: "(string \<times> cid) list"
  rp_next :: nat
  rp_signed :: signed_commit

definition rp_lookup :: "ref_repo \<Rightarrow> string \<Rightarrow> cid option" where
  "rp_lookup r = map_of (rp_tree r)"

definition demo_cid :: "bytes \<Rightarrow> cid" where
  "demo_cid b = CHR ''c'' # b"

definition demo_cast :: "bytes \<Rightarrow> go_error + cid" where
  "demo_cast b = (if b = [] then Inl (Lib ''cid too short'') else Inr b)"

definition no_commit :: signed_commit where
  "no_commit = \<lparr>sc_data = cid_undef, sc_prev = None, sc_rev = [], sc_sig = []\<rparr>"

definition demo_new :: "did \<Rightarrow> ref_repo" where
  "demo_new d = \<lparr>rp_did = d, rp_tree = [], rp_next = 0, rp_signed = no_commit\<rparr>"

definition demo_put :: "ref_repo \<Rightarrow> string \<Rightarrow> marshaler \<Rightarrow> ((go_error + cid) \<times> ref_repo) blk_prog" where
  "demo_put r path rec =
     (case rec of
        Inl e \<Rightarrow> Done (Inl e, r)
      | Inr b \<Rightarrow> PutBlk (demo_cid b) b (\<lambda>err.
          case err of
            Some e \<Rightarrow> Done (Inl e, r)
          | None \<Rightarrow> Done (Inr (demo_cid b), r\<lparr>rp_tree := (path, demo_cid b) # rp_tree r\<rparr>)))"

definition demo_tid :: "nat \<Rightarrow> string" where
  "demo_tid n = ''tid'' @ replicate n CHR ''i''"

definition demo_create ::
  "ref_repo \<Rightarrow> int \<Rightarrow> string \<Rightarrow> marshaler \<Rightarrow> ((go_error + cid \<times> string) \<times> ref_repo) blk_prog" where
  "demo_create r now coll rec =
     (let key = demo_tid (rp_next r); path = coll @ ''/'' @ key in
      case rec of
        Inl e \<Rightarrow> Done (Inl e, r)
      | Inr b \<Rightarrow>
          if rp_lookup r path \<noteq> None then Done (Inl (Lib ''value already set''), r)
          else PutBlk (demo_cid b) b (\<lambda>err.
            case err of
              Some e \<Rightarrow> Done (Inl e, r)
            | None \<Rightarrow> Done (Inr (demo_cid b, key),
                r\<lparr>rp_tree := (path, demo_cid b) # rp_tree r, rp_next := Suc (rp_next r)\<rparr>)))"

definition demo_delete :: "ref_repo \<Rightarrow> string \<Rightarrow> ((go_error + unit) \<times> ref_repo) blk_prog" where
  "demo_delete r path =
     (if rp_lookup r path = None then Done (Inl (Lib ''not found''), r)
      else Done (Inr (), r\<lparr>rp_tree := filter (\<lambda>(p, c). p \<noteq> path) (rp_tree r)\<rparr>))"

text \<open>A commit block lists the repo's DID, the revision and the entries of the tree.\<close>

definition demo_rev :: "nat \<Rightarrow> string" where
  "demo_rev n = replicate (Suc n) CHR ''r''"

definition demo_pairs :: "(string \<times> cid) list \<Rightarrow> string list" where
  "demo_pairs t = concat (map (\<lambda>(p, c). [p, c]) t)"

fun demo_unpairs :: "string list \<Rightarrow> (string \<times> cid) list" where
  "demo_unpairs (p # c # xs) = (p, c) # demo_unpairs xs"
| "demo_unpairs _ = []"

definition demo_block :: "did \<Rightarrow> string \<Rightarrow> (string \<times> cid) list \<Rightarrow> bytes" where
  "demo_block d rv t = str_join ''|'' (d # rv # demo_pairs t)"

definition demo_commit ::
  "ref_repo \<Rightarrow> int \<Rightarrow> (bytes \<Rightarrow> go_error + bytes) \<Rightarrow> ((go_error + cid \<times> string) \<times> ref_repo) blk_prog" where
  "demo_commit r now sign =
     (let rv = demo_rev (rp_next r); b = demo_block (rp_did r) rv (rp_tree r) in
      case sign b of
        Inl e \<Rightarrow> Done (Inl e, r)
      | Inr sg \<Rightarrow> PutBlk (demo_cid b) b (\<lambda>err.
          case err of
            Some e \<Rightarrow> Done (Inl e, r)
          | None \<Rightarrow> Done (Inr (demo_cid b, rv),
              r\<lparr>rp_next := Suc (rp_next r),
                rp_signed := \<lparr>sc_data = demo_cid b, sc_prev = None, sc_rev = rv, sc_sig = sg\<rparr>\<rparr>)))"

definition demo_read :: "cid \<Rightarrow> bytes \<Rightarrow> go_error + ref_repo" where
  "demo_read head b =
     (case str_split ''|'' b of
        d # rv # ps \<Rightarrow> Inr \<lparr>rp_did = d, rp_tree = demo_unpairs ps, rp_next = length rv,
          rp_signed = \<lparr>sc_data = head, sc_prev = None, sc_rev = rv, sc_sig = ''sig''\<rparr>\<rparr>
      | _ \<Rightarrow> Inl (Lib ''bad commit''))"

definition demo_open :: "cid \<Rightarrow> (go_error + ref_repo) blk_prog" where
  "demo_open head = GetBlk head (\<lambda>res.
     case res of Inl e \<Rightarrow> Done (Inl e) | Inr b \<Rightarrow> Done (demo_read head b))"

text \<open>A CAR of one root: its blocks are the lines of the file, the first one the root.\<close>

definition demo_car :: "bytes \<Rightarrow> go_error + cid list \<times> (go_error + cid \<times> bytes) list" where
  "demo_car b =
     (case str_split ''#'' b of
        [] \<Rightarrow> Inl (Lib ''empty car'')
      | root # bs \<Rightarrow> Inr ([demo_cid root], map (\<lambda>x. Inr (demo_cid x, x)) (root # bs)))"

section \<open>The world\<close>

definition demo_dag_cbor :: "gov \<Rightarrow> go_error + bytes" where
  "demo_dag_cbor v = (case v of GBytes b \<Rightarrow> Inr b | _ \<Rightarrow> Inr ''map'')"

definition demo_name :: "string \<Rightarrow> go_error + string" where
  "demo_name x = (if x = [] then Inl (Lib ''empty'') else Inr x)"

text \<open>Claims as text: the two times in unary, then the subject.\<close>

definition demo_claims :: "claims \<Rightarrow> bytes" where
  "demo_claims c = replicate (nat (cl_iat c)) CHR ''i'' @ ''-'' @ replicate (nat (cl_exp c)) CHR ''e'' @ ''-'' @ cl_sub c"

definition demo_unclaims :: "bytes \<Rightarrow> go_error + claims" where
  "demo_unclaims b =
     (let i = takeWhile (\<lambda>c. c \<noteq> CHR ''-'') b; r = drop (Suc (length i)) b;
          e = takeWhile (\<lambda>c. c \<noteq> CHR ''-'') r
      in Inr \<lparr>cl_sub = drop (Suc (length e)) r, cl_iat = int (length i), cl_exp = int (length e)\<rparr>)"

definition demo_url :: "string \<Rightarrow> go_error + url" where
  "demo_url x =
     (case str_cut ''://'' x of
        None \<Rightarrow> Inl (Lib ''missing scheme'')
      | Some (sch, r) \<Rightarrow>
          (case str_cut '':'' r of
             None \<Rightarrow> Inr \<lparr>url_scheme = sch, url_host = r, url_hostname = r, url_port = []\<rparr>
           | Some (h, p) \<Rightarrow> Inr \<lparr>url_scheme = sch, url_host = r, url_hostname = h, url_port = p\<rparr>))"

definition demo_env :: "(nat \<Rightarrow> bool) \<Rightarrow> ref_repo env" where
  "demo_env fl = \<lparr>
     fault = fl, clock = (\<lambda>n. 1000 + int n), subsec = (\<lambda>n. 0), rfc3339 = show_int,
     entropy = (\<lambda>n k. replicate k (char_of (n mod 256))),
     cid_cast = demo_cast, cid_string = id,
     ix_new = demo_new, ix_open = demo_open, ix_create = demo_create, ix_put = demo_put,
     ix_delete = demo_delete, ix_commit = demo_commit, ix_signed = rp_signed, ix_did = rp_did,
     ix_entries = (\<lambda>r. Done (Inr (rp_tree r))),
     p256_parse = Inr, p256_sign = (\<lambda>k m. Inr ''sig''),
     tid_next = (\<lambda>n. ''t'' @ replicate n CHR ''i''),
     event_body = (\<lambda>n e. Inr ''body''), car_header = (\<lambda>roots. Inr (''H'' @ concat roots)),
     sha256 = (\<lambda>x. ''s'' @ x), raw_cid = (\<lambda>x. Inr (''b'' @ x)),
     car_read = demo_car, cbor_decode = (\<lambda>b. Inr (GMap [(''v'', GBytes b)])),
     dag_cbor = demo_dag_cbor, secret = ''key'',
     argon2 = (\<lambda>p salt time mem threads n. take n (p @ salt @ replicate n CHR ''.'')),
     aes_seal = (\<lambda>k n p. p @ ''!''),
     aes_open = (\<lambda>k n c. if has_suffix c ''!'' then Inr (trim_suffix c ''!'') else Inl (Lib ''cipher: message authentication failed'')),
     hmac = (\<lambda>k m. take 4 k @ m), claims_json = demo_claims, claims_parse = demo_unclaims,
     audit_log = (\<lambda>b. Inr [b]), url_parse = demo_url,
     syntax_handle = demo_name, syntax_did = demo_name, syntax_nsid = demo_name, syntax_rkey = demo_name,
     cid_decode = demo_cast,
     p256_generate = (\<lambda>n. Inr (''k'' @ replicate n CHR ''i'')), p256_didkey = (\<lambda>k. Inr (''did:key:'' @ k)),
     p256_multibase = (\<lambda>k. Inr (''z'' @ k)),
     http = (\<lambda>n verb u body. Inr (200, u)),
     type_extract = (\<lambda>b. Inr (takeWhile (\<lambda>c. c \<noteq> CHR '':'') b)), lex_known = (\<lambda>t. t = ''p''),
     lex_decode = (\<lambda>b. Inr (Inr b)), atdata_parse = (\<lambda>b. Inr (GBytes b)), atdata_cbor = demo_dag_cbor,
     lookup_handle = (\<lambda>n h. Inr (''did:'' @ h)), resolve_did = (\<lambda>n d. Inr d),
     json_read = (\<lambda>b. Inr (if has_prefix b ''['' then JArr [JStr b] else JObj [(''subject'', JStr b), (''createdAt'', JStr b)])),
     json_extract = (\<lambda>v path. if v = [] then SqlNull else SqlText v),
     http_call = (\<lambda>n rq. Inr \<lparr>hr_status = 200, hr_line = ''200 OK'', hr_type = [], hr_body = hq_body rq\<rparr>),
     error_text = (\<lambda>e. ''error'')\<rparr>"

definition fine :: "ref_repo env" where
  "fine = demo_env (\<lambda>n. False)"

definition empty_db :: database where
  "empty_db = \<lparr>accounts = [], auth_sessions = [], repo_commits = [], repo_blocks = [], repo_records = [],
     repo_block_revs = [], blobs = [], firehose_events = [], app_passwords = [], invite_codes = [],
     email_tokens = [], relays = [], settings = [], app_preferences = [], mutes = [], bridge_config = [], bridge_sync = []\<rparr>"

definition demo_account :: "did \<Rightarrow> string \<Rightarrow> account" where
  "demo_account d h = \<lparr>acc_did = d, acc_handle = h, acc_email = None, acc_password_hash = ''hash'',
     acc_recovery_key = ''rk'', acc_signing_key = ''enc:v1:AAAAAAAAAAAAAAAA:c2sh'', acc_created_at = Stamp 0, acc_did_doc = None,
     acc_deactivated_at = None, acc_email_confirmed_at = None\<rparr>"

definition demo_state :: "ref_repo pds" where
  "demo_state = \<lparr>tick = 0,
     db = empty_db\<lparr>accounts := [demo_account ''did:a'' ''a.ex'', demo_account ''did:b'' ''b.ex'']\<rparr>,
     repos = Map.empty, recorded = None, emitter = \<lparr>em_seq = 0, em_id = 0, em_subs = []\<rparr>,
     files = Map.empty, outbox = [], blob_root = None, public_url = []\<rparr>"

text \<open>The same with an open, empty repo for the first account.\<close>

definition cached_state :: "ref_repo pds" where
  "cached_state = demo_state\<lparr>repos := [''did:a'' \<mapsto> demo_new ''did:a'']\<rparr>"

lemma fine_sel [simp]:
  "event_body fine m e = Inr ''body''" "cid_cast fine = demo_cast" "cid_string fine = id"
  "sha256 fine x = ''s'' @ x" "raw_cid fine x = Inr (''b'' @ x)" "clock fine n = 1000 + int n"
  "tid_next fine n = ''t'' @ replicate n CHR ''i''"
  by (simp_all add: fine_def demo_env_def)

lemma fine_no_faults [simp]: "no_faults fine" "\<not> fault fine n"
  by (simp_all add: no_faults_def fine_def demo_env_def)

end
