(* ===== verification/Plc.thy ===== *)
theory Plc
  imports Http
begin

text \<open>
  \<open>internal/plc\<close> and \<open>internal/identity\<close>: the operations of the did:plc method, their signature
  and the identifier derived from them, the client of a PLC directory, and the did:web
  identity. SHA-256, the DAG-CBOR encoder, the keys and the answers of the directory are
  parameters.
\<close>

section \<open>Operations\<close>

record plc_operation =
  po_type :: string
  po_verification :: "(string \<times> string) list"
  po_rotation :: "string list"
  po_aka :: "string list"
  po_services :: "(string \<times> string \<times> string) list"
  po_prev :: "string option"
  po_sig :: string

definition ensureHTTPPrefix :: "string \<Rightarrow> string" where
  "ensureHTTPPrefix s =
     (if has_prefix s ''http://'' \<or> has_prefix s ''https://'' then s else ''https://'' @ s)"

definition ensureAtprotoPrefix :: "string \<Rightarrow> string" where
  "ensureAtprotoPrefix s =
     (if has_prefix s ''at://'' then s else ''at://'' @ trim_prefix (trim_prefix s ''http://'') ''https://'')"

definition NewAtproto :: "string \<Rightarrow> string \<Rightarrow> string \<Rightarrow> string list \<Rightarrow> string option \<Rightarrow> plc_operation" where
  "NewAtproto signing handle pds_url rotation prev = \<lparr>
     po_type = ''plc_operation'', po_verification = [(''atproto'', signing)], po_rotation = rotation,
     po_aka = [ensureAtprotoPrefix handle],
     po_services = [(''atproto_pds'', ''AtprotoPersonalDataServer'', ensureHTTPPrefix pds_url)],
     po_prev = prev, po_sig = []\<rparr>"

definition toStringAny :: "string list \<Rightarrow> gov" where
  "toStringAny xs = GList (map GStr xs)"

definition nilOrString :: "string option \<Rightarrow> gov" where
  "nilOrString s = (case s of None \<Rightarrow> GScalar ''null'' | Some x \<Rightarrow> GStr x)"

text \<open>The map handed to the encoder; a missing key of a Go map reads as the empty string.\<close>

definition operation_map :: "plc_operation \<Rightarrow> gov" where
  "operation_map op = GMap
     ([(''type'', GStr (po_type op)),
       (''verificationMethods'', GMap [(''atproto'',
          GStr (case map_of (po_verification op) ''atproto'' of None \<Rightarrow> [] | Some k \<Rightarrow> k))]),
       (''rotationKeys'', toStringAny (po_rotation op)),
       (''alsoKnownAs'', toStringAny (po_aka op)),
       (''prev'', nilOrString (po_prev op))] @
      (case map_of (po_services op) ''atproto_pds'' of
         None \<Rightarrow> []
       | Some (ty, ep) \<Rightarrow> [(''services'', GMap [(''atproto_pds'', GMap [(''type'', GStr ty), (''endpoint'', GStr ep)])])]) @
      (if po_sig op \<noteq> [] then [(''sig'', GStr (po_sig op))] else []))"

definition operation_cbor :: "'r env \<Rightarrow> plc_operation \<Rightarrow> go_error + bytes" where
  "operation_cbor E op = dag_cbor E (operation_map op)"

definition operation_sign :: "'r env \<Rightarrow> bytes \<Rightarrow> plc_operation \<Rightarrow> go_error + plc_operation" where
  "operation_sign E key op =
     (let unsigned = op\<lparr>po_sig := []\<rparr> in
      case operation_cbor E unsigned of
        Inl e \<Rightarrow> Inl e
      | Inr b \<Rightarrow>
          (case p256_sign E key b of
             Inl e \<Rightarrow> Inl e
           | Inr sg \<Rightarrow> Inr (unsigned\<lparr>po_sig := b64_encode url_alphabet sg\<rparr>)))"

text \<open>
  \<open>base32.StdEncoding\<close> without padding, in lower case: five-bit groups of the bits, the last
  one padded with zeros.
\<close>

definition byte_bits :: "char \<Rightarrow> bool list" where
  "byte_bits c = map (\<lambda>i. (of_char c :: nat) div 2 ^ (7 - i) mod 2 = 1) [0..<8]"

definition quintet :: "bool list \<Rightarrow> nat" where
  "quintet bs = foldl (\<lambda>n b. 2 * n + of_bool b) 0 bs"

fun quintets :: "bool list \<Rightarrow> nat list" where
  "quintets (a # b # c # d # e # r) = quintet [a, b, c, d, e] # quintets r"
| "quintets [] = []"
| "quintets bs = [quintet (take 5 (bs @ replicate 4 False))]"

definition b32_alphabet :: string where
  "b32_alphabet = ''abcdefghijklmnopqrstuvwxyz234567''"

definition b32_lower :: "bytes \<Rightarrow> string" where
  "b32_lower b = map (\<lambda>i. b32_alphabet ! i) (quintets (concat (map byte_bits b)))"

text \<open>\<open>[:24]\<close> of the base-32 text: SHA-256 gives 52 characters.\<close>

definition operation_did :: "'r env \<Rightarrow> plc_operation \<Rightarrow> go_error + did" where
  "operation_did E op =
     (case operation_cbor E op of
        Inl e \<Rightarrow> Inl e
      | Inr b \<Rightarrow> Inr (''did:plc:'' @ take 24 (b32_lower (sha256 E b))))"

section \<open>The directory\<close>

definition new_client :: "string \<Rightarrow> string" where
  "new_client u = (if u = [] then ''https://plc.directory'' else u)"

definition operation_json :: "plc_operation \<Rightarrow> json" where
  "operation_json op = JStruct
     ([(''type'', JStr (po_type op)),
       (''verificationMethods'', JObj (map (\<lambda>(k, v). (k, JStr v)) (po_verification op))),
       (''rotationKeys'', JArr (map JStr (po_rotation op))),
       (''alsoKnownAs'', JArr (map JStr (po_aka op))),
       (''services'', JObj (map (\<lambda>(k, ty, ep). (k, JStruct [(''type'', JStr ty), (''endpoint'', JStr ep)])) (po_services op))),
       (''prev'', jopt (po_prev op))] @
      (if po_sig op = [] then [] else [(''sig'', JStr (po_sig op))]))"

definition plc_submit :: "'r env \<Rightarrow> string \<Rightarrow> did \<Rightarrow> plc_operation \<Rightarrow> ('r pds, unit) go" where
  "plc_submit E base did op =
     go_bind (http_do E ''POST'' (base @ ''/'' @ did) (json_marshal (operation_json op))) (\<lambda>(status, body).
     if status \<noteq> 200 \<and> status \<noteq> 201 then go_raise (Failure ''plc directory rejected operation'') else go_ret ())"

definition plc_create ::
  "'r env \<Rightarrow> string \<Rightarrow> bytes \<Rightarrow> bytes \<Rightarrow> string \<Rightarrow> string \<Rightarrow> ('r pds, did \<times> plc_operation) go" where
  "plc_create E base signing recovery handle pds_url =
     go_bind (go_of (p256_didkey E signing)) (\<lambda>signing_pub.
     go_bind (go_of (p256_didkey E recovery)) (\<lambda>recovery_pub.
     go_bind (go_wrap ''sign genesis op''
       (go_of (operation_sign E recovery (NewAtproto signing_pub handle pds_url [recovery_pub] None)))) (\<lambda>op.
     go_bind (go_of (operation_did E op)) (\<lambda>did.
     go_bind (plc_submit E base did op) (\<lambda>_.
     go_ret (did, op))))))"

definition ResolveDidDoc :: "'r env \<Rightarrow> string \<Rightarrow> did \<Rightarrow> ('r pds, bytes) go" where
  "ResolveDidDoc E base did =
     go_bind (http_do E ''GET'' (base @ ''/'' @ did) []) (\<lambda>(status, body).
     if status \<noteq> 200 then go_raise (Failure ''plc resolve'') else go_ret body)"

definition LatestCID :: "'r env \<Rightarrow> string \<Rightarrow> did \<Rightarrow> ('r pds, string) go" where
  "LatestCID E base did =
     go_bind (http_do E ''GET'' (base @ ''/'' @ did @ ''/log/audit'') []) (\<lambda>(status, body).
     if status \<noteq> 200 then go_raise (Failure ''plc audit log'')
     else
       go_bind (go_of (audit_log E body)) (\<lambda>log.
       if log = [] then go_raise (Failure ''empty audit log'') else go_ret (last log)))"

section \<open>did:web\<close>

record keys =
  ky_signing :: bytes
  ky_recovery :: bytes
  ky_did :: did
  ky_did_doc :: json

definition web_document :: "did \<Rightarrow> string \<Rightarrow> string \<Rightarrow> string \<Rightarrow> json" where
  "web_document did handle multibase endpoint = JObj
     [(''@context'', JArr [JStr ''https://www.w3.org/ns/did/v1'']),
      (''id'', JStr did),
      (''alsoKnownAs'', JArr [JStr (''at://'' @ handle)]),
      (''verificationMethod'', JArr [JObj
         [(''id'', JStr (did @ ''#atproto'')), (''type'', JStr ''Multikey''),
          (''controller'', JStr did), (''publicKeyMultibase'', JStr multibase)]]),
      (''service'', JArr [JObj
         [(''id'', JStr ''#atproto_pds''), (''type'', JStr ''AtprotoPersonalDataServer''),
          (''serviceEndpoint'', JStr endpoint)]])]"

definition CreateDidWeb :: "'r env \<Rightarrow> string \<Rightarrow> string \<Rightarrow> ('r pds, keys) go" where
  "CreateDidWeb E handle serviceEndpoint =
     go_bind (go_wrap ''generate signing key'' (generate_key E)) (\<lambda>signing.
     go_bind (go_wrap ''generate recovery key'' (generate_key E)) (\<lambda>recovery.
     go_bind (go_wrap ''derive public key'' (go_of (p256_multibase E signing))) (\<lambda>mb.
     let did = ''did:web:'' @ handle in
     go_ret \<lparr>ky_signing = signing, ky_recovery = recovery, ky_did = did,
       ky_did_doc = web_document did handle mb serviceEndpoint\<rparr>)))"

section \<open>Properties\<close>

lemma quintet_bound: "quintet bs < 2 ^ length bs"
proof -
  have "foldl (\<lambda>n b. 2 * n + of_bool b) n bs < (n + 1) * 2 ^ length bs" for n :: nat
  proof (induction bs arbitrary: n)
    case Nil
    then show ?case by simp
  next
    case (Cons b bs)
    have "foldl (\<lambda>n b. 2 * n + of_bool b) (2 * n + of_bool b) bs < (2 * n + of_bool b + 1) * 2 ^ length bs"
      by (rule Cons.IH)
    also have "\<dots> \<le> (n + 1) * 2 ^ length (b # bs)" by (simp add: algebra_simps)
    finally show ?case by simp
  qed
  from this [of 0] show ?thesis by (simp add: quintet_def)
qed

lemma quintet_lt: "length bs = 5 \<Longrightarrow> quintet bs < 32"
  using quintet_bound [of bs] by simp

lemma quintets_bound: "x \<in> set (quintets bs) \<Longrightarrow> x < 32"
  by (induction bs rule: quintets.induct) (auto simp: quintet_lt)

lemma quintets_append: "length bs = 5 * n \<Longrightarrow> quintets (bs @ cs) = quintets bs @ quintets cs \<and> length (quintets bs) = n"
proof (induction n arbitrary: bs)
  case 0
  then show ?case by simp
next
  case (Suc n)
  then have "length bs = Suc (Suc (Suc (Suc (Suc (5 * n)))))" by simp
  then obtain a b c d e r where bs: "bs = a # b # c # d # e # r"
    by (auto simp: length_Suc_conv)
  with Suc.prems have "length r = 5 * n" by simp
  from Suc.IH [OF this] show ?case by (simp add: bs)
qed

lemma length_byte_bits [simp]: "length (byte_bits c) = 8"
  by (simp add: byte_bits_def)

lemma length_all_bits: "length (concat (map byte_bits b)) = 8 * length b"
  by (induction b) simp_all

lemma b32_chars: "set (b32_lower b) \<subseteq> set b32_alphabet"
proof -
  have "length b32_alphabet = 32" by (simp add: b32_alphabet_def)
  then show ?thesis using quintets_bound by (fastforce simp: b32_lower_def)
qed

lemma b32_length:
  assumes "15 \<le> length b"
  shows "24 \<le> length (b32_lower b)"
proof -
  let ?bits = "concat (map byte_bits b)"
  have "length (take 120 ?bits) = 5 * 24" using assms by (simp add: length_all_bits)
  from quintets_append [OF this, of "drop 120 ?bits"] have "24 \<le> length (quintets ?bits)" by simp
  then show ?thesis by (simp add: b32_lower_def)
qed

text \<open>C27: The identifier of a new did:plc account is well formed: \<open>did:plc:\<close> and 24 characters of the
  base-32 alphabet, derived from the signed operation alone, and it is the one the operation
  was submitted under.\<close>

theorem plc_create_did:
  assumes "plc_create E base signing recovery handle pds_url s = (Inr (did, op), t)"
    and "\<And>b. length (sha256 E b) = 32"
  shows "operation_did E op = Inr did \<and> has_prefix did ''did:plc:'' \<and> length did = 32 \<and>
    set (drop 8 did) \<subseteq> set b32_alphabet \<and> po_prev op = None \<and>
    (\<exists>body. http E (tick s) ''POST'' (base @ ''/'' @ did) (json_marshal (operation_json op)) = Inr body)"
proof -
  from assms(1) obtain rp sp status reply where
    sign: "operation_sign E recovery (NewAtproto sp handle pds_url [rp] None) = Inr op"
    and did: "operation_did E op = Inr did"
    and post: "http E (tick s) ''POST'' (base @ ''/'' @ did) (json_marshal (operation_json op)) = Inr (status, reply)"
    by (auto simp: plc_create_def plc_submit_def go_inv split: if_splits)
  from did obtain b where d: "did = ''did:plc:'' @ take 24 (b32_lower (sha256 E b))"
    by (auto simp: operation_did_def split: sum.splits)
  have "24 \<le> length (b32_lower (sha256 E b))" by (rule b32_length) (simp add: assms(2))
  then have "length did = 32" by (simp add: d)
  moreover have "set (drop 8 did) \<subseteq> set b32_alphabet"
    using b32_chars [of "sha256 E b"] set_take_subset [of 24 "b32_lower (sha256 E b)"] by (simp add: d)
  moreover have "po_prev op = None"
    using sign by (auto simp: operation_sign_def NewAtproto_def Let_def split: sum.splits)
  moreover have "has_prefix did ''did:plc:''" unfolding d by (rule has_prefix_append)
  ultimately show ?thesis using did post by blast
qed

end
