(* ===== verification/Auth.thy ===== *)
theory Auth
  imports Http
begin

text \<open>
  \<open>internal/api/auth.go\<close>: logging in, the session of a bearer token, refresh tokens. The table
  \<open>auth_sessions\<close> holds one row per refresh token, by the hash of the token; its foreign key
  names the account. Access tokens are not stored: they are checked by their signature alone.
\<close>

section \<open>Names\<close>

definition ascii_lower :: "string \<Rightarrow> string" where
  "ascii_lower s = map (\<lambda>c. if 65 \<le> (of_char c :: nat) \<and> (of_char c :: nat) \<le> 90 then char_of (of_char c + (32 :: nat)) else c) s"

text \<open>Equality under SQLite's NOCASE collation.\<close>

definition nocase_eq :: "string \<Rightarrow> string \<Rightarrow> bool" where
  "nocase_eq a b \<longleftrightarrow> ascii_lower a = ascii_lower b"

definition find_account :: "(account \<Rightarrow> bool) \<Rightarrow> database \<Rightarrow> account option" where
  "find_account p d = find p (accounts d)"

definition account_named :: "string \<Rightarrow> database \<Rightarrow> account option" where
  "account_named identifier d =
     (if has_prefix identifier ''did:'' then find_account (\<lambda>a. acc_did a = identifier) d
      else if str_contains identifier ''@''
      then find_account (\<lambda>a. case acc_email a of None \<Rightarrow> False | Some e \<Rightarrow> nocase_eq e identifier) d
      else find_account (\<lambda>a. nocase_eq (acc_handle a) identifier) d)"

definition lookupAccount :: "'r env \<Rightarrow> string \<Rightarrow> ('r pds, did \<times> string \<times> string) go" where
  "lookupAccount E identifier =
     go_bind (sql E (q_row (account_named identifier))) (\<lambda>a.
     if acc_deactivated_at a \<noteq> None then go_raise SqlNoRows
     else go_ret (acc_did a, acc_handle a, acc_password_hash a))"

definition resolveLocalDid :: "'r env \<Rightarrow> string \<Rightarrow> ('r pds, did) go" where
  "resolveLocalDid E name =
     (if has_prefix name ''did:'' then go_ret name
      else sql E (q_row (\<lambda>d. map_option acc_did (find_account (\<lambda>a. acc_handle a = name) d))))"

section \<open>Tokens\<close>

definition hashToken :: "'r env \<Rightarrow> string \<Rightarrow> string" where
  "hashToken E token = hex_encode (sha256 E token)"

definition bearerToken :: "request \<Rightarrow> string \<times> bool" where
  "bearerToken rq =
     (case cut_prefix (rq_header rq ''Authorization'') ''Bearer '' of
        (token, ok) \<Rightarrow> (token, ok \<and> token \<noteq> []))"

definition requireAuth :: "'r env \<Rightarrow> request \<Rightarrow> (did \<Rightarrow> 'r handler) \<Rightarrow> 'r handler" where
  "requireAuth E rq k =
     (case bearerToken rq of (token, ok) \<Rightarrow>
        if \<not> ok then WriteXRPCError 401 ''AuthMissing'' (Text ''missing bearer token'')
        else on_error (parseAccessJWT E (mac_key E) token)
               (\<lambda>_. XrpcError 401 ''InvalidToken'' (Text ''invalid token'')) k)"

definition unauthorized :: response where
  "unauthorized = XrpcError 401 ''AuthenticationRequired'' (Text ''invalid identifier or password'')"

text \<open>\<open>ok, err := VerifyPassword\<close> read as one condition; a panic goes on.\<close>

definition password_ok :: "'r env \<Rightarrow> string \<Rightarrow> string \<Rightarrow> ('s, bool) go" where
  "password_ok E hash password =
     (case VerifyPassword E hash password of
        Inl e \<Rightarrow> if panics e then go_raise e else go_ret False
      | Inr b \<Rightarrow> go_ret b)"

fun matching_app_password :: "'r env \<Rightarrow> string \<Rightarrow> app_password list \<Rightarrow> ('s, string option) go" where
  "matching_app_password E password [] = go_ret None"
| "matching_app_password E password (r # rs) =
     go_bind (password_ok E (ap_hash r) password) (\<lambda>ok.
     if ok then go_ret (Some (ap_name r)) else matching_app_password E password rs)"

definition verifyAppPassword :: "'r env \<Rightarrow> did \<Rightarrow> string \<Rightarrow> ('r pds, string option) go" where
  "verifyAppPassword E did password =
     go_bind (scan_or [] (sql E (q_rows (\<lambda>d. filter (\<lambda>r. ap_did r = did) (app_passwords d))))) (\<lambda>rows.
     matching_app_password E password rows)"

section \<open>Sessions\<close>

definition insert_session :: "session \<Rightarrow> (database, unit) go" where
  "insert_session r = q_try (\<lambda>d.
     if \<not> tbl_has acc_did (ses_did r) (accounts d) then Inl SqlConstraint
     else case tbl_insert ses_token_hash r (auth_sessions d) of
       Inl e \<Rightarrow> Inl e
     | Inr t \<Rightarrow> Inr (d\<lparr>auth_sessions := t\<rparr>))"

definition delete_session :: "string \<Rightarrow> (database, unit) go" where
  "delete_session h =
     q_exec (\<lambda>d. d\<lparr>auth_sessions := tbl_delete (\<lambda>r. ses_token_hash r = h) (auth_sessions d)\<rparr>)"

text \<open>\<open>refreshTokenTTL\<close> is thirty days.\<close>

definition refreshTokenTTL :: int where
  "refreshTokenTTL = 30 * 24 * 60 * 60"

definition mintSession :: "'r env \<Rightarrow> did \<Rightarrow> string \<Rightarrow> ('r pds, string \<times> string) go" where
  "mintSession E did app_pw =
     go_bind (mintAccessJWT E (mac_key E) did) (\<lambda>access.
     go_bind (rand_read E 32) (\<lambda>raw.
     let refresh = hex_encode raw in
     go_bind (time_now E) (\<lambda>now.
     go_bind (sql E (insert_session \<lparr>ses_token_hash = hashToken E refresh, ses_did = did,
        ses_created_at = Stamp now, ses_expires_at = Stamp (now + refreshTokenTTL),
        ses_app_password = Some app_pw\<rparr>)) (\<lambda>_.
     go_ret (access, refresh)))))"

definition session_json :: "string \<Rightarrow> string \<Rightarrow> string \<Rightarrow> did \<Rightarrow> json" where
  "session_json access refresh handle did = JObj
     [(''accessJwt'', JStr access), (''refreshJwt'', JStr refresh), (''handle'', JStr handle), (''did'', JStr did)]"

definition HandleCreateSession :: "'r env \<Rightarrow> go_error + string \<times> string \<Rightarrow> 'r handler" where
  "HandleCreateSession E body =
     DecodeBody body (\<lambda>(identifier, password).
     on_error (lookupAccount E identifier) (\<lambda>_. unauthorized) (\<lambda>(did, handle, passwordHash).
     go_bind (password_ok E passwordHash password) (\<lambda>ok.
     go_bind (if ok then go_ret (Some []) else verifyAppPassword E did password) (\<lambda>login.
     case login of
       None \<Rightarrow> go_ret unauthorized
     | Some appPassword \<Rightarrow>
         on_error (mintSession E did appPassword) internal_error (\<lambda>(access, refresh).
         WriteJSON (session_json access refresh handle did))))))"

definition HandleGetSession :: "'r env \<Rightarrow> request \<Rightarrow> 'r handler" where
  "HandleGetSession E rq =
     requireAuth E rq (\<lambda>did.
     on_error (sql E (q_row (find_account (\<lambda>a. acc_did a = did)))) internal_error (\<lambda>a.
     WriteJSON (JObj [(''did'', JStr did), (''handle'', JStr (acc_handle a)),
       (''active'', jbool (acc_deactivated_at a = None))])))"

definition invalid_refresh :: response where
  "invalid_refresh = XrpcError 400 ''InvalidToken'' (Text ''invalid refresh token'')"

text \<open>The four checks of a refresh token: its row, its expiry, and its account, which must be active.\<close>

definition check_refresh :: "'r env \<Rightarrow> string \<Rightarrow> ('r pds, session) go" where
  "check_refresh E token =
     go_bind (sql E (q_row (\<lambda>d. tbl_get ses_token_hash (hashToken E token) (auth_sessions d)))) (\<lambda>row.
     go_bind (go_of (parse_rfc3339 (ses_expires_at row))) (\<lambda>exp.
     go_bind (now_after E exp) (\<lambda>expired.
     if expired then go_raise (Failure ''expired'')
     else
       go_bind (sql E (q_row (find_account (\<lambda>a. acc_did a = ses_did row)))) (\<lambda>a.
       if acc_deactivated_at a \<noteq> None then go_raise (Failure ''deactivated'') else go_ret row))))"

definition coalesce :: "string option \<Rightarrow> string" where
  "coalesce x = (case x of None \<Rightarrow> [] | Some s \<Rightarrow> s)"

definition HandleRefreshSession :: "'r env \<Rightarrow> go_error + string \<Rightarrow> 'r handler" where
  "HandleRefreshSession E body =
     DecodeBody body (\<lambda>token.
     on_error (check_refresh E token) (\<lambda>_. invalid_refresh) (\<lambda>row.
     on_error (sql E (delete_session (hashToken E token))) internal_error (\<lambda>_.
     on_error (mintSession E (ses_did row) (coalesce (ses_app_password row))) internal_error (\<lambda>(access, refresh).
     on_error (sql E (q_row (find_account (\<lambda>a. acc_did a = ses_did row)))) internal_error (\<lambda>a.
     WriteJSON (session_json access refresh (acc_handle a) (ses_did row)))))))"

definition HandleDeleteSession :: "'r env \<Rightarrow> request \<Rightarrow> 'r handler" where
  "HandleDeleteSession E rq =
     (case bearerToken rq of (token, ok) \<Rightarrow>
        if \<not> ok then WriteXRPCError 401 ''AuthMissing'' (Text ''missing bearer token'')
        else on_error (sql E (delete_session (hashToken E token))) internal_error (\<lambda>_. WriteJSON (JObj [])))"

section \<open>Rules\<close>

lemma keeps_requireAuth [keeps_intro]: "(\<And>d. keeps f (k d)) \<Longrightarrow> keeps f (requireAuth E rq k)"
  by (auto simp: requireAuth_def intro!: keeps_intro split: prod.split)

lemma preserves_requireAuth [preserves_intro]:
  "(\<And>d. preserves P (k d)) \<Longrightarrow> preserves P (requireAuth E rq k)"
proof -
  assume k: "\<And>d. preserves P (k d)"
  have "preserves P (parseAccessJWT E (mac_key E) tok)" for tok
    by (simp add: preserves_def parseAccessJWT_state)
  with k show ?thesis
    by (auto simp: requireAuth_def intro!: preserves_intro split: prod.split)
qed

text \<open>
  \<open>token_of E did tok s\<close>: the text is an access token of the account at this state, that is
  three parts, the last the HMAC of the others under the server's key, claims that name
  the account and have not expired.
\<close>

definition token_of :: "'r env \<Rightarrow> did \<Rightarrow> string \<Rightarrow> 'r pds \<Rightarrow> bool" where
  "token_of E did tok s \<longleftrightarrow>
     (\<exists>p0 p1 p2 payload c. str_split ''.'' tok = [p0, p1, p2] \<and>
        b64_decode url_alphabet p2 = Inr (hmac E (mac_key E) (p0 @ ''.'' @ p1)) \<and>
        b64_decode url_alphabet p1 = Inr payload \<and> claims_parse E payload = Inr c \<and>
        clock E (tick s) \<le> cl_exp c \<and> cl_sub c = did \<and> did \<noteq> [])"

text \<open>A JSON reply behind \<open>requireAuth\<close> was computed for the account of the token.\<close>

lemma requireAuth_Json:
  assumes "requireAuth E rq k s = (Inr (Json v), t)"
  obtains tok did where "rq_header rq ''Authorization'' = ''Bearer '' @ tok" "token_of E did tok s"
    "k did s = (Inr (Json v), t)"
proof -
  obtain tok ok where b: "bearerToken rq = (tok, ok)" by fastforce
  with assms have ok: "ok" by (auto simp: requireAuth_def go_inv split: if_splits)
  then have h: "rq_header rq ''Authorization'' = ''Bearer '' @ tok"
    using b by (auto simp: bearerToken_def cut_prefix_True split: prod.splits)
  from assms b ok obtain did u where p: "parseAccessJWT E (mac_key E) tok s = (Inr did, u)"
    and k: "k did u = (Inr (Json v), t)"
    by (auto simp: requireAuth_def go_inv)
  from p show thesis
  proof (rule parseAccessJWT_InrD)
    fix p0 p1 p2 payload c
    assume "str_split ''.'' tok = [p0, p1, p2]"
      "b64_decode url_alphabet p2 = Inr (hmac E (mac_key E) (p0 @ ''.'' @ p1))"
      "b64_decode url_alphabet p1 = Inr payload" "claims_parse E payload = Inr c"
      "clock E (tick s) \<le> cl_exp c" "did = cl_sub c" "did \<noteq> []" and u: "u = s"
    then have "token_of E did tok s" unfolding token_of_def by blast
    with h k u that show thesis by blast
  qed
qed

text \<open>Any other response of \<open>requireAuth\<close> itself leaves the state alone.\<close>

lemma requireAuth_cases:
  obtains "\<exists>e m. requireAuth E rq k s = (Inr (XrpcError 401 e m), s)"
    | e where "requireAuth E rq k s = (Inl e, s)"
    | tok did where "rq_header rq ''Authorization'' = ''Bearer '' @ tok" "token_of E did tok s"
      "requireAuth E rq k s = k did s"
proof -
  obtain tok ok where b: "bearerToken rq = (tok, ok)" by fastforce
  show thesis
  proof (cases ok)
    case False
    with b that(1) show thesis by (simp add: requireAuth_def WriteXRPCError_def go_defs)
  next
    case True
    then have h: "rq_header rq ''Authorization'' = ''Bearer '' @ tok"
      using b by (auto simp: bearerToken_def cut_prefix_True split: prod.splits)
    obtain r u where p: "parseAccessJWT E (mac_key E) tok s = (r, u)" by fastforce
    have u: "u = s" using parseAccessJWT_state [of E "mac_key E" tok s] p by simp
    show thesis
    proof (cases r)
      case (Inl e)
      with p u b True show thesis
        using that(1,2) by (cases "panics e") (auto simp: requireAuth_def on_error_def)
    next
      case (Inr did)
      from p Inr have "token_of E did tok s"
        by (auto simp: token_of_def elim!: parseAccessJWT_InrD)
      moreover have "requireAuth E rq k s = k did s"
        using p u b True Inr by (simp add: requireAuth_def on_error_def)
      ultimately show thesis using h that(3) by blast
    qed
  qed
qed

end
