(* ===== verification/Firehose.thy ===== *)
theory Firehose
  imports State
begin

text \<open>
  \<open>internal/firehose/firehose.go\<close>: the emitter numbers each event, persists its frame and
  hands it to the live subscribers; a subscriber first replays the persisted frames after its
  cursor and then goes live. \<open>publish\<close>, \<open>new_emitter\<close> and \<open>subscribe\<close> are the operations;
  \<open>sub_step\<close> is the goroutine of \<open>Subscribe\<close> interleaved with further publications.
  Sequence numbers are \<open>int\<close>: an int64 counter does not wrap in the life of a server.
\<close>

section \<open>The emitter\<close>

abbreviation channel_capacity :: nat where
  "channel_capacity \<equiv> 4096"

text \<open>\<open>select { case ch <- frame: default: }\<close>: a full channel drops the frame.\<close>

definition offer :: "frame \<Rightarrow> frame list \<Rightarrow> frame list" where
  "offer f q = (if length q < channel_capacity then q @ [f] else q)"

definition broadcast :: "frame \<Rightarrow> (int \<times> frame list) list \<Rightarrow> (int \<times> frame list) list" where
  "broadcast f subs = map (\<lambda>(i, q). (i, offer f q)) subs"

text \<open>\<open>SELECT COALESCE(MAX(seq), 0)\<close>; an error of the query leaves 0.\<close>

definition max_seq :: "(int \<times> frame) list \<Rightarrow> int" where
  "max_seq evs = (if evs = [] then 0 else Max (fst ` set evs))"

definition new_emitter :: "'r env \<Rightarrow> ('r pds, unit) go" where
  "new_emitter E =
     go_bind (go_try (sql E (q_rows (\<lambda>d. max_seq (firehose_events d))))) (\<lambda>r.
     go_modify (\<lambda>s. s\<lparr>emitter :=
       \<lparr>em_seq = (case r of Inl _ \<Rightarrow> 0 | Inr n \<Rightarrow> n), em_id = 0, em_subs = []\<rparr>\<rparr>))"

definition set_seq :: "(int \<Rightarrow> int) \<Rightarrow> ('r pds, unit) go" where
  "set_seq g = go_modify (\<lambda>s. s\<lparr>emitter := (emitter s)\<lparr>em_seq := g (em_seq (emitter s))\<rparr>\<rparr>)"

text \<open>
  \<open>Publish\<close>: the sequence number is taken back when the frame cannot be serialised, but not
  when its insert fails.
\<close>

definition publish :: "'r env \<Rightarrow> string \<Rightarrow> event \<Rightarrow> ('r pds, unit) go" where
  "publish E msg_type ev =
     go_bind (set_seq (\<lambda>n. n + 1)) (\<lambda>_.
     go_bind (go_reads (\<lambda>s. em_seq (emitter s))) (\<lambda>n.
     case event_body E n ev of
       Inl e \<Rightarrow> go_bind (set_seq (\<lambda>n. n - 1)) (\<lambda>_. go_raise e)
     | Inr body \<Rightarrow>
         let f = \<lparr>fr_seq = n, fr_type = msg_type, fr_event = ev\<rparr> in
         go_bind (sql E (q_try (\<lambda>d.
             case tbl_insert fst (n, f) (firehose_events d) of
               Inl e \<Rightarrow> Inl e
             | Inr t \<Rightarrow> Inr (d\<lparr>firehose_events := t\<rparr>)))) (\<lambda>_.
         go_modify (\<lambda>s. s\<lparr>emitter := (emitter s)\<lparr>em_subs := broadcast f (em_subs (emitter s))\<rparr>\<rparr>))))"

text \<open>The registration of a subscriber, under the emitter's lock.\<close>

definition subscribe :: "('r pds, int) go" where
  "subscribe =
     go_bind (go_modify (\<lambda>s. s\<lparr>emitter := (emitter s)\<lparr>em_id := em_id (emitter s) + 1\<rparr>\<rparr>)) (\<lambda>_.
     go_bind (go_reads (\<lambda>s. em_id (emitter s))) (\<lambda>i.
     go_bind (go_modify (\<lambda>s. s\<lparr>emitter := (emitter s)\<lparr>em_subs := em_subs (emitter s) @ [(i, [])]\<rparr>\<rparr>)) (\<lambda>_.
     go_ret i)))"

text \<open>The cleanup function \<open>Subscribe\<close> returns.\<close>

definition unsubscribe :: "int \<Rightarrow> ('r pds, unit) go" where
  "unsubscribe i = go_modify (\<lambda>s. s\<lparr>emitter := (emitter s)\<lparr>em_subs :=
     filter (\<lambda>(j, q). j \<noteq> i) (em_subs (emitter s))\<rparr>\<rparr>)"

text \<open>\<open>SELECT frame FROM firehose_events WHERE seq > ? ORDER BY seq ASC\<close>.\<close>

definition replay_rows :: "int \<Rightarrow> (int \<times> frame) list \<Rightarrow> frame list" where
  "replay_rows cursor evs = map snd (order_asc fst (filter (\<lambda>(n, f). cursor < n) evs))"

section \<open>The persisted stream\<close>

text \<open>
  The invariant of the log: the rows are in strictly increasing order of their sequence
  numbers, each row's number is its frame's, and none is beyond the counter.
\<close>

definition stream_ok :: "'r pds \<Rightarrow> bool" where
  "stream_ok s \<longleftrightarrow>
     sorted_wrt (<) (map fst (firehose_events (db s))) \<and>
     (\<forall>(n, f) \<in> set (firehose_events (db s)). fr_seq f = n \<and> n \<le> em_seq (emitter s))"

lemma stream_okD:
  assumes "stream_ok s"
  shows "sorted_wrt (<) (map fst (firehose_events (db s)))"
    and "(n, f) \<in> set (firehose_events (db s)) \<Longrightarrow> fr_seq f = n"
    and "(n, f) \<in> set (firehose_events (db s)) \<Longrightarrow> n \<le> em_seq (emitter s)"
  using assms by (auto simp: stream_ok_def)

lemma sorted_wrt_snoc: "sorted_wrt P (xs @ [x]) \<longleftrightarrow> sorted_wrt P xs \<and> (\<forall>y \<in> set xs. P y x)"
  by (simp add: sorted_wrt_append)

text \<open>The outcomes of one publication.\<close>

lemma publish_InrD:
  assumes "publish E ty ev s = (Inr (), t)"
  shows "\<exists>b. event_body E (em_seq (emitter s) + 1) ev = Inr b \<and> \<not> fault E (tick s) \<and>
     t = s\<lparr>tick := Suc (tick s),
           db := (db s)\<lparr>firehose_events := firehose_events (db s) @
             [(em_seq (emitter s) + 1,
               \<lparr>fr_seq = em_seq (emitter s) + 1, fr_type = ty, fr_event = ev\<rparr>)]\<rparr>,
           emitter := (emitter s)\<lparr>em_seq := em_seq (emitter s) + 1,
             em_subs := broadcast \<lparr>fr_seq = em_seq (emitter s) + 1, fr_type = ty, fr_event = ev\<rparr>
                          (em_subs (emitter s))\<rparr>\<rparr>"
  using assms
  by (auto simp: publish_def set_seq_def Let_def go_inv table_simps split: sum.splits)

lemma publish_InlD:
  assumes "publish E ty ev s = (Inl e, t)"
  shows "firehose_events (db t) = firehose_events (db s)"
    and "em_seq (emitter s) \<le> em_seq (emitter t)"
    and "em_subs (emitter t) = em_subs (emitter s)"
proof -
  have "firehose_events (db t) = firehose_events (db s) \<and>
        em_seq (emitter s) \<le> em_seq (emitter t) \<and> em_subs (emitter t) = em_subs (emitter s)"
    using assms
    by (auto simp: publish_def set_seq_def Let_def go_inv dest!: sql_InlD split: sum.splits)
  then show "firehose_events (db t) = firehose_events (db s)"
    and "em_seq (emitter s) \<le> em_seq (emitter t)"
    and "em_subs (emitter t) = em_subs (emitter s)" by auto
qed

lemma publish_stream_ok:
  assumes ok: "stream_ok s" and run: "publish E ty ev s = (r, t)"
  shows "stream_ok t"
proof (cases r)
  case (Inl e)
  then show ?thesis
    using ok publish_InlD [of E ty ev s e t] run by (fastforce simp: stream_ok_def)
next
  case (Inr u)
  then have "publish E ty ev s = (Inr (), t)" using run by simp
  from publish_InrD [OF this] ok show ?thesis
    by (fastforce simp: stream_ok_def sorted_wrt_snoc)
qed

text \<open>A fresh emitter on the same database continues after the last persisted number.\<close>

lemma new_emitter_stream_ok:
  assumes "stream_ok s" and "new_emitter E s = (Inr (), t)" and "\<not> fault E (tick s)"
  shows "stream_ok t \<and> em_seq (emitter t) = max_seq (firehose_events (db s))"
  using assms
  by (auto simp: new_emitter_def go_inv sql_def Let_def q_rows_def stream_ok_def max_seq_def
      split: sum.splits intro!: Max_ge image_eqI)

text \<open>The tables a publication does not touch, and the memory of the other components.\<close>

lemma keeps_set_seq: "(\<And>s e. f (s\<lparr>emitter := e\<rparr>) = f s) \<Longrightarrow> keeps f (set_seq g)"
  by (simp add: set_seq_def keeps_modify)

lemma publish_keeps:
  assumes "\<And>s e. f (s\<lparr>emitter := e\<rparr>) = f s"
    and "\<And>s n. f (s\<lparr>tick := n\<rparr>) = f s"
    and "\<And>s n t. f (s\<lparr>tick := n, db := (db s)\<lparr>firehose_events := t\<rparr>\<rparr>) = f s"
  shows "keeps f (publish E ty ev)"
  unfolding publish_def Let_def
  by (intro keeps_intro keeps_set_seq keeps_modify keeps_sql assms)
     (auto simp: go_inv assms split: sum.splits)

section \<open>Properties\<close>

text \<open>The log stays in order: every publication, whether it succeeds or fails at
  serialisation or at the insert, keeps the persisted frames in strictly increasing order of
  their numbers, each frame carrying its row's number, none beyond the counter.\<close>

theorem publish_keeps_order:
  assumes "stream_ok s"
  shows "stream_ok (snd (publish E ty ev s))"
  using publish_stream_ok [OF assms] by (metis prod.collapse)

text \<open>A successful publication appends exactly one frame, numbered one past the counter, and
  offers that same frame to every live subscriber.\<close>

theorem publish_appends:
  assumes "publish E ty ev s = (Inr (), t)"
  shows "firehose_events (db t) = firehose_events (db s) @
      [(em_seq (emitter s) + 1, \<lparr>fr_seq = em_seq (emitter s) + 1, fr_type = ty, fr_event = ev\<rparr>)] \<and>
    em_seq (emitter t) = em_seq (emitter s) + 1 \<and>
    map fst (em_subs (emitter t)) = map fst (em_subs (emitter s)) \<and>
    map snd (em_subs (emitter t)) =
      map (\<lambda>q. offer \<lparr>fr_seq = em_seq (emitter s) + 1, fr_type = ty, fr_event = ev\<rparr> q)
        (map snd (em_subs (emitter s)))"
  using publish_InrD [OF assms] by (auto simp: broadcast_def)

text \<open>A restarted emitter continues the numbering of the persisted log.\<close>

theorem new_emitter_continues:
  assumes "stream_ok s" and "\<not> fault E (tick s)"
  shows "stream_ok (snd (new_emitter E s)) \<and>
    em_seq (emitter (snd (new_emitter E s))) = max_seq (firehose_events (db s))"
proof -
  obtain u t where t: "new_emitter E s = (u, t)" by fastforce
  then have "u = Inr ()" by (auto simp: new_emitter_def go_bind_def go_try_def go_modify_def split: prod.splits)
  with t show ?thesis using new_emitter_stream_ok [OF assms(1) _ assms(2)] by simp
qed

end
