(* ===== verification/Blockstore.thy ===== *)
theory Blockstore
  imports State
begin

text \<open>
  \<open>internal/db/blockstore.go\<close>, \<open>internal/repo/recording.go\<close> and \<open>internal/repo/car.go\<close>:
  the content-addressed store of blocks, the wrapper that records which blocks a write put,
  and the CAR writer with its length prefixes. \<open>run_blk\<close> runs a library function on a
  blockstore.
\<close>

section \<open>SQLBlockstore\<close>

definition bs_get :: "'r env \<Rightarrow> cid \<Rightarrow> ('r pds, bytes) go" where
  "bs_get E c s =
     (case sql E (q_row (\<lambda>d. tbl_get blk_cid c (repo_blocks d))) s of
        (Inl SqlNoRows, t) \<Rightarrow> (Inl (Failure ''block not found''), t)
      | (Inl e, t) \<Rightarrow> (Inl e, t)
      | (Inr b, t) \<Rightarrow> (Inr (blk_data b), t))"

definition bs_put :: "'r env \<Rightarrow> cid \<Rightarrow> bytes \<Rightarrow> ('r pds, unit) go" where
  "bs_put E c data = sql E (q_exec (\<lambda>d. d\<lparr>repo_blocks :=
     tbl_ignore blk_cid \<lparr>blk_cid = c, blk_data = data, blk_size = length data\<rparr> (repo_blocks d)\<rparr>))"

definition bs_has :: "'r env \<Rightarrow> cid \<Rightarrow> ('r pds, bool) go" where
  "bs_has E c s =
     (case sql E (q_row (\<lambda>d. tbl_get blk_cid c (repo_blocks d))) s of
        (Inl SqlNoRows, t) \<Rightarrow> (Inr False, t)
      | (Inl e, t) \<Rightarrow> (Inl e, t)
      | (Inr b, t) \<Rightarrow> (Inr True, t))"

section \<open>recordingBlockstore\<close>

definition rec_get :: "'r env \<Rightarrow> cid \<Rightarrow> ('r pds, bytes) go" where
  "rec_get E c = bs_get E c"

text \<open>A put is recorded only while a recording is open, and only once it has succeeded.\<close>

definition rec_put :: "'r env \<Rightarrow> cid \<Rightarrow> bytes \<Rightarrow> ('r pds, unit) go" where
  "rec_put E c data =
     go_bind (bs_put E c data) (\<lambda>_.
     go_modify (\<lambda>s. s\<lparr>recorded := map_option (\<lambda>cs. List.insert c cs) (recorded s)\<rparr>))"

definition rec_begin :: "('r pds, unit) go" where
  "rec_begin = go_modify (\<lambda>s. s\<lparr>recorded := Some []\<rparr>)"

definition rec_drain :: "('r pds, cid list) go" where
  "rec_drain =
     go_bind (go_reads recorded) (\<lambda>m.
     go_bind (go_modify (\<lambda>s. s\<lparr>recorded := None\<rparr>)) (\<lambda>_.
     go_ret (case m of None \<Rightarrow> [] | Some cs \<Rightarrow> cs)))"

section \<open>Library functions on a blockstore\<close>

primrec run_blk :: "(cid \<Rightarrow> ('s, bytes) go) \<Rightarrow> (cid \<Rightarrow> bytes \<Rightarrow> ('s, unit) go) \<Rightarrow> 'a blk_prog \<Rightarrow> ('s, 'a) go" where
  "run_blk get put (Done x) = go_ret x"
| "run_blk get put (GetBlk c k) = go_bind (go_try (get c)) (\<lambda>r. run_blk get put (k r))"
| "run_blk get put (PutBlk c data k) =
     go_bind (go_try (put c data)) (\<lambda>r.
     run_blk get put (k (case r of Inl e \<Rightarrow> Some e | Inr _ \<Rightarrow> None)))"

section \<open>CAR files\<close>

text \<open>
  \<open>binary.PutUvarint\<close>: seven bits a byte, least significant first, the high bit set on all
  but the last. The buffer of \<open>writeCarBlock\<close> has \<open>MaxVarintLen64\<close> = 10 bytes.
\<close>

fun put_uvarint :: "nat \<Rightarrow> bytes" where
  "put_uvarint n =
     (if n < 128 then [char_of n] else char_of (n mod 128 + 128) # put_uvarint (n div 128))"

declare put_uvarint.simps [simp del]

text \<open>The reader's side (\<open>binary.Uvarint\<close>): the value and the rest of the input.\<close>

fun read_uvarint :: "bytes \<Rightarrow> (nat \<times> bytes) option" where
  "read_uvarint [] = None"
| "read_uvarint (c # cs) =
     (let b = (of_char c :: nat)
      in if b < 128 then Some (b, cs)
         else map_option (\<lambda>(n, r). (b - 128 + 128 * n, r)) (read_uvarint cs))"

lemma read_put_uvarint: "read_uvarint (put_uvarint n @ rest) = Some (n, rest)"
proof (induction n rule: put_uvarint.induct)
  case (1 n)
  show ?case
  proof (cases "n < 128")
    case True
    then show ?thesis by (simp add: put_uvarint.simps [of n])
  next
    case False
    have lt: "n mod 128 + 128 < 256" by simp
    have "n mod 128 + 128 * (n div 128) = n" by simp
    with False 1 lt show ?thesis by (simp add: put_uvarint.simps [of n] Let_def)
  qed
qed

lemma put_uvarint_length: "n < 128 ^ k \<Longrightarrow> 0 < k \<Longrightarrow> length (put_uvarint n) \<le> k"
proof (induction k arbitrary: n)
  case 0
  then show ?case by simp
next
  case (Suc k)
  show ?case
  proof (cases "n < 128")
    case True
    then show ?thesis by (simp add: put_uvarint.simps [of n])
  next
    case False
    with Suc.prems have "0 < k" by (cases k) auto
    moreover have "n div 128 < 128 ^ k" using Suc.prems by (simp add: less_mult_imp_div_less mult.commute)
    ultimately have "length (put_uvarint (n div 128)) \<le> k" by (intro Suc.IH)
    with False show ?thesis by (simp add: put_uvarint.simps [of n])
  qed
qed

text \<open>A function that also writes to an \<open>io.Writer\<close>: the bytes written are part of the state.\<close>

type_synonym ('s, 'a) writer = "('s \<times> bytes, 'a) go"

definition w_lift :: "('s, 'a) go \<Rightarrow> ('s, 'a) writer" where
  "w_lift m = (\<lambda>(s, w). case m s of (r, t) \<Rightarrow> (r, (t, w)))"

definition w_emit :: "bytes \<Rightarrow> ('s, unit) writer" where
  "w_emit bs = (\<lambda>(s, w). (Inr (), (s, w @ bs)))"

text \<open>Writing into a \<open>bytes.Buffer\<close>.\<close>

definition w_buffer :: "('s, unit) writer \<Rightarrow> ('s, bytes) go" where
  "w_buffer m s = (case m (s, []) of (Inl e, (t, w)) \<Rightarrow> (Inl e, t) | (Inr _, (t, w)) \<Rightarrow> (Inr w, t))"

lemma w_lift_iff [go_inv]: "w_lift m (s, w) = (r, (t, w')) \<longleftrightarrow> m s = (r, t) \<and> w' = w"
  by (auto simp: w_lift_def split: prod.splits)

lemma w_emit_iff [go_inv]: "w_emit bs (s, w) = (r, (t, w')) \<longleftrightarrow> r = Inr () \<and> t = s \<and> w' = w @ bs"
  by (auto simp: w_emit_def)

text \<open>\<open>if err != nil { return ... }\<close> before the rest: a run that succeeds took the rest.\<close>

lemma raise_or_Inr_iff [go_inv]:
  "(case r of Inl e \<Rightarrow> go_raise (f e) | Inr x \<Rightarrow> m x) s = (Inr y, t) \<longleftrightarrow> (\<exists>x. r = Inr x \<and> m x s = (Inr y, t))"
  by (auto simp: go_raise_def split: sum.splits)

definition writeCarHeader :: "'r env \<Rightarrow> cid list \<Rightarrow> ('r pds, unit) writer" where
  "writeCarHeader E roots = (case car_header E roots of Inl e \<Rightarrow> go_raise e | Inr h \<Rightarrow> w_emit h)"

definition car_block :: "bytes \<Rightarrow> bytes \<Rightarrow> bytes" where
  "car_block c data = put_uvarint (length c + length data) @ c @ data"

definition writeCarBlock :: "bytes \<Rightarrow> bytes \<Rightarrow> ('s, unit) writer" where
  "writeCarBlock c data =
     go_bind (w_emit (put_uvarint (length c + length data))) (\<lambda>_.
     go_bind (w_emit c) (\<lambda>_.
     w_emit data))"

lemma writeCarBlock_run: "writeCarBlock c data (s, w) = (Inr (), (s, w @ car_block c data))"
  by (simp add: writeCarBlock_def w_emit_def go_bind_def car_block_def)

text \<open>The loop over the blocks of a repo, with or without the wrapped error.\<close>

definition write_blocks :: "'r env \<Rightarrow> (go_error \<Rightarrow> go_error) \<Rightarrow> cid list \<Rightarrow> ('r pds, unit) writer" where
  "write_blocks E f cids = go_foreach (\<lambda>c.
     go_bind (w_lift (go_try (bs_get E c))) (\<lambda>r.
       case r of Inl e \<Rightarrow> go_raise (f e) | Inr data \<Rightarrow> writeCarBlock c data)) cids"

text \<open>\<open>WriteBlocksCAR\<close>: the requested blocks, no root.\<close>

definition WriteBlocksCAR :: "'r env \<Rightarrow> cid list \<Rightarrow> ('r pds, unit) writer" where
  "WriteBlocksCAR E cids =
     go_bind (writeCarHeader E []) (\<lambda>_. write_blocks E (Wrap ''block'') cids)"

section \<open>Frames and effects\<close>

lemma bs_get_Inr_iff [go_inv]:
  "bs_get E c s = (Inr x, t) \<longleftrightarrow>
     \<not> fault E (tick s) \<and> t = s\<lparr>tick := Suc (tick s)\<rparr> \<and>
     (\<exists>b. tbl_get blk_cid c (repo_blocks (db s)) = Some b \<and> x = blk_data b)"
  by (auto simp: bs_get_def sql_def q_row_def Let_def split: option.splits go_error.splits)

lemma bs_get_run:
  "\<not> fault E (tick s) \<Longrightarrow> tbl_get blk_cid c (repo_blocks (db s)) = Some b \<Longrightarrow>
   bs_get E c s = (Inr (blk_data b), s\<lparr>tick := Suc (tick s)\<rparr>)"
  by (simp add: go_inv)

lemma bs_get_state: "bs_get E c s = (r, t) \<Longrightarrow> t = s\<lparr>tick := Suc (tick s)\<rparr>"
  by (auto simp: bs_get_def sql_def q_row_def Let_def split: option.splits go_error.splits if_splits)

lemma keeps_bs_get [keeps_intro]: "(\<And>s n. f (s\<lparr>tick := n\<rparr>) = f s) \<Longrightarrow> keeps f (bs_get E c)"
  by (rule keepsI) (auto dest: bs_get_state)

lemma bs_put_state:
  "bs_put E c data s = (r, t) \<Longrightarrow>
     t = s\<lparr>tick := Suc (tick s)\<rparr> \<and> r = Inl SqlFault \<or>
     r = Inr () \<and> t = s\<lparr>tick := Suc (tick s), db := (db s)\<lparr>repo_blocks :=
       tbl_ignore blk_cid \<lparr>blk_cid = c, blk_data = data, blk_size = length data\<rparr> (repo_blocks (db s))\<rparr>\<rparr>"
  by (auto simp: bs_put_def sql_def q_exec_def Let_def split: if_splits)

lemma keeps_bs_put:
  assumes "\<And>s n. f (s\<lparr>tick := n\<rparr>) = f s"
    and "\<And>s n t. f (s\<lparr>tick := n, db := (db s)\<lparr>repo_blocks := t\<rparr>\<rparr>) = f s"
  shows "keeps f (bs_put E c data)"
  by (rule keepsI) (auto dest!: bs_put_state simp: assms)

lemma keeps_rec_put:
  assumes "\<And>s n. f (s\<lparr>tick := n\<rparr>) = f s"
    and "\<And>s n t. f (s\<lparr>tick := n, db := (db s)\<lparr>repo_blocks := t\<rparr>\<rparr>) = f s"
    and "\<And>s r. f (s\<lparr>recorded := r\<rparr>) = f s"
  shows "keeps f (rec_put E c data)"
  unfolding rec_put_def by (intro keeps_intro keeps_bs_put keeps_modify assms)

lemma keeps_run_blk:
  "(\<And>c. keeps f (get c)) \<Longrightarrow> (\<And>c d. keeps f (put c d)) \<Longrightarrow> keeps f (run_blk get put p)"
  by (induction p) (auto intro!: keeps_bind keeps_try keeps_ret)

section \<open>Reading a CAR back\<close>

lemma read_uvarint_shorter: "read_uvarint bs = Some (n, r) \<Longrightarrow> length r < length bs"
  by (induction bs arbitrary: n r) (simp, fastforce simp: Let_def split: if_splits)

text \<open>The sections after the header: a length and that many bytes (a CID and its block).\<close>

function car_sections :: "bytes \<Rightarrow> bytes list option" where
  "car_sections [] = Some []"
| "car_sections (c # cs) =
     (case read_uvarint (c # cs) of
        None \<Rightarrow> None
      | Some (n, r) \<Rightarrow>
          if length r < n then None else map_option ((#) (take n r)) (car_sections (drop n r)))"
  by pat_completeness auto
termination
  by (relation "measure length") (auto dest: read_uvarint_shorter simp del: read_uvarint.simps)

declare car_sections.simps [simp del]

lemma put_uvarint_not_Nil: "put_uvarint n \<noteq> []"
  by (simp add: put_uvarint.simps [of n])

lemma car_sections_block:
  "car_sections (car_block c data @ rest) = map_option ((#) (c @ data)) (car_sections rest)"
proof -
  obtain x xs where x: "car_block c data @ rest = x # xs"
    using put_uvarint_not_Nil by (cases "car_block c data @ rest") (auto simp: car_block_def)
  have "read_uvarint (x # xs) = Some (length c + length data, c @ data @ rest)"
    using read_put_uvarint x by (metis append.assoc car_block_def)
  then show ?thesis unfolding x by (simp add: car_sections.simps)
qed


text \<open>A length prefix fits the buffer of \<open>MaxVarintLen64\<close> bytes that \<open>writeCarBlock\<close>
  allocates, for every 64-bit length, and reads back as that length.\<close>

theorem uvarint_fits:
  assumes "n < 2 ^ 64"
  shows "length (put_uvarint n) \<le> 10 \<and> read_uvarint (put_uvarint n) = Some (n, [])"
proof -
  have "(2::nat) ^ 64 \<le> 128 ^ 10" by simp
  then have "n < 128 ^ 10" using assms by linarith
  then show ?thesis using put_uvarint_length [of n 10] read_put_uvarint [of n "[]"] by simp
qed

theorem uvarint_fits_witness:
  "length (put_uvarint 300) \<le> 10 \<and> read_uvarint (put_uvarint 300) = Some (300, [])"
  using uvarint_fits [of 300] by simp

end
