(* ===== verification/Blob.thy ===== *)
theory Blob
  imports State
begin

text \<open>
  \<open>internal/blob/blob.go\<close>: blobs are files named by their CID under \<open>blob_root\<close>, with a row
  of metadata per CID. The temporary file of an upload lives only between its creation and
  the deferred \<open>os.Remove\<close>, on every path, so \<open>files\<close> shows only the renamed one. The
  lemmas keep the invariant that a row's path is the name of its CID, and use it to show that
  what one account does leaves the blobs of another alone.
\<close>

section \<open>Uploading and reading\<close>

definition blob_path :: "'r env \<Rightarrow> string \<Rightarrow> cid \<Rightarrow> string" where
  "blob_path E root c = root @ ''/'' @ cid_string E c"

text \<open>
  \<open>INSERT INTO blobs ... ON CONFLICT(cid) DO NOTHING\<close>: a new row must name an existing
  account (\<open>REFERENCES accounts(did)\<close>); a conflicting one is not inserted at all.
\<close>

definition insert_blob :: "blob_row \<Rightarrow> (database, unit) go" where
  "insert_blob r = q_try (\<lambda>d.
     if tbl_has bl_cid (bl_cid r) (blobs d) then Inr d
     else if \<not> tbl_has acc_did (bl_did r) (accounts d) then Inl SqlConstraint
     else Inr (d\<lparr>blobs := blobs d @ [r]\<rparr>))"

text \<open>
  \<open>Put\<close>. \<open>rd\<close> is what the reader yields until EOF, or its error. The CID is built from the
  multihash of the digest \<open>h.Sum(nil)\<close>, as the code has it.
\<close>

definition blob_put :: "'r env \<Rightarrow> string \<Rightarrow> did \<Rightarrow> string \<Rightarrow> go_error + bytes \<Rightarrow> ('r pds, cid \<times> nat) go" where
  "blob_put E root did mime rd =
     go_bind (os_call E ''create temp'' (go_ret ())) (\<lambda>_.
     go_bind (go_of rd) (\<lambda>data.
     go_bind (os_call E ''close temp'' (go_ret ())) (\<lambda>_.
     go_bind (go_of (raw_cid E (sha256 E data))) (\<lambda>c.
     go_bind (os_call E ''rename''
        (go_modify (\<lambda>s. s\<lparr>files := (files s)(blob_path E root c \<mapsto> data)\<rparr>))) (\<lambda>_.
     go_bind (go_reads (\<lambda>s. tid_next E (tick s))) (\<lambda>tid.
     go_bind (sql E (insert_blob
        \<lparr>bl_cid = c, bl_did = did, bl_size = length data, bl_mime = Some mime,
         bl_path = blob_path E root c, bl_created_at = tid\<rparr>)) (\<lambda>_.
     go_ret (c, length data))))))))"

text \<open>\<open>Open\<close>: a NULL mime type does not scan into a string.\<close>

definition blob_open :: "'r env \<Rightarrow> did \<Rightarrow> cid \<Rightarrow> ('r pds, bytes \<times> string \<times> nat) go" where
  "blob_open E did c =
     go_bind (sql E (q_row (\<lambda>d. find (\<lambda>r. bl_cid r = c \<and> bl_did r = did) (blobs d)))) (\<lambda>r.
     case bl_mime r of
       None \<Rightarrow> go_raise (Failure ''converting NULL to string'')
     | Some mime \<Rightarrow>
         go_bind (os_call E ''open'' (\<lambda>s.
            case files s (bl_path r) of
              None \<Rightarrow> (Inl (Failure ''file does not exist''), s)
            | Some data \<Rightarrow> (Inr data, s))) (\<lambda>data.
         go_ret (data, mime, bl_size r)))"

section \<open>Deleting an account's blobs\<close>

text \<open>\<open>os.Remove\<close>, its error dropped.\<close>

definition remove_file :: "'r env \<Rightarrow> string \<Rightarrow> ('r pds, unit) go" where
  "remove_file E p =
     go_bind (go_try (os_call E ''remove'' (go_modify (\<lambda>s. s\<lparr>files := (files s)(p := None)\<rparr>)))) (\<lambda>_.
     go_ret ())"

definition DeleteForDID :: "'r env \<Rightarrow> did \<Rightarrow> ('r pds, unit) go" where
  "DeleteForDID E did =
     go_bind (sql E (q_rows (\<lambda>d. map bl_path (filter (\<lambda>r. bl_did r = did) (blobs d))))) (\<lambda>paths.
     go_bind (go_foreach (remove_file E) paths) (\<lambda>_.
     sql E (q_exec (\<lambda>d. d\<lparr>blobs := tbl_delete (\<lambda>r. bl_did r = did) (blobs d)\<rparr>))))"

section \<open>Listing\<close>

definition blob_rows :: "did \<Rightarrow> string \<Rightarrow> string \<Rightarrow> database \<Rightarrow> blob_row list" where
  "blob_rows did since cursor d =
     order_asc bl_created_at (filter (\<lambda>r. bl_did r = did \<and>
        (since = [] \<or> since < bl_created_at r) \<and> (cursor = [] \<or> cursor < bl_created_at r)) (blobs d))"

text \<open>
  \<open>List\<close>: \<open>lastCreated\<close> is the timestamp of the last row read, and the page is cut to the
  limit after it has been set.
\<close>

definition blob_list ::
  "'r env \<Rightarrow> did \<Rightarrow> string \<Rightarrow> string \<Rightarrow> nat \<Rightarrow> ('r pds, string list \<times> string option) go" where
  "blob_list E did since cursor limit =
     go_bind (sql E (q_rows (\<lambda>d. take (Suc limit) (blob_rows did since cursor d)))) (\<lambda>rows.
     go_bind (go_of (scan_all (\<lambda>r.
        case cid_cast E (bl_cid r) of Inl e \<Rightarrow> Inl e | Inr c \<Rightarrow> Inr (cid_string E c, bl_created_at r)) rows)) (\<lambda>items.
     go_ret (if length items > limit
             then (map fst (take limit items), Some (snd (last items)))
             else (map fst items, None))))"

section \<open>The invariant of the blob table\<close>

text \<open>One row per CID, and every row's file is the one named by its CID.\<close>

definition blobs_ok :: "'r env \<Rightarrow> string \<Rightarrow> database \<Rightarrow> bool" where
  "blobs_ok E root d \<longleftrightarrow>
     tbl_keys_ok bl_cid (blobs d) \<and> (\<forall>r \<in> set (blobs d). bl_path r = blob_path E root (bl_cid r))"

lemma blobs_ok_same: "blobs d' = blobs d \<Longrightarrow> blobs_ok E root d' = blobs_ok E root d"
  by (simp add: blobs_ok_def)

lemma insert_blob_Inr [go_inv]:
  "insert_blob r d = (Inr x, d') \<longleftrightarrow>
     (if tbl_has bl_cid (bl_cid r) (blobs d) then d' = d
      else tbl_has acc_did (bl_did r) (accounts d) \<and> d' = d\<lparr>blobs := blobs d @ [r]\<rparr>)"
  by (auto simp: insert_blob_def go_inv)

lemma insert_blob_ok:
  "blobs_ok E root d \<Longrightarrow> bl_path r = blob_path E root (bl_cid r) \<Longrightarrow> insert_blob r d = (Inr x, d') \<Longrightarrow>
   blobs_ok E root d'"
  by (auto simp: go_inv blobs_ok_def tbl_keys_ok_def tbl_has_iff split: if_splits)

lemma blob_put_ok: "preserves (\<lambda>s. blobs_ok E root (db s)) (blob_put E root did mime rd)"
  unfolding blob_put_def
  by (intro preserves_intro preserves_os_call preserves_modify preserves_sql)
     (auto elim!: insert_blob_ok)

lemma remove_file_run:
  "\<exists>u. remove_file E q s = (Inr (), u) \<and> db u = db s \<and> (\<forall>p. p \<noteq> q \<longrightarrow> files u p = files s p)"
  by (simp add: remove_file_def go_defs os_call_def Let_def)

lemma remove_files:
  "\<exists>u. go_foreach (remove_file E) ps s = (Inr (), u) \<and> db u = db s \<and>
     (\<forall>p. p \<notin> set ps \<longrightarrow> files u p = files s p)"
proof (induction ps arbitrary: s)
  case Nil
  then show ?case by (simp add: go_inv)
next
  case (Cons q ps)
  obtain u where u: "remove_file E q s = (Inr (), u)" "db u = db s" "\<forall>p. p \<noteq> q \<longrightarrow> files u p = files s p"
    using remove_file_run by blast
  obtain v where v: "go_foreach (remove_file E) ps u = (Inr (), v)" "db v = db u"
      "\<forall>p. p \<notin> set ps \<longrightarrow> files v p = files u p"
    using Cons.IH by blast
  with u show ?case by (intro exI [of _ v]) (simp add: go_bind_run)
qed

text \<open>Distinct CIDs have distinct files.\<close>

lemma blobs_ok_path:
  assumes "blobs_ok E root d" and "inj (cid_string E)" and "b \<in> set (blobs d)" and "b' \<in> set (blobs d)"
    and "bl_path b = bl_path b'"
  shows "b = b'"
proof -
  have "bl_cid b = bl_cid b'"
    using assms by (simp add: blobs_ok_def blob_path_def inj_eq)
  then show ?thesis
    using assms by (simp add: blobs_ok_def tbl_keys_ok_def distinct_map inj_on_def)
qed

lemma DeleteForDID_cases:
  assumes "DeleteForDID E did s = (r, t)"
  shows "(blobs (db t) = blobs (db s) \<or> blobs (db t) = tbl_delete (\<lambda>r. bl_did r = did) (blobs (db s))) \<and>
    (\<forall>p. p \<notin> bl_path ` {b \<in> set (blobs (db s)). bl_did b = did} \<longrightarrow> files t p = files s p)"
proof (cases "fault E (tick s)")
  case True
  then show ?thesis using assms by (auto simp: DeleteForDID_def go_bind_def sql_def)
next
  case False
  let ?u = "s\<lparr>tick := Suc (tick s)\<rparr>"
  let ?ps = "map bl_path (filter (\<lambda>r. bl_did r = did) (blobs (db s)))"
  obtain v where v: "go_foreach (remove_file E) ?ps ?u = (Inr (), v)" "db v = db ?u"
      "\<forall>p. p \<notin> set ?ps \<longrightarrow> files v p = files ?u p"
    using remove_files by blast
  have "sql E (q_exec (\<lambda>d. d\<lparr>blobs := tbl_delete (\<lambda>r. bl_did r = did) (blobs d)\<rparr>)) v = (r, t)"
    using assms False v(1) by (simp add: DeleteForDID_def go_bind_def sql_def q_rows_def Let_def)
  with v(2,3) show ?thesis
    by (auto simp: sql_def q_exec_def Let_def split: if_splits)
qed

lemma DeleteForDID_ok: "preserves (\<lambda>s. blobs_ok E root (db s)) (DeleteForDID E did)"
proof (rule preservesI)
  fix s r t
  assume "blobs_ok E root (db s)" and "DeleteForDID E did s = (r, t)"
  then show "blobs_ok E root (db t)"
    using DeleteForDID_cases [of E did s r t]
    by (auto simp: blobs_ok_def tbl_keys_ok_delete) (auto simp: tbl_delete_def)
qed

text \<open>The rows and the files of other accounts.\<close>

lemma DeleteForDID_others:
  assumes "DeleteForDID E did s = (r, t)"
  shows "filter (\<lambda>b. bl_did b \<noteq> did) (blobs (db t)) = filter (\<lambda>b. bl_did b \<noteq> did) (blobs (db s))"
  using DeleteForDID_cases [OF assms] by (auto simp: tbl_delete_def)

lemma DeleteForDID_other_files:
  assumes ok: "blobs_ok E root (db s)" and run: "DeleteForDID E did s = (r, t)"
    and inj: "inj (cid_string E)" and b: "b \<in> set (blobs (db s))" "bl_did b \<noteq> did"
  shows "files t (bl_path b) = files s (bl_path b)"
proof -
  have "bl_path b \<notin> bl_path ` {b \<in> set (blobs (db s)). bl_did b = did}"
    using blobs_ok_path [OF ok inj b(1)] b(2) by fastforce
  then show ?thesis using DeleteForDID_cases [OF run] by blast
qed

section \<open>Properties\<close>

lemma blob_put_InrD:
  assumes "blob_put E root did mime (Inr data) s = (Inr (c, n), t)"
  shows "raw_cid E (sha256 E data) = Inr c" and "n = length data"
    and "files t = (files s)(blob_path E root c \<mapsto> data)"
    and "\<exists>tid d. insert_blob \<lparr>bl_cid = c, bl_did = did, bl_size = length data, bl_mime = Some mime,
           bl_path = blob_path E root c, bl_created_at = tid\<rparr> (db s) = (Inr (), d) \<and> db t = d"
  using assms by (auto simp: blob_put_def go_inv)

lemma blob_open_run:
  assumes "\<not> fault E (tick t)" and "\<not> fault E (Suc (tick t))"
  shows "fst (blob_open E did c t) =
    (case find (\<lambda>r. bl_cid r = c \<and> bl_did r = did) (blobs (db t)) of
       None \<Rightarrow> Inl SqlNoRows
     | Some r \<Rightarrow> (case bl_mime r of
           None \<Rightarrow> Inl (Failure ''converting NULL to string'')
         | Some m \<Rightarrow> (case files t (bl_path r) of
               None \<Rightarrow> Inl (Failure ''file does not exist'')
             | Some data \<Rightarrow> Inr (data, m, bl_size r))))"
  using assms
  by (auto simp: blob_open_def go_bind_def sql_def q_row_def os_call_def go_raise_def go_ret_def Let_def
      split: option.splits)

text \<open>An uploaded blob can be read back: when the CID was not stored yet, \<open>Open\<close> returns the
  bytes, the mime type and the size \<open>Put\<close> was given.\<close>

theorem blob_put_open:
  assumes put: "blob_put E root did mime (Inr data) s = (Inr (c, n), t)"
    and new: "tbl_get bl_cid c (blobs (db s)) = None"
    and up: "\<not> fault E (tick t)" "\<not> fault E (Suc (tick t))"
  shows "n = length data \<and> fst (blob_open E did c t) = Inr (data, mime, length data)"
proof -
  note P = blob_put_InrD [OF put]
  from P(4) new obtain tid where
    b: "blobs (db t) = blobs (db s) @ [\<lparr>bl_cid = c, bl_did = did, bl_size = length data, bl_mime = Some mime,
           bl_path = blob_path E root c, bl_created_at = tid\<rparr>]"
    by (auto simp: insert_blob_Inr tbl_has_iff tbl_get_None_iff)
  have "find (\<lambda>r. bl_cid r = c \<and> bl_did r = did) (blobs (db s)) = None"
    using new by (auto simp: find_None_iff tbl_get_None_iff)
  then have "find (\<lambda>r. bl_cid r = c \<and> bl_did r = did) (blobs (db t)) =
      Some \<lparr>bl_cid = c, bl_did = did, bl_size = length data, bl_mime = Some mime,
           bl_path = blob_path E root c, bl_created_at = tid\<rparr>"
    unfolding b by (induction "blobs (db s)") (auto simp: find_None_iff find_Some_iff nth_append)
  then show ?thesis using blob_open_run [OF up] P(2,3) by simp
qed

text \<open>A blob belongs to its first uploader: when another account already stored the same bytes,
  \<open>Put\<close> reports success and a CID, but the uploader has no blob of that CID.\<close>

theorem blob_second_uploader:
  assumes put: "blob_put E root did mime (Inr data) s = (Inr (c, n), t)"
    and ok: "blobs_ok E root (db s)" and other: "tbl_get bl_cid c (blobs (db s)) = Some r" "bl_did r \<noteq> did"
    and up: "\<not> fault E (tick t)" "\<not> fault E (Suc (tick t))"
  shows "blobs (db t) = blobs (db s) \<and> fst (blob_open E did c t) = Inl SqlNoRows"
proof -
  from blob_put_InrD(4) [OF put] other(1) have b: "blobs (db t) = blobs (db s)"
    by (auto simp: insert_blob_Inr tbl_has_iff dest!: tbl_get_Some split: if_splits)
  have "b = r" if "b \<in> set (blobs (db s))" "bl_cid b = c" for b
    using ok that tbl_get_mem [of bl_cid "blobs (db s)" b] other(1) by (simp add: blobs_ok_def)
  then have "find (\<lambda>r. bl_cid r = c \<and> bl_did r = did) (blobs (db s)) = None"
    using other(2) by (auto simp: find_None_iff)
  with b show ?thesis using blob_open_run [OF up] by simp
qed

text \<open>Deleting an account's blobs leaves what every other account can read as it was.\<close>

theorem blob_delete_isolated:
  assumes ok: "blobs_ok E root (db s)" and inj: "inj (cid_string E)"
    and run: "DeleteForDID E did s = (r, t)" and other: "did' \<noteq> did" and up: "no_faults E"
  shows "fst (blob_open E did' c t) = fst (blob_open E did' c s)"
proof -
  have find_filter: "find (\<lambda>r. bl_cid r = c \<and> bl_did r = did') bs =
      find (\<lambda>r. bl_cid r = c \<and> bl_did r = did') (filter (\<lambda>b. bl_did b \<noteq> did) bs)" for bs
    using other by (induction bs) auto
  have row: "find (\<lambda>r. bl_cid r = c \<and> bl_did r = did') (blobs (db t)) =
      find (\<lambda>r. bl_cid r = c \<and> bl_did r = did') (blobs (db s))"
    using find_filter [of "blobs (db t)"] find_filter [of "blobs (db s)"] DeleteForDID_others [OF run] by simp
  have path: "files t (bl_path b) = files s (bl_path b)"
    if "find (\<lambda>r. bl_cid r = c \<and> bl_did r = did') (blobs (db s)) = Some b" for b
    using that DeleteForDID_other_files [OF ok run inj] other by (auto simp: find_Some_iff)
  have "\<not> fault E k" for k using up by (simp add: no_faults_def)
  then show ?thesis using row path by (auto simp: blob_open_run split: option.splits)
qed

text \<open>The cursor of a blob page is the timestamp of the first blob it leaves out, and the next
  page starts after that timestamp: no page of the listing contains that blob.\<close>

theorem blob_list_skips:
  assumes up: "no_faults E"
    and cast: "\<And>r. r \<in> set (blobs (db s)) \<Longrightarrow> cid_cast E (bl_cid r) = Inr (bl_cid r)"
    and more: "limit < length (blob_rows did since cursor (db s))"
    and stamped: "bl_created_at (blob_rows did since cursor (db s) ! limit) \<noteq> []"
  shows "fst (blob_list E did since cursor limit s) =
      Inr (map (\<lambda>r. cid_string E (bl_cid r)) (take limit (blob_rows did since cursor (db s))),
           Some (bl_created_at (blob_rows did since cursor (db s) ! limit))) \<and>
    blob_rows did since cursor (db s) ! limit \<notin>
      set (blob_rows did since' (bl_created_at (blob_rows did since cursor (db s) ! limit)) (db s))"
proof -
  let ?rs = "blob_rows did since cursor (db s)"
  let ?f = "\<lambda>r. (cid_string E (bl_cid r), bl_created_at r)"
  have sub: "set ?rs \<subseteq> set (blobs (db s))" by (auto simp: blob_rows_def)
  have scan: "scan_all (\<lambda>r. case cid_cast E (bl_cid r) of Inl e \<Rightarrow> Inl e
      | Inr c \<Rightarrow> Inr (cid_string E c, bl_created_at r)) (take (Suc limit) ?rs) = Inr (map ?f (take (Suc limit) ?rs))"
    by (rule scan_all_total) (use cast sub in \<open>auto dest!: in_set_takeD\<close>)
  have take: "take (Suc limit) ?rs = take limit ?rs @ [?rs ! limit]"
    using more by (rule take_Suc_conv_app_nth)
  have "fst (blob_list E did since cursor limit s) =
      Inr (map (\<lambda>r. cid_string E (bl_cid r)) (take limit ?rs), Some (bl_created_at (?rs ! limit)))"
    using up more
    by (simp add: blob_list_def go_bind_def sql_def no_faults_def q_rows_def go_of_def scan go_ret_def Let_def)
       (simp add: take)
  then show ?thesis using stamped by (auto simp: blob_rows_def)
qed

end
