(* ===== verification/Manager.thy ===== *)
theory Manager
  imports Firehose Blockstore Blob Crypto
begin

text \<open>
  \<open>internal/repo/manager.go\<close>: the write path of a repo. The cache \<open>repos\<close> holds one open
  handle per account; a mutation changes the handle in place, so the cached handle of an
  account is what a failed operation left behind. A batch runs its operations on the handle,
  signs one commit, then brings the index \<open>repo_records\<close> up to date and publishes the event.
  The manager's lock makes each operation of this theory one atomic step.
\<close>

section \<open>Relays\<close>

definition ensureScheme :: "string \<Rightarrow> string" where
  "ensureScheme host =
     (if has_prefix host ''http://'' \<or> has_prefix host ''https://'' then host else ''https://'' @ host)"

definition notifyRelay :: "string \<Rightarrow> string \<Rightarrow> message" where
  "notifyRelay host pds_host =
     RequestCrawl (ensureScheme host @ ''/xrpc/com.atproto.sync.requestCrawl'') pds_host"

text \<open>The goroutine runs at once here; its query's error is dropped, as is any reply.\<close>

definition notifyRelays :: "'r env \<Rightarrow> ('r pds, unit) go" where
  "notifyRelays E =
     go_bind (go_reads public_url) (\<lambda>u.
     if u = [] then go_ret ()
     else go_bind (go_try (sql E (q_rows relays))) (\<lambda>r.
       case r of
         Inl e \<Rightarrow> go_ret ()
       | Inr rows \<Rightarrow> go_modify (\<lambda>s. s\<lparr>outbox := outbox s @ map (\<lambda>(h, _). notifyRelay h u) rows\<rparr>)))"

section \<open>Account and identity events\<close>

definition EmitAccount :: "'r env \<Rightarrow> did \<Rightarrow> bool \<Rightarrow> string option \<Rightarrow> ('r pds, unit) go" where
  "EmitAccount E did active status = publish E ''#account'' (AccountEvent did active status)"

definition EmitIdentity :: "'r env \<Rightarrow> did \<Rightarrow> string \<Rightarrow> ('r pds, unit) go" where
  "EmitIdentity E did handle = publish E ''#identity'' (IdentityEvent did (Some handle))"

section \<open>Reading the repo tables\<close>

definition commits_of :: "database \<Rightarrow> did \<Rightarrow> commit_row list" where
  "commits_of d did = filter (\<lambda>r. cm_did r = did) (repo_commits d)"

text \<open>\<open>SELECT ... FROM repo_commits WHERE did = ? ORDER BY rev DESC LIMIT 1\<close>.\<close>

definition head_row :: "database \<Rightarrow> did \<Rightarrow> commit_row option" where
  "head_row d did = top_row cm_rev (commits_of d did)"

text \<open>\<open>err == sql.ErrNoRows\<close> told apart from other errors.\<close>

definition or_no_rows :: "('s, 'a) go \<Rightarrow> ('s, 'a option) go" where
  "or_no_rows m s =
     (case m s of
        (Inl SqlNoRows, t) \<Rightarrow> (Inr None, t)
      | (Inl e, t) \<Rightarrow> (Inl e, t)
      | (Inr x, t) \<Rightarrow> (Inr (Some x), t))"

definition headCID :: "'r env \<Rightarrow> did \<Rightarrow> ('r pds, string) go" where
  "headCID E did =
     go_bind (or_no_rows (sql E (q_row (\<lambda>d. head_row d did)))) (\<lambda>row.
     case row of
       None \<Rightarrow> go_ret []
     | Some r \<Rightarrow> go_bind (go_of (cid_cast E (cm_cid r))) (\<lambda>c. go_ret (cid_string E c)))"

definition Head :: "'r env \<Rightarrow> did \<Rightarrow> ('r pds, cid \<times> string) go" where
  "Head E did =
     go_bind (sql E (q_row (\<lambda>d. head_row d did))) (\<lambda>r.
     go_bind (go_of (cid_cast E (cm_cid r))) (\<lambda>c.
     go_ret (c, cm_rev r)))"

definition recordCID :: "'r env \<Rightarrow> did \<Rightarrow> string \<Rightarrow> string \<Rightarrow> ('r pds, cid \<times> bool) go" where
  "recordCID E did collection rkey =
     go_bind (or_no_rows (sql E (q_row (\<lambda>d. tbl_get record_key (did, collection, rkey) (repo_records d))))) (\<lambda>row.
     case row of
       None \<Rightarrow> go_ret (cid_undef, False)
     | Some r \<Rightarrow> go_bind (go_of (cid_cast E (rr_cid r))) (\<lambda>c. go_ret (c, True)))"

definition path_of :: "string \<Rightarrow> string \<Rightarrow> string" where
  "path_of collection rkey = collection @ ''/'' @ rkey"

text \<open>\<open>batchRecordCID\<close>: the pending map first, then the index, whose answer it caches.\<close>

definition batchRecordCID ::
  "'r env \<Rightarrow> (string \<Rightarrow> cid option) \<Rightarrow> did \<Rightarrow> string \<Rightarrow> string \<Rightarrow>
   ('r pds, cid \<times> bool \<times> (string \<Rightarrow> cid option)) go" where
  "batchRecordCID E cur did collection rkey =
     (let key = path_of collection rkey
      in case cur key of
           Some c \<Rightarrow> go_ret (c, c \<noteq> cid_undef, cur)
         | None \<Rightarrow>
             go_bind (recordCID E did collection rkey) (\<lambda>(c, exists).
             go_ret (c, exists, cur(key \<mapsto> c))))"

definition GetRecord :: "'r env \<Rightarrow> did \<Rightarrow> string \<Rightarrow> string \<Rightarrow> ('r pds, string \<times> bytes) go" where
  "GetRecord E did collection rkey =
     go_bind (sql E (q_row (\<lambda>d. tbl_get record_key (did, collection, rkey) (repo_records d)))) (\<lambda>r.
     go_bind (go_of (cid_cast E (rr_cid r))) (\<lambda>c.
     go_ret (cid_string E c, rr_value r)))"

text \<open>\<open>RecordBlock\<close>: the raw block of a record.\<close>

definition RecordBlock :: "'r env \<Rightarrow> did \<Rightarrow> string \<Rightarrow> string \<Rightarrow> ('r pds, cid \<times> bytes) go" where
  "RecordBlock E did collection rkey =
     go_bind (sql E (q_row (\<lambda>d. tbl_get record_key (did, collection, rkey) (repo_records d)))) (\<lambda>r.
     go_bind (go_of (cid_cast E (rr_cid r))) (\<lambda>c.
     go_bind (bs_get E c) (\<lambda>data.
     go_ret (c, data))))"

section \<open>Incremental CARs\<close>

text \<open>\<open>RepoCids\<close>: the blocks of a repo, or those written after the revision \<open>since\<close>.\<close>

definition block_revs_of :: "database \<Rightarrow> did \<Rightarrow> string \<Rightarrow> block_rev_row list" where
  "block_revs_of d did since =
     filter (\<lambda>r. br_did r = did \<and> (since = [] \<or> since < br_rev r)) (repo_block_revs d)"

definition RepoCids :: "'r env \<Rightarrow> did \<Rightarrow> string \<Rightarrow> ('r pds, cid list) go" where
  "RepoCids E did since =
     go_bind (sql E (q_rows (\<lambda>d. block_revs_of d did since))) (\<lambda>rows.
     go_of (scan_all (\<lambda>r. cid_cast E (br_cid r)) rows))"

definition WriteRepoCAR :: "'r env \<Rightarrow> did \<Rightarrow> string \<Rightarrow> ('r pds, unit) writer" where
  "WriteRepoCAR E did since =
     go_bind (w_lift (Head E did)) (\<lambda>(head, _).
     go_bind (w_lift (RepoCids E did since)) (\<lambda>cids.
     go_bind (writeCarHeader E [head]) (\<lambda>_.
     write_blocks E id cids)))"

definition WriteRecordCAR :: "'r env \<Rightarrow> did \<Rightarrow> string \<Rightarrow> string \<Rightarrow> ('r pds, unit) writer" where
  "WriteRecordCAR E did collection rkey =
     go_bind (w_lift (RecordBlock E did collection rkey)) (\<lambda>(c, data).
     go_bind (writeCarHeader E [c]) (\<lambda>_.
     writeCarBlock c data))"

section \<open>Opening and committing\<close>

text \<open>\<open>open\<close>: the cached handle, or one opened at the head commit, or a new repo.\<close>

definition open_repo :: "'r env \<Rightarrow> did \<Rightarrow> ('r pds, 'r) go" where
  "open_repo E did =
     go_bind (go_reads (\<lambda>s. repos s did)) (\<lambda>cached.
     case cached of
       Some r \<Rightarrow> go_ret r
     | None \<Rightarrow>
         go_bind (or_no_rows (sql E (q_row (\<lambda>d. head_row d did)))) (\<lambda>row.
         go_bind
           (case row of
              None \<Rightarrow> go_ret (ix_new E did)
            | Some c \<Rightarrow>
                go_bind (go_of (cid_cast E (cm_cid c))) (\<lambda>head.
                go_bind (run_blk (rec_get E) (rec_put E) (ix_open E head)) (\<lambda>res.
                case res of Inl e \<Rightarrow> go_raise (Wrap ''open repo'' e) | Inr r \<Rightarrow> go_ret r)))
           (\<lambda>r.
         go_bind (go_modify (\<lambda>s. s\<lparr>repos := (repos s)(did \<mapsto> r)\<rparr>)) (\<lambda>_. go_ret r))))"

text \<open>
  A call of a mutating method of the handle: it runs on the recording blockstore and leaves
  its effect on the cached handle, also when it fails.
\<close>

definition lib_call ::
  "'r env \<Rightarrow> did \<Rightarrow> ('r \<Rightarrow> ((go_error + 'a) \<times> 'r) blk_prog) \<Rightarrow> ('r pds, 'a) go" where
  "lib_call E did f =
     go_bind (go_reads (\<lambda>s. repos s did)) (\<lambda>h.
     case h of
       None \<Rightarrow> go_raise (Panic ''nil pointer dereference'')
     | Some r \<Rightarrow>
         go_bind (run_blk (rec_get E) (rec_put E) (f r)) (\<lambda>(res, r').
         go_bind (go_modify (\<lambda>s. s\<lparr>repos := (repos s)(did \<mapsto> r')\<rparr>)) (\<lambda>_.
         go_of res)))"

definition signed_of :: "'r env \<Rightarrow> did \<Rightarrow> ('r pds, signed_commit) go" where
  "signed_of E did =
     go_bind (go_reads (\<lambda>s. repos s did)) (\<lambda>h.
     case h of
       None \<Rightarrow> go_raise (Panic ''nil pointer dereference'')
     | Some r \<Rightarrow> go_ret (ix_signed E r))"

definition signingKey :: "'r env \<Rightarrow> did \<Rightarrow> ('r pds, bytes) go" where
  "signingKey E did =
     go_bind (sql E (q_row (\<lambda>d. map_option acc_signing_key (tbl_get acc_did did (accounts d))))) (\<lambda>enc.
     go_bind (go_wrap ''decrypt signing key'' (go_of (Decrypt E enc))) (\<lambda>raw.
     go_of (p256_parse E raw)))"

record commit_result =
  cr_cid :: cid
  cr_rev :: string
  cr_prev_rev :: string
  cr_prev_data :: "cid option"

definition insert_commit :: "commit_row \<Rightarrow> (database, unit) go" where
  "insert_commit row = q_try (\<lambda>d.
     case tbl_insert commit_key row (repo_commits d) of
       Inl e \<Rightarrow> Inl e
     | Inr t \<Rightarrow> Inr (d\<lparr>repo_commits := t\<rparr>))"

definition upsert_block_rev :: "did \<Rightarrow> cid \<Rightarrow> string \<Rightarrow> (database, unit) go" where
  "upsert_block_rev did c rv = q_exec (\<lambda>d. d\<lparr>repo_block_revs :=
     tbl_upsert block_rev_key \<lparr>br_did = did, br_cid = c, br_rev = rv\<rparr> (repo_block_revs d)\<rparr>)"

definition commit :: "'r env \<Rightarrow> did \<Rightarrow> ('r pds, commit_result) go" where
  "commit E did =
     go_bind (signed_of E did) (\<lambda>oldSC.
     go_bind (go_wrap ''load signing key'' (signingKey E did)) (\<lambda>key.
     go_bind (time_now E) (\<lambda>now.
     go_bind (go_wrap ''commit'' (lib_call E did (\<lambda>r. ix_commit E r now (p256_sign E key)))) (\<lambda>(commitCID, rv).
     go_bind (signed_of E did) (\<lambda>sc.
     go_bind (time_now E) (\<lambda>now2.
     go_bind (go_wrap ''persist commit'' (sql E (insert_commit
         \<lparr>cm_did = did, cm_rev = rv, cm_cid = commitCID, cm_prev = sc_prev sc,
          cm_data = sc_data sc, cm_sig = sc_sig sc, cm_created_at = Stamp now2\<rparr>))) (\<lambda>_.
     go_bind rec_drain (\<lambda>cids.
     go_bind (go_foreach (\<lambda>c.
         go_wrap ''persist block rev'' (sql E (upsert_block_rev did c rv))) cids) (\<lambda>_.
     go_ret \<lparr>cr_cid = commitCID, cr_rev = rv, cr_prev_rev = sc_rev oldSC,
             cr_prev_data = (if sc_data oldSC \<noteq> cid_undef then Some (sc_data oldSC) else None)\<rparr>)))))))))"

definition emitCommit :: "'r env \<Rightarrow> did \<Rightarrow> commit_result \<Rightarrow> repo_op list \<Rightarrow> ('r pds, unit) go" where
  "emitCommit E did res ops =
     go_bind (w_buffer (WriteRepoCAR E did (cr_prev_rev res))) (\<lambda>blocks.
     go_bind (publish E ''#commit''
        (CommitEvent did (cr_cid res) (cr_rev res)
           (if cr_prev_rev res \<noteq> [] then Some (cr_prev_rev res) else None)
           (cr_prev_data res) ops blocks)) (\<lambda>_.
     notifyRelays E))"

section \<open>Batches\<close>

record op =
  w_action :: string
  w_collection :: string
  w_rkey :: string
  w_rec :: marshaler
  w_json :: bytes
  w_swap :: "string option"

record op_result =
  or_action :: string
  or_rkey :: string
  or_cid :: string

record index_write =
  iw_collection :: string
  iw_rkey :: string
  iw_cid :: cid
  iw_json :: bytes

text \<open>The local variables of \<open>applyWrites\<close>.\<close>

record batch =
  b_cur :: "string \<Rightarrow> cid option"
  b_ops :: "repo_op list"
  b_results :: "op_result list"
  b_upserts :: "index_write list"
  b_deletes :: "(string \<times> string) list"

definition empty_batch :: batch where
  "empty_batch = \<lparr>b_cur = Map.empty, b_ops = [], b_results = [], b_upserts = [], b_deletes = []\<rparr>"

text \<open>The common tail of the create and update cases: remember the write.\<close>

definition note_put :: "'r env \<Rightarrow> op \<Rightarrow> string \<Rightarrow> cid \<Rightarrow> repo_op \<Rightarrow> (string \<Rightarrow> cid option) \<Rightarrow> batch \<Rightarrow> batch" where
  "note_put E o1 rkey c fh cur b = b\<lparr>
     b_cur := cur,
     b_upserts := b_upserts b @ [\<lparr>iw_collection = w_collection o1, iw_rkey = rkey, iw_cid = c, iw_json = w_json o1\<rparr>],
     b_ops := b_ops b @ [fh],
     b_results := b_results b @ [\<lparr>or_action = w_action o1, or_rkey = rkey, or_cid = cid_string E c\<rparr>]\<rparr>"

definition op_create :: "'r env \<Rightarrow> did \<Rightarrow> op \<Rightarrow> batch \<Rightarrow> ('r pds, batch) go" where
  "op_create E did o1 b =
     (if w_rkey o1 = [] then
        go_bind (time_now E) (\<lambda>now.
        go_bind (go_wrap ''create record''
           (lib_call E did (\<lambda>r. ix_create E r now (w_collection o1) (w_rec o1)))) (\<lambda>(c, rkey).
        go_ret (note_put E o1 rkey c
          \<lparr>op_action = ''create'', op_path = path_of (w_collection o1) rkey, op_cid = Some c, op_prev = None\<rparr>
          (b_cur b) b)))
      else
        go_bind (batchRecordCID E (b_cur b) did (w_collection o1) (w_rkey o1)) (\<lambda>(prev, exists, cur).
        if exists then go_raise (ErrRecordExists (w_collection o1) (w_rkey o1))
        else
          go_bind (go_wrap ''create record''
             (lib_call E did (\<lambda>r. ix_put E r (path_of (w_collection o1) (w_rkey o1)) (w_rec o1)))) (\<lambda>c.
          go_ret (note_put E o1 (w_rkey o1) c
            \<lparr>op_action = ''create'', op_path = path_of (w_collection o1) (w_rkey o1), op_cid = Some c, op_prev = None\<rparr>
            (cur(path_of (w_collection o1) (w_rkey o1) \<mapsto> c)) b))))"

definition op_update :: "'r env \<Rightarrow> did \<Rightarrow> op \<Rightarrow> batch \<Rightarrow> ('r pds, batch) go" where
  "op_update E did o1 b =
     go_bind (batchRecordCID E (b_cur b) did (w_collection o1) (w_rkey o1)) (\<lambda>(prev, exists, cur).
     if w_swap o1 \<noteq> None \<and> (\<not> exists \<or> cid_string E prev \<noteq> the (w_swap o1))
     then go_raise (ErrSwapRecordMismatch (w_collection o1) (w_rkey o1))
     else
       go_bind (go_wrap ''update record''
          (lib_call E did (\<lambda>r. ix_put E r (path_of (w_collection o1) (w_rkey o1)) (w_rec o1)))) (\<lambda>c.
       go_ret (note_put E o1 (w_rkey o1) c
         \<lparr>op_action = (if exists then ''update'' else ''create''),
          op_path = path_of (w_collection o1) (w_rkey o1), op_cid = Some c,
          op_prev = (if exists then Some prev else None)\<rparr>
         (cur(path_of (w_collection o1) (w_rkey o1) \<mapsto> c)) b)))"

definition op_delete :: "'r env \<Rightarrow> did \<Rightarrow> op \<Rightarrow> batch \<Rightarrow> ('r pds, batch) go" where
  "op_delete E did o1 b =
     go_bind (batchRecordCID E (b_cur b) did (w_collection o1) (w_rkey o1)) (\<lambda>(prev, exists, cur).
     if \<not> exists then go_raise (ErrRecordNotFound (w_collection o1) (w_rkey o1))
     else if w_swap o1 \<noteq> None \<and> cid_string E prev \<noteq> the (w_swap o1)
     then go_raise (ErrSwapRecordMismatch (w_collection o1) (w_rkey o1))
     else
       go_bind (go_wrap ''delete record''
          (lib_call E did (\<lambda>r. ix_delete E r (path_of (w_collection o1) (w_rkey o1))))) (\<lambda>_.
       go_ret (b\<lparr>
         b_cur := cur(path_of (w_collection o1) (w_rkey o1) \<mapsto> cid_undef),
         b_deletes := b_deletes b @ [(w_collection o1, w_rkey o1)],
         b_ops := b_ops b @ [\<lparr>op_action = ''delete'', op_path = path_of (w_collection o1) (w_rkey o1),
                              op_cid = None, op_prev = Some prev\<rparr>],
         b_results := b_results b @ [\<lparr>or_action = ''delete'', or_rkey = w_rkey o1, or_cid = []\<rparr>]\<rparr>)))"

definition apply_op :: "'r env \<Rightarrow> did \<Rightarrow> op \<Rightarrow> batch \<Rightarrow> ('r pds, batch) go" where
  "apply_op E did o1 b =
     (if w_action o1 = ''create'' then op_create E did o1 b
      else if w_action o1 = ''update'' then op_update E did o1 b
      else if w_action o1 = ''delete'' then op_delete E did o1 b
      else go_raise (Failure (''unknown write action '' @ w_action o1)))"

primrec apply_ops :: "'r env \<Rightarrow> did \<Rightarrow> op list \<Rightarrow> batch \<Rightarrow> ('r pds, batch) go" where
  "apply_ops E did [] b = go_ret b"
| "apply_ops E did (o1 # os) b = go_bind (apply_op E did o1 b) (apply_ops E did os)"

definition upsertRecord :: "'r env \<Rightarrow> did \<Rightarrow> string \<Rightarrow> string \<Rightarrow> cid \<Rightarrow> bytes \<Rightarrow> ('r pds, unit) go" where
  "upsertRecord E did collection rkey c json =
     sql E (q_exec (\<lambda>d. d\<lparr>repo_records := tbl_upsert record_key
       \<lparr>rr_did = did, rr_collection = collection, rr_rkey = rkey, rr_cid = c, rr_value = json\<rparr>
       (repo_records d)\<rparr>))"

definition delete_record_row :: "'r env \<Rightarrow> did \<Rightarrow> string \<Rightarrow> string \<Rightarrow> ('r pds, unit) go" where
  "delete_record_row E did collection rkey =
     sql E (q_exec (\<lambda>d. d\<lparr>repo_records :=
       tbl_delete (\<lambda>r. record_key r = (did, collection, rkey)) (repo_records d)\<rparr>))"

text \<open>The index is written after the commit: all upserts, then all deletes.\<close>

definition write_index :: "'r env \<Rightarrow> did \<Rightarrow> batch \<Rightarrow> ('r pds, unit) go" where
  "write_index E did b =
     go_bind (go_foreach (\<lambda>iw.
        upsertRecord E did (iw_collection iw) (iw_rkey iw) (iw_cid iw) (iw_json iw)) (b_upserts b)) (\<lambda>_.
     go_foreach (\<lambda>(c, k). delete_record_row E did c k) (b_deletes b))"

definition check_swap_commit :: "'r env \<Rightarrow> did \<Rightarrow> string option \<Rightarrow> ('r pds, unit) go" where
  "check_swap_commit E did swapCommit =
     (case swapCommit of
        None \<Rightarrow> go_ret ()
      | Some want \<Rightarrow>
          go_bind (headCID E did) (\<lambda>head.
          if head \<noteq> want then go_raise (ErrSwapCommitMismatch head) else go_ret ()))"

definition applyWrites ::
  "'r env \<Rightarrow> did \<Rightarrow> op list \<Rightarrow> string option \<Rightarrow> ('r pds, commit_result \<times> op_result list) go" where
  "applyWrites E did ops swapCommit =
     go_bind (open_repo E did) (\<lambda>_.
     go_bind (check_swap_commit E did swapCommit) (\<lambda>_.
     go_bind rec_begin (\<lambda>_.
     go_bind (apply_ops E did ops empty_batch) (\<lambda>b.
     go_bind (commit E did) (\<lambda>res.
     go_bind (write_index E did b) (\<lambda>_.
     go_bind (emitCommit E did res (b_ops b)) (\<lambda>_.
     go_ret (res, b_results b))))))))"

definition ApplyWrites ::
  "'r env \<Rightarrow> did \<Rightarrow> op list \<Rightarrow> string option \<Rightarrow> ('r pds, string \<times> string \<times> op_result list) go" where
  "ApplyWrites E did ops swapCommit =
     go_bind (applyWrites E did ops swapCommit) (\<lambda>(res, results).
     go_ret (cid_string E (cr_cid res), cr_rev res, results))"

record write_result =
  wr_uri :: string
  wr_cid :: string
  wr_commit_cid :: string
  wr_rev :: string

definition at_uri :: "did \<Rightarrow> string \<Rightarrow> string \<Rightarrow> string" where
  "at_uri did collection rkey = ''at://'' @ did @ ''/'' @ collection @ ''/'' @ rkey"

definition singleWrite :: "'r env \<Rightarrow> did \<Rightarrow> op \<Rightarrow> ('r pds, write_result) go" where
  "singleWrite E did o1 =
     go_bind (applyWrites E did [o1] None) (\<lambda>(res, results).
     go_ret
       (case results of
          [r] \<Rightarrow> \<lparr>wr_uri = (if or_action r \<noteq> ''delete'' then at_uri did (w_collection o1) (or_rkey r) else []),
                  wr_cid = or_cid r, wr_commit_cid = cid_string E (cr_cid res), wr_rev = cr_rev res\<rparr>
        | _ \<Rightarrow> \<lparr>wr_uri = [], wr_cid = [], wr_commit_cid = cid_string E (cr_cid res), wr_rev = cr_rev res\<rparr>))"

definition CreateRecord :: "'r env \<Rightarrow> did \<Rightarrow> string \<Rightarrow> marshaler \<Rightarrow> bytes \<Rightarrow> ('r pds, write_result) go" where
  "CreateRecord E did collection rec json = singleWrite E did
     \<lparr>w_action = ''create'', w_collection = collection, w_rkey = [], w_rec = rec, w_json = json, w_swap = None\<rparr>"

definition PutRecord :: "'r env \<Rightarrow> did \<Rightarrow> string \<Rightarrow> string \<Rightarrow> marshaler \<Rightarrow> bytes \<Rightarrow> ('r pds, write_result) go" where
  "PutRecord E did collection rkey rec json = singleWrite E did
     \<lparr>w_action = ''update'', w_collection = collection, w_rkey = rkey, w_rec = rec, w_json = json, w_swap = None\<rparr>"

definition DeleteRecord :: "'r env \<Rightarrow> did \<Rightarrow> string \<Rightarrow> string \<Rightarrow> ('r pds, write_result) go" where
  "DeleteRecord E did collection rkey = singleWrite E did
     \<lparr>w_action = ''delete'', w_collection = collection, w_rkey = rkey, w_rec = Inl (Failure ''nil record''),
      w_json = [], w_swap = None\<rparr>"

section \<open>Creating an account's repo\<close>

definition CreateAccount :: "'r env \<Rightarrow> did \<Rightarrow> ('r pds, unit) go" where
  "CreateAccount E did =
     go_bind (open_repo E did) (\<lambda>_.
     go_bind rec_begin (\<lambda>_.
     go_bind (commit E did) (\<lambda>res.
     go_bind (emitCommit E did res []) (\<lambda>_.
     go_bind (sql E (q_row (\<lambda>d. map_option acc_handle (tbl_get acc_did did (accounts d))))) (\<lambda>handle.
     publish E ''#identity'' (IdentityEvent did (Some handle)))))))"

section \<open>Deleting an account's repo\<close>

definition delete_commits_of :: "did \<Rightarrow> (database, unit) go" where
  "delete_commits_of did = q_exec (\<lambda>d. d\<lparr>repo_commits := tbl_delete (\<lambda>r. cm_did r = did) (repo_commits d)\<rparr>)"

definition delete_records_of :: "did \<Rightarrow> (database, unit) go" where
  "delete_records_of did = q_exec (\<lambda>d. d\<lparr>repo_records := tbl_delete (\<lambda>r. rr_did r = did) (repo_records d)\<rparr>)"

definition delete_block_revs_of :: "did \<Rightarrow> (database, unit) go" where
  "delete_block_revs_of did =
     q_exec (\<lambda>d. d\<lparr>repo_block_revs := tbl_delete (\<lambda>r. br_did r = did) (repo_block_revs d)\<rparr>)"

text \<open>The three statements of \<open>DeleteAccount\<close>, also the first three of \<open>ImportRepo\<close>'s transaction.\<close>

definition clear_repo :: "'r env \<Rightarrow> did \<Rightarrow> ('r pds, unit) go" where
  "clear_repo E did =
     go_foreach (sql E) [delete_commits_of did, delete_records_of did, delete_block_revs_of did]"

definition DeleteAccount :: "'r env \<Rightarrow> did \<Rightarrow> ('r pds, unit) go" where
  "DeleteAccount E did =
     go_bind (go_modify (\<lambda>s. s\<lparr>repos := (repos s)(did := None)\<rparr>)) (\<lambda>_.
     go_bind (go_reads blob_root) (\<lambda>root.
     go_bind (case root of None \<Rightarrow> go_ret () | Some _ \<Rightarrow> DeleteForDID E did) (\<lambda>_.
     clear_repo E did)))"

end
