(* ===== verification/Accounts.thy ===== *)
theory Accounts
  imports Auth Config Plc Manager
begin

text \<open>
  \<open>internal/api/account.go\<close>, \<open>account_admin.go\<close>, \<open>apppass.go\<close>, \<open>invite.go\<close>, \<open>email.go\<close> and
  \<open>internal/email\<close>: creating, changing and deleting accounts, app passwords, invite codes, and
  the codes sent by email. A row of \<open>accounts\<close> is the parent of the sessions, blobs, app
  passwords, preferences and mutes that name its DID: they go with it.
\<close>

section \<open>Statements\<close>

definition insert_account :: "account \<Rightarrow> (database, unit) go" where
  "insert_account a = q_try (\<lambda>d.
     if tbl_has acc_handle (acc_handle a) (accounts d) then Inl SqlConstraint
     else case tbl_insert acc_did a (accounts d) of
       Inl e \<Rightarrow> Inl e
     | Inr t \<Rightarrow> Inr (d\<lparr>accounts := t\<rparr>))"

definition update_account :: "did \<Rightarrow> (account \<Rightarrow> account) \<Rightarrow> (database, unit) go" where
  "update_account did f =
     q_exec (\<lambda>d. d\<lparr>accounts := tbl_update (\<lambda>a. acc_did a = did) f (accounts d)\<rparr>)"

text \<open>\<open>UPDATE accounts SET handle\<close> must keep handles unique.\<close>

definition update_handle :: "did \<Rightarrow> string \<Rightarrow> (database, unit) go" where
  "update_handle did h = q_try (\<lambda>d.
     if tbl_has acc_did did (accounts d) \<and>
        list_ex (\<lambda>a. acc_did a \<noteq> did \<and> acc_handle a = h) (accounts d)
     then Inl SqlConstraint
     else Inr (d\<lparr>accounts := tbl_update (\<lambda>a. acc_did a = did) (\<lambda>a. a\<lparr>acc_handle := h\<rparr>) (accounts d)\<rparr>))"

text \<open>\<open>DELETE FROM accounts\<close> with its \<open>ON DELETE CASCADE\<close>s.\<close>

definition cascade_delete :: "did \<Rightarrow> database \<Rightarrow> database" where
  "cascade_delete did d = d\<lparr>
     accounts := tbl_delete (\<lambda>a. acc_did a = did) (accounts d),
     auth_sessions := tbl_delete (\<lambda>r. ses_did r = did) (auth_sessions d),
     blobs := tbl_delete (\<lambda>r. bl_did r = did) (blobs d),
     app_passwords := tbl_delete (\<lambda>r. ap_did r = did) (app_passwords d),
     app_preferences := tbl_delete (\<lambda>r. fst r = did) (app_preferences d),
     mutes := tbl_delete (\<lambda>r. fst r = did) (mutes d)\<rparr>"

definition delete_account_row :: "did \<Rightarrow> (database, unit) go" where
  "delete_account_row did = q_exec (cascade_delete did)"

definition account_of :: "did \<Rightarrow> database \<Rightarrow> account option" where
  "account_of did = find_account (\<lambda>a. acc_did a = did)"

section \<open>Creating an account\<close>

record create_input =
  ci_handle :: string
  ci_invite :: "string option"
  ci_password :: "string option"
  ci_email :: "string option"

definition given :: "string option \<Rightarrow> bool" where
  "given x \<longleftrightarrow> (case x of None \<Rightarrow> False | Some s \<Rightarrow> s \<noteq> [])"

definition require_invite :: "'r env \<Rightarrow> config \<Rightarrow> string option \<Rightarrow> 'r handler \<Rightarrow> 'r handler" where
  "require_invite E cfg invite k =
     (if \<not> InviteRequired cfg then k
      else case invite of
        None \<Rightarrow> WriteXRPCError 400 ''InviteCodeRequired'' (Text ''an invite code is required to create an account'')
      | Some code \<Rightarrow>
          if code = [] then
            WriteXRPCError 400 ''InviteCodeRequired'' (Text ''an invite code is required to create an account'')
          else
            on_error (sql E (q_row (\<lambda>d. tbl_get iv_code code (invite_codes d))))
              (\<lambda>_. XrpcError 400 ''InvalidInviteCode'' (Text ''invalid invite code'')) (\<lambda>iv.
            if iv_used_by iv \<noteq> None \<or> iv_disabled_at iv \<noteq> None
            then WriteXRPCError 400 ''InviteCodeInvalid'' (Text ''invite code is not available'')
            else k))"

definition identity_failure :: "string \<Rightarrow> go_error \<Rightarrow> response" where
  "identity_failure msg e = XrpcError 502 ''IdentityFailure'' (PrefixText msg e)"

text \<open>The DID, its document and the two private keys, by the configured method.\<close>

definition new_identity ::
  "'r env \<Rightarrow> config \<Rightarrow> string \<Rightarrow> (did \<Rightarrow> bytes \<Rightarrow> bytes \<Rightarrow> bytes \<Rightarrow> 'r handler) \<Rightarrow> 'r handler" where
  "new_identity E cfg handle k =
     (if DIDMethod cfg = ''plc'' then
        on_error (generate_key E) internal_error (\<lambda>signing.
        on_error (generate_key E) internal_error (\<lambda>recovery.
        let base = new_client (PlcURL cfg) in
        on_error (plc_create E base signing recovery handle (PublicURL cfg))
          (identity_failure ''failed to create PLC DID: '') (\<lambda>(did, op).
        on_error (ResolveDidDoc E base did) (identity_failure ''failed to resolve PLC DID doc: '') (\<lambda>doc.
        k did doc signing recovery))))
      else
        on_error (CreateDidWeb E handle (PublicURL cfg)) internal_error (\<lambda>ks.
        k (ky_did ks) (json_marshal (ky_did_doc ks)) (ky_signing ks) (ky_recovery ks)))"

definition count_handle :: "string \<Rightarrow> database \<Rightarrow> nat" where
  "count_handle h d = length (filter (\<lambda>a. acc_handle a = h) (accounts d))"

definition use_invite :: "string \<Rightarrow> did \<Rightarrow> int \<Rightarrow> (database, unit) go" where
  "use_invite code did now = q_exec (\<lambda>d. d\<lparr>invite_codes :=
     tbl_update (\<lambda>r. iv_code r = code) (\<lambda>r. r\<lparr>iv_used_by := Some did, iv_used_at := Some (Stamp now)\<rparr>) (invite_codes d)\<rparr>)"

definition create_reply :: "string \<Rightarrow> string \<Rightarrow> did \<Rightarrow> bytes \<Rightarrow> string \<Rightarrow> json" where
  "create_reply access refresh did doc handle = JObj
     [(''accessJwt'', JStr access), (''refreshJwt'', JStr refresh), (''did'', JStr did),
      (''didDoc'', JDecoded doc), (''handle'', JStr handle)]"

text \<open>What follows once the identity exists: secrets, the row, the repo, the invite code, a session.\<close>

definition register_account ::
  "'r env \<Rightarrow> config \<Rightarrow> create_input \<Rightarrow> string \<Rightarrow> did \<Rightarrow> bytes \<Rightarrow> bytes \<Rightarrow> bytes \<Rightarrow> 'r handler" where
  "register_account E cfg input handle did doc signing recovery =
     on_error (HashPassword E (coalesce (ci_password input))) internal_error (\<lambda>hash.
     on_error (Encrypt E signing) internal_error (\<lambda>signingEnc.
     on_error (Encrypt E recovery) internal_error (\<lambda>recoveryEnc.
     go_bind (time_now E) (\<lambda>now.
     on_error (sql E (insert_account \<lparr>acc_did = did, acc_handle = handle,
        acc_email = Some (coalesce (ci_email input)), acc_password_hash = hash, acc_recovery_key = recoveryEnc,
        acc_signing_key = signingEnc, acc_created_at = Stamp now, acc_did_doc = Some doc,
        acc_deactivated_at = None, acc_email_confirmed_at = None\<rparr>)) internal_error (\<lambda>_.
     on_error (CreateAccount E did) internal_error (\<lambda>_.
     go_bind (if InviteRequired cfg \<and> given (ci_invite input)
              then go_bind (time_now E) (\<lambda>used. ignoring (sql E (use_invite (coalesce (ci_invite input)) did used)))
              else go_ret ()) (\<lambda>_.
     on_error (mintSession E did []) internal_error (\<lambda>(access, refresh).
     WriteJSON (create_reply access refresh did doc handle)))))))))"

definition HandleCreateAccount :: "'r env \<Rightarrow> config \<Rightarrow> go_error + create_input \<Rightarrow> 'r handler" where
  "HandleCreateAccount E cfg body =
     DecodeBody body (\<lambda>input.
     on_error (go_of (syntax_handle E (ci_handle input)))
       (\<lambda>e. XrpcError 400 ''InvalidHandle'' (ErrText e)) (\<lambda>handle.
     on_error (sql E (q_rows (count_handle handle))) internal_error (\<lambda>existing.
     if existing > 0 then WriteXRPCError 409 ''HandleAlreadyExists'' (Text ''handle is already taken'')
     else
       require_invite E cfg (ci_invite input)
         (new_identity E cfg handle (register_account E cfg input handle)))))"

section \<open>Changing the handle\<close>

definition stringsHasPrefix :: "string \<Rightarrow> string \<Rightarrow> bool" where
  "stringsHasPrefix s p \<longleftrightarrow> length p \<le> length s \<and> take (length p) s = p"

definition stored_key :: "'r env \<Rightarrow> did \<Rightarrow> (account \<Rightarrow> string) \<Rightarrow> ('r pds, bytes) go" where
  "stored_key E did column =
     go_bind (sql E (q_row (\<lambda>d. map_option column (account_of did d)))) (\<lambda>enc.
     go_bind (go_of (Decrypt E enc)) (\<lambda>raw. go_of (p256_parse E raw)))"

definition HandleUpdateHandle :: "'r env \<Rightarrow> config \<Rightarrow> request \<Rightarrow> go_error + string \<Rightarrow> 'r handler" where
  "HandleUpdateHandle E cfg rq body =
     requireAuth E rq (\<lambda>did.
     DecodeBody body (\<lambda>new_handle.
     on_error (go_of (syntax_handle E new_handle)) (\<lambda>e. XrpcError 400 ''InvalidHandle'' (ErrText e)) (\<lambda>handle.
     if \<not> stringsHasPrefix did ''did:plc:'' then
       WriteXRPCError 400 ''InvalidRequest'' (Text ''handle changes are only supported for did:plc accounts'')
     else
       on_error (stored_key E did acc_recovery_key) internal_error (\<lambda>recoveryKey.
       let base = new_client (PlcURL cfg) in
       on_error (LatestCID E base did) (\<lambda>e. XrpcError 502 ''IdentityFailure'' (ErrText e)) (\<lambda>prev.
       on_error (stored_key E did acc_signing_key) internal_error (\<lambda>signingKey.
       on_error (go_of (p256_didkey E signingKey)) internal_error (\<lambda>signingPub.
       on_error (go_of (p256_didkey E recoveryKey)) internal_error (\<lambda>recoveryPub.
       on_error (go_of (operation_sign E recoveryKey
            (NewAtproto signingPub handle (PublicURL cfg) [recoveryPub] (Some prev)))) internal_error (\<lambda>op.
       on_error (plc_submit E base did op) (\<lambda>e. XrpcError 502 ''IdentityFailure'' (ErrText e)) (\<lambda>_.
       on_error (sql E (update_handle did handle)) internal_error (\<lambda>_.
       go_bind (ignoring (EmitIdentity E did handle)) (\<lambda>_.
       WriteJSON (JObj [])))))))))))))"

section \<open>Status and deletion\<close>

definition set_deactivated :: "did \<Rightarrow> stamp option \<Rightarrow> (database, unit) go" where
  "set_deactivated did st = update_account did (\<lambda>a. a\<lparr>acc_deactivated_at := st\<rparr>)"

definition HandleDeactivateAccount :: "'r env \<Rightarrow> request \<Rightarrow> 'r handler" where
  "HandleDeactivateAccount E rq =
     requireAuth E rq (\<lambda>did.
     go_bind (time_now E) (\<lambda>now.
     on_error (sql E (set_deactivated did (Some (Stamp now)))) internal_error (\<lambda>_.
     go_bind (ignoring (EmitAccount E did False (Some ''deactivated''))) (\<lambda>_.
     WriteJSON (JObj [])))))"

definition HandleActivateAccount :: "'r env \<Rightarrow> request \<Rightarrow> 'r handler" where
  "HandleActivateAccount E rq =
     requireAuth E rq (\<lambda>did.
     on_error (sql E (set_deactivated did None)) internal_error (\<lambda>_.
     go_bind (ignoring (EmitAccount E did True None)) (\<lambda>_.
     WriteJSON (JObj []))))"

text \<open>The body's password; its \<open>did\<close> and \<open>token\<close> fields are not used.\<close>

definition HandleDeleteAccount :: "'r env \<Rightarrow> request \<Rightarrow> go_error + string \<Rightarrow> 'r handler" where
  "HandleDeleteAccount E rq body =
     requireAuth E rq (\<lambda>did.
     DecodeBody body (\<lambda>password.
     on_error (sql E (q_row (\<lambda>d. map_option acc_password_hash (account_of did d)))) internal_error (\<lambda>hash.
     go_bind (password_ok E hash password) (\<lambda>valid.
     if \<not> valid then WriteXRPCError 401 ''AuthenticationRequired'' (Text ''invalid password'')
     else
       on_error (DeleteAccount E did) internal_error (\<lambda>_.
       on_error (sql E (delete_account_row did)) internal_error (\<lambda>_.
       go_bind (ignoring (EmitAccount E did False (Some ''deleted''))) (\<lambda>_.
       WriteJSON (JObj []))))))))"

definition HandleCheckAccountStatus :: "'r env \<Rightarrow> request \<Rightarrow> 'r handler" where
  "HandleCheckAccountStatus E rq =
     requireAuth E rq (\<lambda>did.
     on_error (sql E (q_row (account_of did))) internal_error (\<lambda>a.
     WriteJSON (JObj [(''activated'', jbool (acc_deactivated_at a = None)), (''validDid'', jbool True)])))"

section \<open>App passwords\<close>

definition insert_app_password :: "app_password \<Rightarrow> (database, unit) go" where
  "insert_app_password r = q_try (\<lambda>d.
     if \<not> tbl_has acc_did (ap_did r) (accounts d) then Inl SqlConstraint
     else case tbl_insert app_password_key r (app_passwords d) of
       Inl e \<Rightarrow> Inl e
     | Inr t \<Rightarrow> Inr (d\<lparr>app_passwords := t\<rparr>))"

text \<open>Four groups of four of the first sixteen digits.\<close>

definition dashed :: "string \<Rightarrow> string" where
  "dashed h = take 4 h @ ''-'' @ take 4 (drop 4 h) @ ''-'' @ take 4 (drop 8 h) @ ''-'' @ take 4 (drop 12 h)"

definition randomAppPassword :: "'r env \<Rightarrow> ('r pds, string) go" where
  "randomAppPassword E = go_bind (rand_read E 16) (\<lambda>b. go_ret (dashed (hex_encode b)))"

definition HandleCreateAppPassword :: "'r env \<Rightarrow> request \<Rightarrow> go_error + string \<Rightarrow> 'r handler" where
  "HandleCreateAppPassword E rq body =
     requireAuth E rq (\<lambda>did.
     DecodeBody body (\<lambda>name.
     if name = [] then WriteXRPCError 400 ''InvalidRequest'' (Text ''name is required'')
     else
       go_bind (randomAppPassword E) (\<lambda>password.
       on_error (HashPassword E password) internal_error (\<lambda>hash.
       go_bind (time_now E) (\<lambda>now.
       on_error (sql E (insert_app_password \<lparr>ap_did = did, ap_name = name, ap_hash = hash, ap_created_at = Stamp now\<rparr>))
         (\<lambda>_. XrpcError 409 ''AppPasswordNameExists'' (Text ''app password name already in use'')) (\<lambda>_.
       WriteJSON (JObj [(''name'', JStr name), (''password'', JStr password)])))))))"

text \<open>The text of a timestamp column, by which it is ordered and shown.\<close>

definition stamp_text :: "'r env \<Rightarrow> stamp \<Rightarrow> string" where
  "stamp_text E st = (case st of Stamp t \<Rightarrow> rfc3339 E t | BadStamp x \<Rightarrow> x)"

definition app_passwords_of :: "'r env \<Rightarrow> did \<Rightarrow> database \<Rightarrow> app_password list" where
  "app_passwords_of E did d = sort_key (stamp_text E \<circ> ap_created_at) (filter (\<lambda>r. ap_did r = did) (app_passwords d))"

definition app_password_json :: "'r env \<Rightarrow> app_password \<Rightarrow> json" where
  "app_password_json E r = JObj [(''name'', JStr (ap_name r)), (''createdAt'', JStr (stamp_text E (ap_created_at r)))]"

definition HandleListAppPasswords :: "'r env \<Rightarrow> request \<Rightarrow> 'r handler" where
  "HandleListAppPasswords E rq =
     requireAuth E rq (\<lambda>did.
     on_error (sql E (q_rows (app_passwords_of E did))) internal_error (\<lambda>rows.
     WriteJSON (JObj [(''passwords'', jnil (map (app_password_json E) rows))])))"

definition delete_app_password :: "did \<Rightarrow> string \<Rightarrow> (database, unit) go" where
  "delete_app_password did name = q_exec (\<lambda>d. d\<lparr>app_passwords :=
     tbl_delete (\<lambda>r. app_password_key r = (did, name)) (app_passwords d)\<rparr>)"

definition HandleRevokeAppPassword :: "'r env \<Rightarrow> request \<Rightarrow> go_error + string \<Rightarrow> 'r handler" where
  "HandleRevokeAppPassword E rq body =
     requireAuth E rq (\<lambda>did.
     DecodeBody body (\<lambda>name.
     on_error (sql E (delete_app_password did name)) internal_error (\<lambda>_. WriteJSON (JObj []))))"

section \<open>Invite codes\<close>

definition insert_invite :: "invite_code \<Rightarrow> (database, unit) go" where
  "insert_invite r = q_try (\<lambda>d.
     case tbl_insert iv_code r (invite_codes d) of Inl e \<Rightarrow> Inl e | Inr t \<Rightarrow> Inr (d\<lparr>invite_codes := t\<rparr>))"

definition randomInviteCode :: "'r env \<Rightarrow> ('r pds, string) go" where
  "randomInviteCode E = go_bind (rand_read E 8) (\<lambda>b. go_ret (''pocketpds-'' @ take 16 (hex_encode b)))"

text \<open>The loop that inserts \<open>n\<close> codes and returns at the first failure.\<close>

primrec make_invites ::
  "'r env \<Rightarrow> ('r pds, string) go \<Rightarrow> string \<Rightarrow> int \<Rightarrow> nat \<Rightarrow> ('r pds, string list) go" where
  "make_invites E fresh creator now 0 = go_ret []"
| "make_invites E fresh creator now (Suc n) =
     go_bind fresh (\<lambda>code.
     go_bind (sql E (insert_invite \<lparr>iv_code = code, iv_created_by = creator, iv_created_at = Stamp now,
        iv_used_by = None, iv_used_at = None, iv_disabled_at = None\<rparr>)) (\<lambda>_.
     go_bind (make_invites E fresh creator now n) (\<lambda>codes. go_ret (code # codes))))"

definition HandleCreateInviteCodes :: "'r env \<Rightarrow> request \<Rightarrow> go_error + int \<Rightarrow> 'r handler" where
  "HandleCreateInviteCodes E rq body =
     requireAuth E rq (\<lambda>did.
     DecodeBody body (\<lambda>codeCount.
     if codeCount < 1 \<or> codeCount > 100 then
       WriteXRPCError 400 ''InvalidRequest'' (Text ''codeCount must be 1-100'')
     else
       go_bind (time_now E) (\<lambda>now.
       on_error (make_invites E (randomInviteCode E) did now (nat codeCount)) internal_error (\<lambda>codes.
       WriteJSON (JObj [(''codes'', JArr [JObj [(''account'', JStr did), (''codes'', JArr (map JStr codes))]])])))))"

definition invites_of :: "'r env \<Rightarrow> did \<Rightarrow> database \<Rightarrow> invite_code list" where
  "invites_of E did d = sort_key (stamp_text E \<circ> iv_created_at) (filter (\<lambda>r. iv_created_by r = did) (invite_codes d))"

definition invite_json :: "'r env \<Rightarrow> did \<Rightarrow> invite_code \<Rightarrow> json" where
  "invite_json E did r = JObj
     [(''code'', JStr (iv_code r)), (''available'', jbool (iv_used_by r = None \<and> iv_disabled_at r = None)),
      (''disabled'', jbool (iv_disabled_at r \<noteq> None)), (''createdBy'', JStr did),
      (''createdAt'', JStr (stamp_text E (iv_created_at r))), (''uses'', jint 0)]"

definition HandleGetAccountInviteCodes :: "'r env \<Rightarrow> request \<Rightarrow> 'r handler" where
  "HandleGetAccountInviteCodes E rq =
     requireAuth E rq (\<lambda>did.
     on_error (sql E (q_rows (invites_of E did))) internal_error (\<lambda>rows.
     WriteJSON (JObj [(''codes'', jnil (map (invite_json E did) rows))])))"

end
