(* ===== verification/Email.thy ===== *)
theory Email
  imports Accounts
begin

text \<open>
  \<open>internal/email/email.go\<close> and \<open>internal/api/email.go\<close>: the SMTP sender and the codes it
  delivers, which confirm an address or reset a password. A code is a row of
  \<open>email_tokens\<close>: it is good for one hour and until \<open>used_at\<close> is set.
\<close>

section \<open>The sender\<close>

record sender =
  sn_host :: string
  sn_port :: string
  sn_user :: string
  sn_pass :: string
  sn_from :: string

definition new_sender :: "config \<Rightarrow> sender" where
  "new_sender cfg = \<lparr>sn_host = SMTPHost cfg, sn_port = SMTPPort cfg, sn_user = SMTPUser cfg,
     sn_pass = SMTPPass cfg, sn_from = SMTPFrom cfg\<rparr>"

definition crlf :: string where
  "crlf = [CHR 0x0D, CHR 0x0A]"

definition JoinHostPort :: "string \<Rightarrow> string \<Rightarrow> string" where
  "JoinHostPort host port =
     (if CHR '':'' \<in> set host then ''['' @ host @ '']:'' @ port else host @ '':'' @ port)"

definition mail_text :: "string \<Rightarrow> string \<Rightarrow> string \<Rightarrow> string \<Rightarrow> string" where
  "mail_text from to subject body =
     ''From: '' @ from @ crlf @ ''To: '' @ to @ crlf @ ''Subject: '' @ subject @ crlf @
     ''MIME-Version: 1.0'' @ crlf @ ''Content-Type: text/plain; charset=UTF-8'' @ crlf @ crlf @ body"

text \<open>Without a host the message is only logged.\<close>

definition Send :: "'r env \<Rightarrow> sender \<Rightarrow> string \<Rightarrow> string \<Rightarrow> string \<Rightarrow> ('r pds, unit) go" where
  "Send E sn to subject body =
     (if sn_host sn = [] then go_ret ()
      else
        let from = (if sn_from sn = [] then ''pocketpds@'' @ sn_host sn else sn_from sn);
            msg = replace_all [CHR 0x0A] crlf (mail_text from to subject body)
        in os_call E ''smtp'' (go_modify (\<lambda>s. s\<lparr>outbox := outbox s @ [Mail (JoinHostPort (sn_host sn) (sn_port sn)) from to msg]\<rparr>)))"

section \<open>Codes\<close>

definition insert_email_token :: "email_token \<Rightarrow> (database, unit) go" where
  "insert_email_token r = q_try (\<lambda>d.
     case tbl_insert et_token r (email_tokens d) of Inl e \<Rightarrow> Inl e | Inr t \<Rightarrow> Inr (d\<lparr>email_tokens := t\<rparr>))"

text \<open>\<open>emailTokenTTL\<close> is one hour.\<close>

definition issue_email_token :: "'r env \<Rightarrow> did \<Rightarrow> string \<Rightarrow> string \<Rightarrow> ('r pds, string) go" where
  "issue_email_token E did purpose addr =
     go_bind (rand_read E 16) (\<lambda>b.
     let token = hex_encode b in
     go_bind (time_now E) (\<lambda>now.
     go_bind (sql E (insert_email_token \<lparr>et_token = token, et_did = did, et_purpose = purpose,
        et_email = addr, et_expires_at = Stamp (now + 60 * 60), et_used_at = None\<rparr>)) (\<lambda>_.
     go_ret token)))"

definition findEmailToken :: "'r env \<Rightarrow> string \<Rightarrow> string \<Rightarrow> ('r pds, did \<times> string) go" where
  "findEmailToken E token purpose =
     go_bind (sql E (q_row (\<lambda>d. find (\<lambda>r. et_token r = token \<and> et_purpose r = purpose) (email_tokens d)))) (\<lambda>r.
     if et_used_at r \<noteq> None then go_raise (Failure ''used'')
     else
       go_bind (go_of (parse_rfc3339 (et_expires_at r))) (\<lambda>exp.
       go_bind (now_after E exp) (\<lambda>expired.
       if expired then go_raise (Failure ''expired'') else go_ret (et_did r, et_email r))))"

definition mark_used :: "string \<Rightarrow> int \<Rightarrow> (database, unit) go" where
  "mark_used token now = q_exec (\<lambda>d. d\<lparr>email_tokens :=
     tbl_update (\<lambda>r. et_token r = token) (\<lambda>r. r\<lparr>et_used_at := Some (Stamp now)\<rparr>) (email_tokens d)\<rparr>)"

definition markEmailTokenUsed :: "'r env \<Rightarrow> string \<Rightarrow> ('r pds, unit) go" where
  "markEmailTokenUsed E token =
     go_bind (time_now E) (\<lambda>now. ignoring (sql E (mark_used token now)))"

definition consumeEmailToken :: "'r env \<Rightarrow> did \<Rightarrow> string \<Rightarrow> string \<Rightarrow> ('r pds, bool) go" where
  "consumeEmailToken E did token purpose =
     go_bind (go_try (findEmailToken E token purpose)) (\<lambda>r.
     case r of
       Inl e \<Rightarrow> go_ret False
     | Inr (token_did, addr) \<Rightarrow>
         if token_did \<noteq> did then go_ret False
         else go_bind (markEmailTokenUsed E token) (\<lambda>_. go_ret True))"

section \<open>The endpoints\<close>

definition no_email :: response where
  "no_email = XrpcError 400 ''InvalidRequest'' (Text ''no email on account'')"

definition HandleRequestEmailConfirmation :: "'r env \<Rightarrow> sender \<Rightarrow> request \<Rightarrow> 'r handler" where
  "HandleRequestEmailConfirmation E sn rq =
     requireAuth E rq (\<lambda>did.
     on_error (sql E (q_row (\<lambda>d. Option.bind (account_of did d) acc_email))) (\<lambda>_. no_email) (\<lambda>addr.
     if addr = [] then go_ret no_email
     else
       on_error (issue_email_token E did ''confirm'' addr) internal_error (\<lambda>token.
       go_bind (ignoring (Send E sn addr ''Confirm your email'' (''Your confirmation code: '' @ token))) (\<lambda>_.
       WriteJSON (JObj [])))))"

definition invalid_code :: response where
  "invalid_code = XrpcError 400 ''InvalidToken'' (Text ''invalid or expired token'')"

text \<open>The body's email and token.\<close>

definition HandleConfirmEmail :: "'r env \<Rightarrow> request \<Rightarrow> go_error + string \<times> string \<Rightarrow> 'r handler" where
  "HandleConfirmEmail E rq body =
     requireAuth E rq (\<lambda>did.
     DecodeBody body (\<lambda>(addr, token).
     go_bind (consumeEmailToken E did token ''confirm'') (\<lambda>ok.
     if \<not> ok then go_ret invalid_code
     else
       go_bind (time_now E) (\<lambda>now.
       on_error (sql E (update_account did
          (\<lambda>a. a\<lparr>acc_email := Some addr, acc_email_confirmed_at := Some (Stamp now)\<rparr>))) internal_error (\<lambda>_.
       WriteJSON (JObj []))))))"

text \<open>An unknown address gets the same reply as a known one.\<close>

definition HandleRequestPasswordReset :: "'r env \<Rightarrow> sender \<Rightarrow> go_error + string \<Rightarrow> 'r handler" where
  "HandleRequestPasswordReset E sn body =
     DecodeBody body (\<lambda>addr.
     on_error (sql E (q_row (find_account (\<lambda>a. acc_email a = Some addr)))) (\<lambda>_. Json (JObj [])) (\<lambda>a.
     on_error (issue_email_token E (acc_did a) ''reset'' addr) internal_error (\<lambda>token.
     go_bind (ignoring (Send E sn addr ''Reset your password'' (''Your reset code: '' @ token))) (\<lambda>_.
     WriteJSON (JObj [])))))"

definition HandleResetPassword :: "'r env \<Rightarrow> go_error + string \<times> string \<Rightarrow> 'r handler" where
  "HandleResetPassword E body =
     DecodeBody body (\<lambda>(token, password).
     on_error (findEmailToken E token ''reset'') (\<lambda>_. invalid_code) (\<lambda>(did, addr).
     on_error (HashPassword E password) internal_error (\<lambda>hash.
     on_error (sql E (update_account did (\<lambda>a. a\<lparr>acc_password_hash := hash\<rparr>))) internal_error (\<lambda>_.
     go_bind (markEmailTokenUsed E token) (\<lambda>_.
     WriteJSON (JObj []))))))"

end
