(* ===== verification/Batch.thy ===== *)
theory Batch
  imports Manager
begin

text \<open>
  What a batch of writes does. The first part bounds the effect of every operation of the
  write path: which tables it may touch, in which order, and that it never reaches the rows
  of another account. The second part gives the meaning of a batch: a sequence of record
  operations on the tree of the repo, each seeing the ones before it. The third part follows
  the blocks a commit adds into the event it emits. The laws of indigo's handle are
  \<open>tree_laws\<close>.
\<close>

section \<open>Effects on the tables\<close>

subsection \<open>Before the commit\<close>

text \<open>The database without the content-addressed blocks.\<close>

definition but_blocks :: "database \<Rightarrow> database" where
  "but_blocks d = d\<lparr>repo_blocks := []\<rparr>"

lemma but_blocks_eq:
  assumes "but_blocks d = but_blocks d'"
  shows "accounts d = accounts d'" "repo_commits d = repo_commits d'" "repo_records d = repo_records d'"
    "repo_block_revs d = repo_block_revs d'" "firehose_events d = firehose_events d'" "relays d = relays d'"
  using arg_cong [OF assms, of accounts] arg_cong [OF assms, of repo_commits]
    arg_cong [OF assms, of repo_records] arg_cong [OF assms, of repo_block_revs]
    arg_cong [OF assms, of firehose_events] arg_cong [OF assms, of relays]
  by (simp_all add: but_blocks_def)

lemma keeps_or_no_rows [keeps_intro]: "keeps f m \<Longrightarrow> keeps f (or_no_rows m)"
  by (rule keepsI) (auto simp: or_no_rows_def split: prod.splits sum.splits go_error.splits dest: keepsD)

lemma preserves_or_no_rows [preserves_intro]: "preserves P m \<Longrightarrow> preserves P (or_no_rows m)"
  by (rule preservesI)
     (auto simp: or_no_rows_def split: prod.splits sum.splits go_error.splits dest: preservesD)

lemma or_no_rows_Inr_iff [go_inv]:
  "or_no_rows m s = (Inr x, t) \<longleftrightarrow>
     m s = (Inl SqlNoRows, t) \<and> x = None \<or> (\<exists>y. m s = (Inr y, t) \<and> x = Some y)"
  by (auto simp: or_no_rows_def split: prod.splits sum.splits go_error.splits)

text \<open>
  The part of the state a call of the handle of \<open>did\<close> may change: the blocks, the recording
  and that handle.
\<close>

definition off_handle :: "did \<Rightarrow> ('r pds \<Rightarrow> 'x) \<Rightarrow> bool" where
  "off_handle did f \<longleftrightarrow>
     (\<forall>s n. f (s\<lparr>tick := n\<rparr>) = f s) \<and>
     (\<forall>s n t. f (s\<lparr>tick := n, db := (db s)\<lparr>repo_blocks := t\<rparr>\<rparr>) = f s) \<and>
     (\<forall>s n. f (s\<lparr>tick := n, db := db s\<rparr>) = f s) \<and>
     (\<forall>s r. f (s\<lparr>recorded := r\<rparr>) = f s) \<and>
     (\<forall>s h. f (s\<lparr>repos := (repos s)(did := h)\<rparr>) = f s)"

lemma off_handleD:
  assumes "off_handle did f"
  shows "f (s\<lparr>tick := n\<rparr>) = f s" "f (s\<lparr>tick := n, db := (db s)\<lparr>repo_blocks := t\<rparr>\<rparr>) = f s"
    "f (s\<lparr>tick := n, db := db s\<rparr>) = f s" "f (s\<lparr>recorded := r\<rparr>) = f s"
    "f (s\<lparr>repos := (repos s)(did := h)\<rparr>) = f s"
  using assms by (auto simp: off_handle_def)

lemma off_handle_simps [simp]:
  "off_handle did (\<lambda>s. but_blocks (db s))" "off_handle did emitter" "off_handle did files"
  "off_handle did outbox" "off_handle did public_url"
  by (simp_all add: off_handle_def but_blocks_def)

lemma off_handle_other [simp]: "did' \<noteq> did \<Longrightarrow> off_handle did (\<lambda>s. repos s did')"
  by (simp add: off_handle_def)

lemma off_handle_comp: "off_handle did f \<Longrightarrow> off_handle did (\<lambda>s. g (f s))"
  by (simp add: off_handle_def)

lemma keeps_lib_run: "off_handle did f \<Longrightarrow> keeps f (run_blk (rec_get E) (rec_put E) p)"
  by (intro keeps_run_blk keeps_rec_put) (simp_all add: rec_get_def keeps_bs_get off_handleD)

lemma keeps_query:
  "off_handle did f \<Longrightarrow> keeps f (sql E (q_row g))" "off_handle did f \<Longrightarrow> keeps f (sql E (q_rows h))"
  by (rule keeps_sql; simp add: off_handleD go_inv)+

lemma keeps_open: "off_handle did f \<Longrightarrow> keeps f (open_repo E did)"
  unfolding open_repo_def
  by (intro keeps_intro keeps_lib_run keeps_query keeps_modify) (simp_all add: off_handleD)

lemma keeps_lib_call: "off_handle did f \<Longrightarrow> keeps f (lib_call E did g)"
  unfolding lib_call_def
  by (intro keeps_intro keeps_lib_run keeps_modify) (simp_all add: off_handleD)

lemma keeps_batchRecordCID: "off_handle did f \<Longrightarrow> keeps f (batchRecordCID E cur did c k)"
  unfolding batchRecordCID_def recordCID_def Let_def
  by (intro keeps_intro keeps_query)

lemma keeps_apply_op: "off_handle did f \<Longrightarrow> keeps f (apply_op E did o1 b)"
  unfolding apply_op_def op_create_def op_update_def op_delete_def
  by (intro keeps_intro keeps_lib_call keeps_batchRecordCID)

lemma keeps_apply_ops: "off_handle did f \<Longrightarrow> keeps f (apply_ops E did ops b)"
  by (induction ops arbitrary: b) (simp_all add: keeps_ret keeps_bind keeps_apply_op)

lemma keeps_check_swap: "off_handle did f \<Longrightarrow> keeps f (check_swap_commit E did sw)"
  unfolding check_swap_commit_def headCID_def by (intro keeps_intro keeps_query)

lemma keeps_rec_begin: "off_handle did f \<Longrightarrow> keeps f rec_begin"
  unfolding rec_begin_def by (rule keeps_modify) (simp add: off_handleD)

lemma keeps_rec_drain: "off_handle did f \<Longrightarrow> keeps f rec_drain"
  unfolding rec_drain_def by (intro keeps_intro keeps_modify) (simp add: off_handleD)

lemma keeps_signed_of: "keeps f (signed_of E did)"
  unfolding signed_of_def by (intro keeps_intro)

lemma keeps_signingKey: "off_handle did f \<Longrightarrow> keeps f (signingKey E did)"
  unfolding signingKey_def by (intro keeps_intro keeps_query)

subsection \<open>Writers\<close>

lemma keeps_w_lift: "keeps f m \<Longrightarrow> keeps (\<lambda>(s, w). f s) (w_lift m)"
  by (rule keepsI) (auto simp: w_lift_def split: prod.splits dest: keepsD)

lemma keeps_w_emit: "keeps (\<lambda>(s, w). f s) (w_emit bs)"
  by (rule keepsI) (auto simp: w_emit_def split: prod.splits)

lemma keeps_w_buffer: "keeps (\<lambda>(s, w). f s) m \<Longrightarrow> keeps f (w_buffer m)"
  by (rule keepsI) (fastforce simp: w_buffer_def split: prod.splits sum.splits dest: keepsD)

lemma keeps_car_writers:
  "keeps (\<lambda>(s, w). f s) (writeCarHeader E roots)"
  "keeps (\<lambda>(s, w). f s) (writeCarBlock c data)"
  unfolding writeCarHeader_def writeCarBlock_def by (intro keeps_intro keeps_w_emit)+

lemma keeps_write_blocks:
  "off_handle did f \<Longrightarrow> keeps (\<lambda>(s, w). f s) (write_blocks E g cids)"
  unfolding write_blocks_def
  by (intro keeps_intro keeps_w_lift keeps_car_writers) (simp add: off_handleD)

lemma keeps_WriteRepoCAR:
  "off_handle did f \<Longrightarrow> keeps (\<lambda>(s, w). f s) (WriteRepoCAR E d since)"
  unfolding WriteRepoCAR_def Head_def RepoCids_def
  by (intro keeps_intro keeps_w_lift keeps_query keeps_car_writers keeps_write_blocks)

subsection \<open>The rows of other accounts\<close>

definition others :: "did \<Rightarrow> database \<Rightarrow> database" where
  "others did d = d\<lparr>
     repo_commits := filter (\<lambda>r. cm_did r \<noteq> did) (repo_commits d),
     repo_records := filter (\<lambda>r. rr_did r \<noteq> did) (repo_records d),
     repo_block_revs := filter (\<lambda>r. br_did r \<noteq> did) (repo_block_revs d),
     repo_blocks := [], firehose_events := []\<rparr>"

lemma filter_tbl_upsert:
  "\<not> p r \<Longrightarrow> (\<And>x. key x = key r \<Longrightarrow> \<not> p x) \<Longrightarrow> filter p (tbl_upsert key r t) = filter p t"
proof (cases "tbl_has key (key r) t")
  case True
  assume "\<not> p r" and other: "\<And>x. key x = key r \<Longrightarrow> \<not> p x"
  then have "filter p (map (\<lambda>x. if key x = key r then r else x) t) = filter p t"
    by (induction t) auto
  with True show ?thesis by (simp add: tbl_upsert_def)
qed (simp add: tbl_upsert_def)

lemma filter_tbl_delete: "(\<And>x. q x \<Longrightarrow> \<not> p x) \<Longrightarrow> filter p (tbl_delete q t) = filter p t"
  by (induction t) (auto simp: tbl_delete_def)

text \<open>
  The views a write for \<open>did\<close> leaves alone: those that ignore its rows, the log, the
  emitter and the messages sent.
\<close>

definition off_writer :: "did \<Rightarrow> ('r pds \<Rightarrow> 'x) \<Rightarrow> bool" where
  "off_writer did f \<longleftrightarrow> off_handle did f \<and>
     (\<forall>s n d'. others did d' = others did (db s) \<longrightarrow> f (s\<lparr>tick := n, db := d'\<rparr>) = f s) \<and>
     (\<forall>s e. f (s\<lparr>emitter := e\<rparr>) = f s) \<and>
     (\<forall>s m. f (s\<lparr>outbox := m\<rparr>) = f s)"

lemma off_writer_simps [simp]:
  "off_writer did (\<lambda>s. others did (db s))" "off_writer did files" "off_writer did public_url"
  "did' \<noteq> did \<Longrightarrow> off_writer did (\<lambda>s. repos s did')"
  by (simp_all add: off_writer_def off_handle_def others_def)

lemma off_writer_handle [simp]: "off_writer did f \<Longrightarrow> off_handle did f"
  by (simp add: off_writer_def)

lemma off_writerD:
  assumes "off_writer did f"
  shows "others did d' = others did (db s) \<Longrightarrow> f (s\<lparr>tick := n, db := d'\<rparr>) = f s"
    and "f (s\<lparr>emitter := e\<rparr>) = f s" and "f (s\<lparr>outbox := m\<rparr>) = f s"
  using assms unfolding off_writer_def by blast+

lemma keeps_sql_others:
  assumes "off_writer did f" and "\<And>d x d'. q d = (Inr x, d') \<Longrightarrow> others did d' = others did d"
  shows "keeps f (sql E q)"
  by (rule keeps_sql) (simp_all add: off_handleD(1) [OF off_writer_handle [OF assms(1)]]
      off_writerD(1) [OF assms(1)] assms(2))

lemma others_insert_commit:
  "cm_did row = did \<Longrightarrow> insert_commit row d = (Inr x, d') \<Longrightarrow> others did d' = others did d"
  by (auto simp: insert_commit_def go_inv others_def tbl_insert_def split: sum.splits if_splits)

lemma others_upsert_block_rev:
  "upsert_block_rev did c rv d = (Inr x, d') \<Longrightarrow> others did d' = others did d"
proof -
  have "filter (\<lambda>r. br_did r \<noteq> did) (tbl_upsert block_rev_key \<lparr>br_did = did, br_cid = c, br_rev = rv\<rparr> t) =
        filter (\<lambda>r. br_did r \<noteq> did) t" for t
    by (rule filter_tbl_upsert) auto
  then show "upsert_block_rev did c rv d = (Inr x, d') \<Longrightarrow> others did d' = others did d"
    by (simp add: upsert_block_rev_def go_inv others_def)
qed

lemma others_records:
  "others did (d\<lparr>repo_records := tbl_upsert record_key
     \<lparr>rr_did = did, rr_collection = c, rr_rkey = k, rr_cid = x, rr_value = v\<rparr> (repo_records d)\<rparr>) = others did d"
  "others did (d\<lparr>repo_records := tbl_delete (\<lambda>r. record_key r = (did, c, k)) (repo_records d)\<rparr>) = others did d"
proof -
  have "filter (\<lambda>r. rr_did r \<noteq> did) (tbl_upsert record_key
          \<lparr>rr_did = did, rr_collection = c, rr_rkey = k, rr_cid = x, rr_value = v\<rparr> t) =
        filter (\<lambda>r. rr_did r \<noteq> did) t" for t
    by (rule filter_tbl_upsert) auto
  moreover have "filter (\<lambda>r. rr_did r \<noteq> did) (tbl_delete (\<lambda>r. record_key r = (did, c, k)) t) =
        filter (\<lambda>r. rr_did r \<noteq> did) t" for t
    by (rule filter_tbl_delete) simp
  ultimately show
    "others did (d\<lparr>repo_records := tbl_upsert record_key
       \<lparr>rr_did = did, rr_collection = c, rr_rkey = k, rr_cid = x, rr_value = v\<rparr> (repo_records d)\<rparr>) = others did d"
    "others did (d\<lparr>repo_records := tbl_delete (\<lambda>r. record_key r = (did, c, k)) (repo_records d)\<rparr>) = others did d"
    by (simp_all add: others_def)
qed

lemma keeps_commit:
  assumes off: "off_writer did f"
  shows "keeps f (commit E did)"
  unfolding commit_def
  by (intro keeps_intro keeps_signed_of keeps_signingKey keeps_lib_call
      keeps_rec_drain [OF off_writer_handle [OF off]] keeps_sql_others [OF off]
      off_writer_handle [OF off]; erule others_insert_commit [rotated] others_upsert_block_rev; simp)

lemma keeps_write_index:
  assumes off: "off_writer did f"
  shows "keeps f (write_index E did b)"
  unfolding write_index_def upsertRecord_def delete_record_row_def
  by (intro keeps_intro keeps_sql_others [OF off]; simp only: go_inv others_records)

lemma keeps_publish:
  assumes off: "off_writer did f"
  shows "keeps f (publish E ty ev)"
  by (rule publish_keeps)
     (simp_all add: off_writerD [OF off] off_handleD [OF off_writer_handle [OF off]] others_def)

lemma keeps_notifyRelays:
  assumes off: "off_writer did f"
  shows "keeps f (notifyRelays E)"
  unfolding notifyRelays_def
  by (intro keeps_intro keeps_query(2) [OF off_writer_handle [OF off]] keeps_modify)
     (simp_all add: off_writerD [OF off])

lemma keeps_emitCommit:
  assumes off: "off_writer did f"
  shows "keeps f (emitCommit E did res ops)"
  unfolding emitCommit_def
  by (intro keeps_intro keeps_w_buffer keeps_WriteRepoCAR [OF off_writer_handle [OF off]]
      keeps_publish [OF off] keeps_notifyRelays [OF off])

lemma keeps_applyWrites:
  assumes off: "off_writer did f"
  shows "keeps f (applyWrites E did ops sw)"
  unfolding applyWrites_def
  by (intro keeps_intro keeps_rec_begin [OF off_writer_handle [OF off]] keeps_open keeps_check_swap
      keeps_apply_ops keeps_commit [OF off] keeps_write_index [OF off]
      keeps_emitCommit [OF off] off_writer_handle [OF off])

subsection \<open>The commit row comes first\<close>

text \<open>
  \<open>appends f g P m\<close>: either \<open>m\<close> fails and leaves the view \<open>f\<close> alone, or it appends
  one row satisfying \<open>P\<close> to the table \<open>g\<close>.
\<close>

definition appends :: "('s \<Rightarrow> 'x) \<Rightarrow> ('s \<Rightarrow> 'r list) \<Rightarrow> ('r \<Rightarrow> bool) \<Rightarrow> ('s, 'a) go \<Rightarrow> bool" where
  "appends f g P m \<longleftrightarrow> (\<forall>s r t. m s = (r, t) \<longrightarrow>
     isl r \<and> f t = f s \<or> (\<exists>row. P row \<and> g t = g s @ [row]))"

lemma appendsD:
  "appends f g P m \<Longrightarrow> m s = (r, t) \<Longrightarrow> isl r \<and> f t = f s \<or> (\<exists>row. P row \<and> g t = g s @ [row])"
  unfolding appends_def by blast

lemma appends_after:
  assumes "keeps f m" and "keeps g m" and "\<And>x. appends f g P (k x)"
  shows "appends f g P (go_bind m k)"
  unfolding appends_def
proof (intro allI impI)
  fix s r t
  assume run: "go_bind m k s = (r, t)"
  obtain a u where u: "m s = (a, u)" by fastforce
  then have fg: "f u = f s" "g u = g s" using assms(1,2) by (auto dest: keepsD)
  show "isl r \<and> f t = f s \<or> (\<exists>row. P row \<and> g t = g s @ [row])"
  proof (cases a)
    case (Inl e)
    with run u fg show ?thesis by (auto simp: go_bind_def)
  next
    case (Inr x)
    with run u have "k x u = (r, t)" by (simp add: go_bind_def)
    from appendsD [OF assms(3) this] fg show ?thesis by simp
  qed
qed

lemma appends_then:
  assumes "appends f g P m" and "\<And>x. keeps g (k x)"
  shows "appends f g P (go_bind m k)"
  unfolding appends_def
proof (intro allI impI)
  fix s r t
  assume run: "go_bind m k s = (r, t)"
  obtain a u where u: "m s = (a, u)" by fastforce
  show "isl r \<and> f t = f s \<or> (\<exists>row. P row \<and> g t = g s @ [row])"
  proof (cases a)
    case (Inl e)
    then have "r = Inl e" "t = u" using run u by (auto simp: go_bind_def)
    with Inl appendsD [OF assms(1) u] show ?thesis by auto
  next
    case (Inr x)
    then have "k x u = (r, t)" using run u by (simp add: go_bind_def)
    then have "g t = g u" using assms(2) by (auto dest: keepsD)
    with Inr appendsD [OF assms(1) u] show ?thesis by auto
  qed
qed

lemma appends_wrap: "appends f g P m \<Longrightarrow> appends f g P (go_wrap w m)"
  unfolding appends_def go_wrap_def by (auto split: prod.splits sum.splits)

lemma appends_case_prod:
  "(\<And>x y. appends f g P (m x y)) \<Longrightarrow> appends f g P (case p of (x, y) \<Rightarrow> m x y)"
  by (cases p) simp

lemma appends_insert_commit:
  assumes "off_handle did f" and "P row"
  shows "appends f (\<lambda>s. repo_commits (db s)) P (sql E (insert_commit row))"
  unfolding appends_def
proof (intro allI impI)
  fix s r t
  assume run: "sql E (insert_commit row) s = (r, t)"
  show "isl r \<and> f t = f s \<or> (\<exists>row. P row \<and> repo_commits (db t) = repo_commits (db s) @ [row])"
  proof (cases r)
    case (Inl e)
    with run show ?thesis by (auto dest!: sql_InlD simp: off_handleD [OF assms(1)])
  next
    case (Inr u)
    with run assms(2) show ?thesis
      by (auto simp: go_inv insert_commit_def tbl_insert_def split: sum.splits if_splits)
  qed
qed

text \<open>What runs before and after the insert leaves the commits alone.\<close>

lemma keeps_commits:
  "off_handle did (\<lambda>s. repo_commits (db s))"
  "keeps (\<lambda>s. repo_commits (db s)) (sql E (upsert_block_rev did c rv))"
  "keeps (\<lambda>s. repo_commits (db s)) (write_index E did b)"
  "keeps (\<lambda>s. repo_commits (db s)) (emitCommit E did res ops)"
proof -
  show off: "off_handle did (\<lambda>s. repo_commits (db s))" for did :: did
    by (simp add: off_handle_def)
  show "keeps (\<lambda>s. repo_commits (db s)) (sql E (upsert_block_rev did c rv))"
    unfolding upsert_block_rev_def by (rule keeps_sql_exec) simp
  show "keeps (\<lambda>s. repo_commits (db s)) (write_index E did b)"
    unfolding write_index_def upsertRecord_def delete_record_row_def
    by (intro keeps_intro keeps_sql_exec) simp_all
  show "keeps (\<lambda>s. repo_commits (db s)) (emitCommit E did res ops)"
    unfolding emitCommit_def notifyRelays_def
    by (intro keeps_intro keeps_w_buffer keeps_WriteRepoCAR [OF off] publish_keeps keeps_modify) simp_all
qed

lemma appends_commit:
  assumes "off_handle did f"
  shows "appends f (\<lambda>s. repo_commits (db s)) (\<lambda>r. cm_did r = did) (commit E did)"
  unfolding commit_def
  by (intro appends_case_prod appends_after [OF keeps_signed_of keeps_signed_of]
      appends_after [OF keeps_wrap [OF keeps_signingKey [OF assms]] keeps_wrap [OF keeps_signingKey [OF keeps_commits(1)]]]
      appends_after [OF keeps_now keeps_now]
      appends_after [OF keeps_wrap [OF keeps_lib_call [OF assms]] keeps_wrap [OF keeps_lib_call [OF keeps_commits(1)]]]
      appends_then [OF appends_wrap [OF appends_insert_commit [OF assms]]]
      keeps_intro keeps_rec_drain [OF keeps_commits(1)] keeps_commits) simp

lemma appends_applyWrites:
  assumes "off_handle did f"
  shows "appends f (\<lambda>s. repo_commits (db s)) (\<lambda>r. cm_did r = did) (applyWrites E did ops sw)"
  unfolding applyWrites_def
  by (intro appends_after [OF keeps_open [OF assms] keeps_open [OF keeps_commits(1)]]
      appends_after [OF keeps_check_swap [OF assms] keeps_check_swap [OF keeps_commits(1)]]
      appends_after [OF keeps_rec_begin [OF assms] keeps_rec_begin [OF keeps_commits(1)]]
      appends_after [OF keeps_apply_ops [OF assms] keeps_apply_ops [OF keeps_commits(1)]]
      appends_then [OF appends_commit [OF assms]] keeps_intro keeps_commits)

section \<open>The meaning of a batch\<close>

subsection \<open>Calls of the handle\<close>

text \<open>\<open>blk_outcome p x\<close>: some behaviour of the blockstore makes \<open>p\<close> end with \<open>x\<close>.\<close>

inductive blk_outcome :: "'a blk_prog \<Rightarrow> 'a \<Rightarrow> bool" where
  out_done: "blk_outcome (Done x) x"
| out_get: "blk_outcome (k r) x \<Longrightarrow> blk_outcome (GetBlk c k) x"
| out_put: "blk_outcome (k r) x \<Longrightarrow> blk_outcome (PutBlk c data k) x"

inductive_simps blk_outcome_simps [simp]:
  "blk_outcome (Done x) y" "blk_outcome (GetBlk c k) y" "blk_outcome (PutBlk c d k) y"

lemma run_blk_outcome: "run_blk get put p s = (r, t) \<Longrightarrow> \<exists>x. r = Inr x \<and> blk_outcome p x"
proof (induction p arbitrary: s)
  case (Done x)
  then show ?case by (auto simp: go_inv)
next
  case (GetBlk c k)
  then show ?case
    by (fastforce simp: go_bind_def go_try_def split: prod.splits)
next
  case (PutBlk c d k)
  then show ?case
    by (fastforce simp: go_bind_def go_try_def split: prod.splits)
qed

text \<open>
  The laws of indigo's handle: a record operation that succeeds changes the tree at its path
  and nowhere else, \<open>CreateRecord\<close> picks a key that is not taken, \<open>Commit\<close> leaves the tree
  alone, and the CIDs it hands out are valid ones. go-cid's \<open>Cast\<close> reads back a CID's bytes.
\<close>

definition tree_laws :: "'r env \<Rightarrow> ('r \<Rightarrow> string \<Rightarrow> cid option) \<Rightarrow> bool" where
  "tree_laws E tree \<longleftrightarrow>
     (\<forall>did. tree (ix_new E did) = Map.empty) \<and>
     (\<forall>r path rec c r'. blk_outcome (ix_put E r path rec) (Inr c, r') \<longrightarrow>
        cid_cast E c = Inr c \<and> tree r' = (tree r)(path \<mapsto> c)) \<and>
     (\<forall>r now coll rec c k r'. blk_outcome (ix_create E r now coll rec) (Inr (c, k), r') \<longrightarrow>
        cid_cast E c = Inr c \<and> tree r (path_of coll k) = None \<and>
        tree r' = (tree r)(path_of coll k \<mapsto> c)) \<and>
     (\<forall>r path r'. blk_outcome (ix_delete E r path) (Inr (), r') \<longrightarrow> tree r' = (tree r)(path := None)) \<and>
     (\<forall>r now sign x r'. blk_outcome (ix_commit E r now sign) (Inr x, r') \<longrightarrow> tree r' = tree r) \<and>
     (\<forall>x c. cid_cast E x = Inr c \<longrightarrow> c = x \<and> x \<noteq> cid_undef)"

lemma tree_lawsD:
  assumes "tree_laws E tree"
  shows "tree (ix_new E did) = Map.empty"
    and "blk_outcome (ix_put E r path rec) (Inr c, r') \<Longrightarrow>
           cid_cast E c = Inr c \<and> tree r' = (tree r)(path \<mapsto> c)"
    and "blk_outcome (ix_create E r now coll rec) (Inr (c, k), r') \<Longrightarrow>
           cid_cast E c = Inr c \<and> tree r (path_of coll k) = None \<and> tree r' = (tree r)(path_of coll k \<mapsto> c)"
    and "blk_outcome (ix_delete E r path) (Inr (), r') \<Longrightarrow> tree r' = (tree r)(path := None)"
    and "blk_outcome (ix_commit E r now sign) (Inr y, r') \<Longrightarrow> tree r' = tree r"
    and "cid_cast E x = Inr c \<Longrightarrow> c = x \<and> x \<noteq> cid_undef"
proof -
  note A = assms [unfolded tree_laws_def]
  show "tree (ix_new E did) = Map.empty"
    using A [THEN conjunct1] by blast
  show "blk_outcome (ix_put E r path rec) (Inr c, r') \<Longrightarrow>
           cid_cast E c = Inr c \<and> tree r' = (tree r)(path \<mapsto> c)"
    using A [THEN conjunct2, THEN conjunct1] by blast
  show "blk_outcome (ix_create E r now coll rec) (Inr (c, k), r') \<Longrightarrow>
           cid_cast E c = Inr c \<and> tree r (path_of coll k) = None \<and> tree r' = (tree r)(path_of coll k \<mapsto> c)"
    using A [THEN conjunct2, THEN conjunct2, THEN conjunct1] by blast
  show "blk_outcome (ix_delete E r path) (Inr (), r') \<Longrightarrow> tree r' = (tree r)(path := None)"
    using A [THEN conjunct2, THEN conjunct2, THEN conjunct2, THEN conjunct1] by blast
  show "blk_outcome (ix_commit E r now sign) (Inr y, r') \<Longrightarrow> tree r' = tree r"
    using A [THEN conjunct2, THEN conjunct2, THEN conjunct2, THEN conjunct2, THEN conjunct1] by blast
  show "cid_cast E x = Inr c \<Longrightarrow> c = x \<and> x \<noteq> cid_undef"
    using A [THEN conjunct2, THEN conjunct2, THEN conjunct2, THEN conjunct2, THEN conjunct2] by blast
qed

text \<open>A key of the TID clock is none the client chose.\<close>

definition tids_fresh :: "'r env \<Rightarrow> op list \<Rightarrow> bool" where
  "tids_fresh E ops \<longleftrightarrow> (\<forall>r now coll rec c k r'.
     blk_outcome (ix_create E r now coll rec) (Inr (c, k), r') \<longrightarrow> k \<notin> w_rkey ` set ops)"

lemma lib_call_InrD:
  assumes "lib_call E did f s = (Inr x, t)"
  shows "\<exists>r r'. repos s did = Some r \<and> blk_outcome (f r) (Inr x, r') \<and> repos t did = Some r'"
  using assms
  by (fastforce simp: lib_call_def go_inv split: option.splits dest: run_blk_outcome)

subsection \<open>The abstract machine\<close>

text \<open>
  One operation on the tree \<open>m\<close>: what it requires of the record it addresses, what it
  answers to the client and to the firehose, and the tree it leaves. \<open>f\<close> prints a CID.
\<close>

inductive spec_op ::
  "(cid \<Rightarrow> string) \<Rightarrow> op \<Rightarrow> (string \<Rightarrow> cid option) \<Rightarrow> op_result \<times> repo_op \<Rightarrow> (string \<Rightarrow> cid option) \<Rightarrow> bool"
  for f where
  create_tid: "\<lbrakk>w_action w = ''create''; w_rkey w = []; p = path_of (w_collection w) k; m p = None\<rbrakk> \<Longrightarrow>
    spec_op f w m (\<lparr>or_action = ''create'', or_rkey = k, or_cid = f c\<rparr>,
                   \<lparr>op_action = ''create'', op_path = p, op_cid = Some c, op_prev = None\<rparr>) (m(p \<mapsto> c))"
| create: "\<lbrakk>w_action w = ''create''; w_rkey w \<noteq> []; p = path_of (w_collection w) (w_rkey w); m p = None\<rbrakk> \<Longrightarrow>
    spec_op f w m (\<lparr>or_action = ''create'', or_rkey = w_rkey w, or_cid = f c\<rparr>,
                   \<lparr>op_action = ''create'', op_path = p, op_cid = Some c, op_prev = None\<rparr>) (m(p \<mapsto> c))"
| put_new: "\<lbrakk>w_action w = ''update''; p = path_of (w_collection w) (w_rkey w); m p = None; w_swap w = None\<rbrakk> \<Longrightarrow>
    spec_op f w m (\<lparr>or_action = ''update'', or_rkey = w_rkey w, or_cid = f c\<rparr>,
                   \<lparr>op_action = ''create'', op_path = p, op_cid = Some c, op_prev = None\<rparr>) (m(p \<mapsto> c))"
| put_old: "\<lbrakk>w_action w = ''update''; p = path_of (w_collection w) (w_rkey w); m p = Some old;
    w_swap w = None \<or> w_swap w = Some (f old)\<rbrakk> \<Longrightarrow>
    spec_op f w m (\<lparr>or_action = ''update'', or_rkey = w_rkey w, or_cid = f c\<rparr>,
                   \<lparr>op_action = ''update'', op_path = p, op_cid = Some c, op_prev = Some old\<rparr>) (m(p \<mapsto> c))"
| remove: "\<lbrakk>w_action w = ''delete''; p = path_of (w_collection w) (w_rkey w); m p = Some old;
    w_swap w = None \<or> w_swap w = Some (f old)\<rbrakk> \<Longrightarrow>
    spec_op f w m (\<lparr>or_action = ''delete'', or_rkey = w_rkey w, or_cid = []\<rparr>,
                   \<lparr>op_action = ''delete'', op_path = p, op_cid = None, op_prev = Some old\<rparr>) (m(p := None))"

inductive spec_ops ::
  "(cid \<Rightarrow> string) \<Rightarrow> op list \<Rightarrow> (string \<Rightarrow> cid option) \<Rightarrow> (op_result \<times> repo_op) list \<Rightarrow>
   (string \<Rightarrow> cid option) \<Rightarrow> bool"
  for f where
  spec_nil: "spec_ops f [] m [] m"
| spec_cons: "spec_op f w m out m' \<Longrightarrow> spec_ops f ws m' outs m'' \<Longrightarrow> spec_ops f (w # ws) m (out # outs) m''"

subsection \<open>Paths\<close>

lemma path_of_inj:
  "CHR ''/'' \<notin> set c \<Longrightarrow> CHR ''/'' \<notin> set c' \<Longrightarrow> path_of c k = path_of c' k' \<longleftrightarrow> c = c' \<and> k = k'"
proof (induction c arbitrary: c')
  case Nil
  then show ?case by (cases c') (auto simp: path_of_def)
next
  case (Cons x c)
  then show ?case by (cases c') (auto simp: path_of_def)
qed

text \<open>The pending map over the tree at the beginning of the batch.\<close>

definition resolve :: "(string \<Rightarrow> cid option) \<Rightarrow> (string \<Rightarrow> cid option) \<Rightarrow> string \<Rightarrow> cid option" where
  "resolve cur m p = (case cur p of None \<Rightarrow> m p | Some c \<Rightarrow> if c = cid_undef then None else Some c)"

lemma resolve_upd:
  "c \<noteq> cid_undef \<Longrightarrow> resolve (cur(p \<mapsto> c)) m = (resolve cur m)(p \<mapsto> c)"
  "resolve (cur(p \<mapsto> cid_undef)) m = (resolve cur m)(p := None)"
  by (auto simp: resolve_def fun_eq_iff)

text \<open>The CID the index has for a record.\<close>

definition idx :: "database \<Rightarrow> did \<Rightarrow> string \<Rightarrow> string \<Rightarrow> cid option" where
  "idx d did c k = map_option rr_cid (tbl_get record_key (did, c, k) (repo_records d))"

lemma batchRecordCID_resolve:
  assumes laws: "tree_laws E tree" and run: "batchRecordCID E cur did c k s = (Inr (x, ex, cur'), t)"
    and idx: "idx (db s) did c k = m (path_of c k)"
  shows "resolve cur m (path_of c k) = (if ex then Some x else None)"
    and "resolve cur' m = resolve cur m"
proof -
  let ?p = "path_of c k"
  have "resolve cur m ?p = (if ex then Some x else None) \<and> resolve cur' m = resolve cur m"
  proof (cases "cur ?p")
    case (Some y)
    with run show ?thesis by (auto simp: batchRecordCID_def resolve_def go_inv)
  next
    case None
    with run obtain e where e: "recordCID E did c k s = (Inr (x, e), t)" "ex = e" "cur' = cur(?p \<mapsto> x)"
      by (auto simp: batchRecordCID_def go_inv Let_def)
    then have m: "m ?p = (if ex then Some x else None) \<and> (ex \<longleftrightarrow> x \<noteq> cid_undef)"
    proof (cases "tbl_get record_key (did, c, k) (repo_records (db s))")
      case None
      with e idx show ?thesis
        by (auto simp: recordCID_def go_inv idx_def sql_row_NoRows split: option.splits)
    next
      case (Some row)
      with e have "cid_cast E (rr_cid row) = Inr x" "ex"
        by (auto simp: recordCID_def go_inv sql_row_NoRows split: option.splits)
      moreover have "x = rr_cid row" "x \<noteq> cid_undef"
        using tree_lawsD(6) [OF laws \<open>cid_cast E (rr_cid row) = Inr x\<close>] by auto
      ultimately show ?thesis using Some idx by (simp add: idx_def)
    qed
    have "resolve cur' m q = resolve cur m q" for q
      using m None e(3) by (auto simp: resolve_def)
    with m None show ?thesis by (auto simp: resolve_def)
  qed
  then show "resolve cur m ?p = (if ex then Some x else None)" and "resolve cur' m = resolve cur m"
    by auto
qed

subsection \<open>One operation\<close>

lemma batchRecordCID_repos: "batchRecordCID E cur did c k s = (r, t) \<Longrightarrow> repos t = repos s"
proof -
  have "keeps repos (batchRecordCID E cur did c k)"
    unfolding batchRecordCID_def recordCID_def Let_def by (intro keeps_intro keeps_sql_off) simp_all
  then show "batchRecordCID E cur did c k s = (r, t) \<Longrightarrow> repos t = repos s" by (rule keepsD)
qed

text \<open>What one operation does to the handle and to the variables of the batch.\<close>

inductive op_effect ::
  "'r env \<Rightarrow> ('r \<Rightarrow> string \<Rightarrow> cid option) \<Rightarrow> (string \<Rightarrow> cid option) \<Rightarrow> op \<Rightarrow> 'r \<Rightarrow> batch \<Rightarrow> 'r \<Rightarrow> batch \<Rightarrow> bool"
  for E tree m w where
  eff_put: "\<lbrakk>w_action w \<noteq> ''delete''; cid_cast E c = Inr c;
     tree r' = (tree r)(path_of (w_collection w) (w_rkey w) \<mapsto> c);
     resolve (b_cur b') m = (resolve (b_cur b) m)(path_of (w_collection w) (w_rkey w) \<mapsto> c);
     b_upserts b' = b_upserts b @ [\<lparr>iw_collection = w_collection w, iw_rkey = w_rkey w, iw_cid = c, iw_json = w_json w\<rparr>];
     b_deletes b' = b_deletes b\<rbrakk> \<Longrightarrow> op_effect E tree m w r b r' b'"
| eff_tid: "\<lbrakk>w_action w \<noteq> ''delete''; w_rkey w = []; cid_cast E c = Inr c;
     blk_outcome (ix_create E r now (w_collection w) (w_rec w)) (Inr (c, k), r');
     tree r' = (tree r)(path_of (w_collection w) k \<mapsto> c);
     b_cur b' = b_cur b;
     b_upserts b' = b_upserts b @ [\<lparr>iw_collection = w_collection w, iw_rkey = k, iw_cid = c, iw_json = w_json w\<rparr>];
     b_deletes b' = b_deletes b\<rbrakk> \<Longrightarrow> op_effect E tree m w r b r' b'"
| eff_delete: "\<lbrakk>w_action w = ''delete'';
     tree r' = (tree r)(path_of (w_collection w) (w_rkey w) := None);
     resolve (b_cur b') m = (resolve (b_cur b) m)(path_of (w_collection w) (w_rkey w) := None);
     b_upserts b' = b_upserts b;
     b_deletes b' = b_deletes b @ [(w_collection w, w_rkey w)]\<rbrakk> \<Longrightarrow> op_effect E tree m w r b r' b'"

text \<open>The conclusion each kind of operation is proved to have.\<close>

definition op_ok ::
  "'r env \<Rightarrow> ('r \<Rightarrow> string \<Rightarrow> cid option) \<Rightarrow> (string \<Rightarrow> cid option) \<Rightarrow> did \<Rightarrow> op \<Rightarrow> batch \<Rightarrow> 'r \<Rightarrow> batch \<Rightarrow> 'r pds \<Rightarrow> bool" where
  "op_ok E tree m did w b r b' t \<longleftrightarrow> (\<exists>r' out.
     repos t did = Some r' \<and> spec_op (cid_string E) w (tree r) out (tree r') \<and>
     b_results b' = b_results b @ [fst out] \<and> b_ops b' = b_ops b @ [snd out] \<and>
     op_effect E tree m w r b r' b')"

lemma cast_defined: "tree_laws E tree \<Longrightarrow> cid_cast E c = Inr c \<Longrightarrow> c \<noteq> cid_undef"
  using tree_lawsD(6) by blast

lemma op_create_tid_ok:
  assumes laws: "tree_laws E tree" and act: "w_action w = ''create''" and auto: "w_rkey w = []"
    and run: "op_create E did w b s = (Inr b', t)" and h: "repos s did = Some r"
  shows "op_ok E tree m did w b r b' t"
proof -
  from run auto obtain c k where
    call: "lib_call E did (\<lambda>r. ix_create E r (clock E (tick s)) (w_collection w) (w_rec w)) s = (Inr (c, k), t)"
    and b': "b' = note_put E w k c \<lparr>op_action = ''create'', op_path = path_of (w_collection w) k,
               op_cid = Some c, op_prev = None\<rparr> (b_cur b) b"
    by (auto simp: op_create_def go_inv)
  from lib_call_InrD [OF call] h obtain r' where
    r': "blk_outcome (ix_create E r (clock E (tick s)) (w_collection w) (w_rec w)) (Inr (c, k), r')"
      "repos t did = Some r'" by auto
  note law = tree_lawsD(3) [OF laws r'(1)]
  have "op_effect E tree m w r b r' b'"
    by (rule eff_tid [OF _ auto _ r'(1)]) (use act law b' in \<open>simp_all add: note_put_def\<close>)
  then show ?thesis
    unfolding op_ok_def
    using r'(2) law act auto b' spec_op.create_tid [of w "path_of (w_collection w) k" k "tree r" "cid_string E" c]
    by (intro exI [of _ r'] exI conjI) (auto simp: note_put_def)
qed

text \<open>An operation that addresses a record, after its lookup.\<close>

lemma op_put_ok:
  assumes laws: "tree_laws E tree" and act: "w_action w \<noteq> ''delete''"
    and look: "resolve cur m = resolve (b_cur b) m"
    and call: "lib_call E did (\<lambda>r. ix_put E r (path_of (w_collection w) (w_rkey w)) (w_rec w)) u = (Inr c, t)"
    and h: "repos u did = Some r"
    and b': "b' = note_put E w (w_rkey w) c fh (cur(path_of (w_collection w) (w_rkey w) \<mapsto> c)) b"
    and spec: "\<And>c. spec_op (cid_string E) w (tree r)
        (\<lparr>or_action = w_action w, or_rkey = w_rkey w, or_cid = cid_string E c\<rparr>, fh' c)
        ((tree r)(path_of (w_collection w) (w_rkey w) \<mapsto> c))"
    and fh: "fh = fh' c"
  shows "op_ok E tree m did w b r b' t"
proof -
  from lib_call_InrD [OF call] h obtain r' where
    r': "blk_outcome (ix_put E r (path_of (w_collection w) (w_rkey w)) (w_rec w)) (Inr c, r')"
      "repos t did = Some r'" by auto
  note law = tree_lawsD(2) [OF laws r'(1)]
  have "resolve (b_cur b') m = (resolve (b_cur b) m)(path_of (w_collection w) (w_rkey w) \<mapsto> c)"
    using law cast_defined [OF laws] b' by (simp add: note_put_def resolve_upd look)
  then have "op_effect E tree m w r b r' b'"
    by (intro eff_put [where c = c]) (use act law b' in \<open>simp_all add: note_put_def\<close>)
  with r'(2) law b' spec [of c] show ?thesis
    unfolding op_ok_def fh by (intro exI [of _ r'] exI conjI) (auto simp: note_put_def)
qed

lemma op_create_ok:
  assumes laws: "tree_laws E tree" and act: "w_action w = ''create''" and key: "w_rkey w \<noteq> []"
    and run: "op_create E did w b s = (Inr b', t)" and h: "repos s did = Some r"
    and idx: "idx (db s) did (w_collection w) (w_rkey w) = m (path_of (w_collection w) (w_rkey w))"
    and res: "resolve (b_cur b) m (path_of (w_collection w) (w_rkey w)) = tree r (path_of (w_collection w) (w_rkey w))"
  shows "op_ok E tree m did w b r b' t"
proof -
  let ?p = "path_of (w_collection w) (w_rkey w)"
  from run key obtain x cur c u where
    look: "batchRecordCID E (b_cur b) did (w_collection w) (w_rkey w) s = (Inr (x, False, cur), u)"
    and call: "lib_call E did (\<lambda>r. ix_put E r ?p (w_rec w)) u = (Inr c, t)"
    and b': "b' = note_put E w (w_rkey w) c \<lparr>op_action = ''create'', op_path = ?p, op_cid = Some c,
               op_prev = None\<rparr> (cur(?p \<mapsto> c)) b"
    by (auto simp: op_create_def go_inv split: if_splits)
  note R = batchRecordCID_resolve [where m = m, OF laws look idx]
  have none: "tree r ?p = None" using R(1) res by simp
  show ?thesis
    by (rule op_put_ok [where m = m and fh' = "\<lambda>c. \<lparr>op_action = ''create'', op_path = ?p, op_cid = Some c,
          op_prev = None\<rparr>", OF laws _ R(2) call _ b'])
       (use act h batchRecordCID_repos [OF look] spec_op.create [where m = "tree r" and f = "cid_string E", OF act key refl none] in simp_all)
qed

lemma op_update_ok:
  assumes laws: "tree_laws E tree" and act: "w_action w = ''update''"
    and run: "op_update E did w b s = (Inr b', t)" and h: "repos s did = Some r"
    and idx: "idx (db s) did (w_collection w) (w_rkey w) = m (path_of (w_collection w) (w_rkey w))"
    and res: "resolve (b_cur b) m (path_of (w_collection w) (w_rkey w)) = tree r (path_of (w_collection w) (w_rkey w))"
  shows "op_ok E tree m did w b r b' t"
proof -
  let ?p = "path_of (w_collection w) (w_rkey w)"
  from run obtain x ex cur c u where
    look: "batchRecordCID E (b_cur b) did (w_collection w) (w_rkey w) s = (Inr (x, ex, cur), u)"
    and swap: "w_swap w = None \<or> ex \<and> cid_string E x = the (w_swap w)"
    and call: "lib_call E did (\<lambda>r. ix_put E r ?p (w_rec w)) u = (Inr c, t)"
    and b': "b' = note_put E w (w_rkey w) c \<lparr>op_action = (if ex then ''update'' else ''create''), op_path = ?p,
               op_cid = Some c, op_prev = (if ex then Some x else None)\<rparr> (cur(?p \<mapsto> c)) b"
    by (auto simp: op_update_def go_inv split: if_splits)
  note R = batchRecordCID_resolve [where m = m, OF laws look idx]
  have spec: "spec_op (cid_string E) w (tree r)
      (\<lparr>or_action = w_action w, or_rkey = w_rkey w, or_cid = cid_string E c\<rparr>,
       \<lparr>op_action = (if ex then ''update'' else ''create''), op_path = ?p, op_cid = Some c,
        op_prev = (if ex then Some x else None)\<rparr>)
      ((tree r)(?p \<mapsto> c))" for c
  proof (cases ex)
    case True
    then have "tree r ?p = Some x" "w_swap w = None \<or> w_swap w = Some (cid_string E x)"
      using R(1) res swap by (cases "w_swap w"; simp)+
    from spec_op.put_old [where m = "tree r" and f = "cid_string E", OF act refl this] True act show ?thesis by simp
  next
    case False
    then have "tree r ?p = None" "w_swap w = None" using R(1) res swap by auto
    from spec_op.put_new [where m = "tree r" and f = "cid_string E", OF act refl this] False act show ?thesis by simp
  qed
  show ?thesis
    by (rule op_put_ok [where m = m, OF laws _ R(2) call _ b' spec refl])
       (use act h batchRecordCID_repos [OF look] in simp_all)
qed

lemma op_delete_ok:
  assumes laws: "tree_laws E tree" and act: "w_action w = ''delete''"
    and run: "op_delete E did w b s = (Inr b', t)" and h: "repos s did = Some r"
    and idx: "idx (db s) did (w_collection w) (w_rkey w) = m (path_of (w_collection w) (w_rkey w))"
    and res: "resolve (b_cur b) m (path_of (w_collection w) (w_rkey w)) = tree r (path_of (w_collection w) (w_rkey w))"
  shows "op_ok E tree m did w b r b' t"
proof -
  let ?p = "path_of (w_collection w) (w_rkey w)"
  from run obtain x cur u where
    look: "batchRecordCID E (b_cur b) did (w_collection w) (w_rkey w) s = (Inr (x, True, cur), u)"
    and swap: "w_swap w = None \<or> cid_string E x = the (w_swap w)"
    and call: "lib_call E did (\<lambda>r. ix_delete E r ?p) u = (Inr (), t)"
    and b': "b' = b\<lparr>b_cur := cur(?p \<mapsto> cid_undef), b_deletes := b_deletes b @ [(w_collection w, w_rkey w)],
        b_ops := b_ops b @ [\<lparr>op_action = ''delete'', op_path = ?p, op_cid = None, op_prev = Some x\<rparr>],
        b_results := b_results b @ [\<lparr>or_action = ''delete'', or_rkey = w_rkey w, or_cid = []\<rparr>]\<rparr>"
    by (auto simp: op_delete_def go_inv split: if_splits)
  note R = batchRecordCID_resolve [where m = m, OF laws look idx]
  from lib_call_InrD [OF call] h batchRecordCID_repos [OF look] obtain r' where
    r': "blk_outcome (ix_delete E r ?p) (Inr (), r')" "repos t did = Some r'" by auto
  note law = tree_lawsD(4) [OF laws r'(1)]
  have old: "tree r ?p = Some x" "w_swap w = None \<or> w_swap w = Some (cid_string E x)"
    using R(1) res swap by (cases "w_swap w"; simp)+
  have "op_effect E tree m w r b r' b'"
    by (rule eff_delete) (use act law b' R(2) in \<open>simp_all add: resolve_upd\<close>)
  with r'(2) law b' spec_op.remove [where m = "tree r" and f = "cid_string E", OF act refl old] show ?thesis
    unfolding op_ok_def by (intro exI [of _ r'] exI conjI) (auto)
qed

lemma apply_op_ok:
  assumes laws: "tree_laws E tree" and run: "apply_op E did w b s = (Inr b', t)" and h: "repos s did = Some r"
    and idx: "\<not> (w_action w = ''create'' \<and> w_rkey w = []) \<Longrightarrow>
       idx (db s) did (w_collection w) (w_rkey w) = m (path_of (w_collection w) (w_rkey w))"
    and res: "\<not> (w_action w = ''create'' \<and> w_rkey w = []) \<Longrightarrow>
       resolve (b_cur b) m (path_of (w_collection w) (w_rkey w)) = tree r (path_of (w_collection w) (w_rkey w))"
  shows "op_ok E tree m did w b r b' t"
proof -
  consider (tid) "w_action w = ''create''" "w_rkey w = []"
    | (create) "w_action w = ''create''" "w_rkey w \<noteq> []"
    | (update) "w_action w = ''update''" | (delete) "w_action w = ''delete''"
    using run by (auto simp: apply_op_def go_inv split: if_splits)
  then show ?thesis
  proof cases
    case tid
    then show ?thesis using run by (intro op_create_tid_ok [OF laws _ _ _ h]) (simp_all add: apply_op_def)
  next
    case create
    then show ?thesis using run by (intro op_create_ok [OF laws _ _ _ h idx res]) (simp_all add: apply_op_def)
  next
    case update
    then show ?thesis using run by (intro op_update_ok [OF laws _ _ h idx res]) (simp_all add: apply_op_def)
  next
    case delete
    then show ?thesis using run by (intro op_delete_ok [OF laws _ _ h idx res]) (simp_all add: apply_op_def)
  qed
qed

subsection \<open>All operations of a batch\<close>

inductive op_effects ::
  "'r env \<Rightarrow> ('r \<Rightarrow> string \<Rightarrow> cid option) \<Rightarrow> (string \<Rightarrow> cid option) \<Rightarrow> op list \<Rightarrow> 'r \<Rightarrow> batch \<Rightarrow> 'r \<Rightarrow> batch \<Rightarrow> bool"
  for E tree m where
  effs_nil: "op_effects E tree m [] r b r b"
| effs_cons: "op_effect E tree m w r b r' b' \<Longrightarrow> op_effects E tree m ws r' b' r'' b'' \<Longrightarrow>
    op_effects E tree m (w # ws) r b r'' b''"

definition explicit :: "op \<Rightarrow> bool" where
  "explicit w \<longleftrightarrow> \<not> (w_action w = ''create'' \<and> w_rkey w = [])"

definition plain_collections :: "op list \<Rightarrow> bool" where
  "plain_collections ops \<longleftrightarrow> (\<forall>w \<in> set ops. CHR ''/'' \<notin> set (w_collection w))"

text \<open>The pending map agrees with the tree on every record a remaining operation addresses.\<close>

lemma op_effect_resolve:
  assumes eff: "op_effect E tree m w r b r' b'"
    and fresh: "tids_fresh E ops" and plain: "plain_collections ops"
    and w: "w \<in> set ops" and v: "v \<in> set ops"
    and res: "resolve (b_cur b) m (path_of (w_collection v) (w_rkey v)) = tree r (path_of (w_collection v) (w_rkey v))"
  shows "resolve (b_cur b') m (path_of (w_collection v) (w_rkey v)) = tree r' (path_of (w_collection v) (w_rkey v))"
  using eff
proof cases
  case (eff_put c)
  then show ?thesis using res by simp
next
  case (eff_delete)
  then show ?thesis using res by simp
next
  case (eff_tid c now k)
  have "k \<noteq> w_rkey v" using fresh eff_tid(4) v unfolding tids_fresh_def by blast
  then have "path_of (w_collection v) (w_rkey v) \<noteq> path_of (w_collection w) k"
    using plain w v by (simp add: plain_collections_def path_of_inj)
  then show ?thesis using res eff_tid by simp
qed

lemma apply_ops_ok:
  assumes laws: "tree_laws E tree" and fresh: "tids_fresh E ops" and plain: "plain_collections ops"
  shows "\<lbrakk>apply_ops E did ws b s = (Inr b', t); repos s did = Some r; set ws \<subseteq> set ops;
     \<And>w. w \<in> set ws \<Longrightarrow> explicit w \<Longrightarrow>
       idx (db s) did (w_collection w) (w_rkey w) = m (path_of (w_collection w) (w_rkey w));
     \<And>w. w \<in> set ws \<Longrightarrow> explicit w \<Longrightarrow>
       resolve (b_cur b) m (path_of (w_collection w) (w_rkey w)) = tree r (path_of (w_collection w) (w_rkey w))\<rbrakk> \<Longrightarrow>
   \<exists>r' outs. repos t did = Some r' \<and> spec_ops (cid_string E) ws (tree r) outs (tree r') \<and>
     b_results b' = b_results b @ map fst outs \<and> b_ops b' = b_ops b @ map snd outs \<and>
     op_effects E tree m ws r b r' b'"
proof (induction ws arbitrary: b s r)
  case Nil
  then show ?case by (auto simp: go_inv intro: spec_nil effs_nil)
next
  case (Cons w ws)
  from Cons.prems(1) obtain b1 u where
    head: "apply_op E did w b s = (Inr b1, u)" and tail: "apply_ops E did ws b1 u = (Inr b', t)"
    by (auto simp: go_inv)
  have "op_ok E tree m did w b r b1 u"
    by (rule apply_op_ok [OF laws head Cons.prems(2)]) (use Cons.prems(4,5) in \<open>simp_all add: explicit_def\<close>)
  then obtain r1 out where r1: "repos u did = Some r1" "spec_op (cid_string E) w (tree r) out (tree r1)"
      "b_results b1 = b_results b @ [fst out]" "b_ops b1 = b_ops b @ [snd out]" "op_effect E tree m w r b r1 b1"
    unfolding op_ok_def by blast
  have db: "but_blocks (db u) = but_blocks (db s)"
    by (rule keepsD [OF keeps_apply_op head]) simp
  have idx: "idx (db u) did c k = idx (db s) did c k" for c k
    by (simp add: idx_def but_blocks_eq(3) [OF db])
  have "\<exists>r' outs. repos t did = Some r' \<and> spec_ops (cid_string E) ws (tree r1) outs (tree r') \<and>
     b_results b' = b_results b1 @ map fst outs \<and> b_ops b' = b_ops b1 @ map snd outs \<and>
     op_effects E tree m ws r1 b1 r' b'"
  proof (rule Cons.IH [OF tail r1(1)])
    show "set ws \<subseteq> set ops" using Cons.prems(3) by simp
    show "idx (db u) did (w_collection v) (w_rkey v) = m (path_of (w_collection v) (w_rkey v))"
      if "v \<in> set ws" "explicit v" for v
      using that Cons.prems(4) by (simp add: idx)
    show "resolve (b_cur b1) m (path_of (w_collection v) (w_rkey v)) = tree r1 (path_of (w_collection v) (w_rkey v))"
      if "v \<in> set ws" "explicit v" for v
      by (rule op_effect_resolve [OF r1(5) fresh plain]) (use that Cons.prems(3,5) in auto)
  qed
  then obtain r' outs where r': "repos t did = Some r'" "spec_ops (cid_string E) ws (tree r1) outs (tree r')"
      "b_results b' = b_results b1 @ map fst outs" "b_ops b' = b_ops b1 @ map snd outs"
      "op_effects E tree m ws r1 b1 r' b'" by blast
  show ?case
    by (rule exI [of _ r'], rule exI [of _ "out # outs"])
       (use r' r1 spec_cons [OF r1(2) r'(2)] effs_cons [OF r1(5) r'(5)] in simp)
qed

subsection \<open>The index\<close>

text \<open>No operation writes a record an earlier one of the batch deletes.\<close>

fun no_rewrite :: "(string \<times> string) list \<Rightarrow> op list \<Rightarrow> bool" where
  "no_rewrite D [] = True"
| "no_rewrite D (w # ws) =
     (if w_action w = ''delete'' then no_rewrite (D @ [(w_collection w, w_rkey w)]) ws
      else (w_collection w, w_rkey w) \<notin> set D \<and> no_rewrite D ws)"

text \<open>What the index will have for a record once the batch is written to it.\<close>

definition net :: "batch \<Rightarrow> (string \<Rightarrow> cid option) \<Rightarrow> string \<Rightarrow> string \<Rightarrow> cid option" where
  "net b m c k =
     (if (c, k) \<in> set (b_deletes b) then None
      else case find (\<lambda>iw. (iw_collection iw, iw_rkey iw) = (c, k)) (rev (b_upserts b)) of
             Some iw \<Rightarrow> Some (iw_cid iw)
           | None \<Rightarrow> m (path_of c k))"

lemma net_put:
  assumes "b_upserts b' = b_upserts b @ [\<lparr>iw_collection = c0, iw_rkey = k0, iw_cid = x, iw_json = j\<rparr>]"
    and "b_deletes b' = b_deletes b" and "(c0, k0) \<notin> set (b_deletes b)"
  shows "net b' m c k = (if (c, k) = (c0, k0) then Some x else net b m c k)"
  using assms by (auto simp: net_def)

lemma net_delete:
  assumes "b_upserts b' = b_upserts b" and "b_deletes b' = b_deletes b @ [(c0, k0)]"
  shows "net b' m c k = (if (c, k) = (c0, k0) then None else net b m c k)"
  using assms by (auto simp: net_def)

lemma op_effects_net:
  assumes fresh: "tids_fresh E ops" and plain: "plain_collections ops"
  shows "\<lbrakk>op_effects E tree m ws r b r' b'; set ws \<subseteq> set ops; no_rewrite (b_deletes b) ws;
     snd ` set (b_deletes b) \<subseteq> w_rkey ` set ops;
     \<And>c k. CHR ''/'' \<notin> set c \<Longrightarrow> tree r (path_of c k) = net b m c k; CHR ''/'' \<notin> set c\<rbrakk> \<Longrightarrow>
   tree r' (path_of c k) = net b' m c k"
proof (induction ws r b r' b' arbitrary: c k rule: op_effects.induct)
  case (effs_nil r b)
  then show ?case by simp
next
  case (effs_cons w r b r1 b1 ws r2 b2)
  have w: "w \<in> set ops" "CHR ''/'' \<notin> set (w_collection w)"
    using effs_cons.prems(1) plain by (auto simp: plain_collections_def)
  have "set ws \<subseteq> set ops" using effs_cons.prems(1) by simp
  moreover have "no_rewrite (b_deletes b1) ws \<and> snd ` set (b_deletes b1) \<subseteq> w_rkey ` set ops \<and>
      (\<forall>c k. CHR ''/'' \<notin> set c \<longrightarrow> tree r1 (path_of c k) = net b1 m c k)"
    using effs_cons.hyps(1)
  proof cases
    case (eff_put x)
    then show ?thesis
      using effs_cons.prems w by (auto simp: net_put [OF eff_put(5,6)] path_of_inj)
  next
    case (eff_tid x now kk)
    have "kk \<notin> w_rkey ` set ops" using fresh eff_tid(4) unfolding tids_fresh_def by blast
    then have "(w_collection w, kk) \<notin> set (b_deletes b)" using effs_cons.prems(3) by force
    then show ?thesis
      using effs_cons.prems w eff_tid by (auto simp: net_put [OF eff_tid(7,8)] path_of_inj)
  next
    case eff_delete
    then show ?thesis
      using effs_cons.prems w by (auto simp: net_delete [OF eff_delete(4,5)] path_of_inj)
  qed
  ultimately show ?case using effs_cons.IH effs_cons.prems(5) by blast
qed

text \<open>The three keyed tables the loops of the write path update row by row.\<close>

interpretation index: keyed_table record_key "tbl_get record_key" "tbl_upsert record_key"
  "\<lambda>k. tbl_delete (\<lambda>r. record_key r = k)"
  by unfold_locales (simp_all add: table_simps)

lemma foreach_sql_exec:
  assumes "go_foreach (\<lambda>x. sql E (q_exec (f x))) xs s = (Inr y, t)"
  shows "db t = fold f xs (db s) \<and> repos t = repos s \<and> emitter t = emitter s"
  using assms by (induction xs arbitrary: s) (auto simp: go_inv)

definition index_row :: "did \<Rightarrow> index_write \<Rightarrow> record_row" where
  "index_row did iw = \<lparr>rr_did = did, rr_collection = iw_collection iw, rr_rkey = iw_rkey iw,
     rr_cid = iw_cid iw, rr_value = iw_json iw\<rparr>"

lemma fold_records:
  "repo_records (fold (\<lambda>x d. d\<lparr>repo_records := f x (repo_records d)\<rparr>) xs d) = fold f xs (repo_records d)"
  by (induction xs arbitrary: d) simp_all

lemma write_index_run:
  assumes "write_index E did b s = (Inr (), t)"
  shows "repo_records (db t) =
           fold (\<lambda>k. tbl_delete (\<lambda>r. record_key r = k)) (map (\<lambda>(c, k). (did, c, k)) (b_deletes b))
             (fold (tbl_upsert record_key) (map (index_row did) (b_upserts b)) (repo_records (db s)))"
    and "repos t = repos s"
proof -
  have rows: "(\<lambda>iw. upsertRecord E did (iw_collection iw) (iw_rkey iw) (iw_cid iw) (iw_json iw)) =
      (\<lambda>iw. sql E (q_exec (\<lambda>d. d\<lparr>repo_records := tbl_upsert record_key (index_row did iw) (repo_records d)\<rparr>)))"
    "(\<lambda>(c, k). delete_record_row E did c k) = (\<lambda>ck. sql E (q_exec (\<lambda>d. d\<lparr>repo_records :=
          tbl_delete (\<lambda>r. record_key r = (did, fst ck, snd ck)) (repo_records d)\<rparr>)))"
    by (simp_all add: fun_eq_iff upsertRecord_def delete_record_row_def index_row_def)
  obtain y u where
    u: "go_foreach (\<lambda>iw. sql E (q_exec (\<lambda>d. d\<lparr>repo_records :=
          tbl_upsert record_key (index_row did iw) (repo_records d)\<rparr>))) (b_upserts b) s = (Inr y, u)"
    and t: "go_foreach (\<lambda>ck. sql E (q_exec (\<lambda>d. d\<lparr>repo_records :=
          tbl_delete (\<lambda>r. record_key r = (did, fst ck, snd ck)) (repo_records d)\<rparr>))) (b_deletes b) u = (Inr (), t)"
    using assms unfolding write_index_def rows by (simp only: go_bind_Inr_iff) blast
  have "repo_records (db u) = fold (\<lambda>iw. tbl_upsert record_key (index_row did iw)) (b_upserts b) (repo_records (db s))"
    using foreach_sql_exec [OF u]
    by (simp add: fold_records [of "\<lambda>iw. tbl_upsert record_key (index_row did iw)"])
  moreover have "repo_records (db t) =
      fold (\<lambda>ck. tbl_delete (\<lambda>r. record_key r = (did, fst ck, snd ck))) (b_deletes b) (repo_records (db u))"
    by (simp only: foreach_sql_exec [OF t, THEN conjunct1]
        fold_records [of "\<lambda>ck. tbl_delete (\<lambda>r. record_key r = (did, fst ck, snd ck))"])
  ultimately show "repo_records (db t) =
      fold (\<lambda>k. tbl_delete (\<lambda>r. record_key r = k)) (map (\<lambda>(c, k). (did, c, k)) (b_deletes b))
        (fold (tbl_upsert record_key) (map (index_row did) (b_upserts b)) (repo_records (db s)))"
    by (simp add: fold_map o_def case_prod_beta)
  show "repos t = repos s"
    using foreach_sql_exec [OF u] foreach_sql_exec [OF t] by simp
qed

lemma find_map_index:
  "find (\<lambda>r. record_key r = (did, c, k)) (map (index_row did) iws) =
     map_option (index_row did) (find (\<lambda>iw. (iw_collection iw, iw_rkey iw) = (c, k)) iws)"
  by (induction iws) (auto simp: index_row_def)

lemma write_index_net:
  assumes run: "write_index E did b s = (Inr (), t)" and idx: "idx (db s) did c k = m (path_of c k)"
  shows "idx (db t) did c k = net b m c k"
proof -
  have mem: "(did, c, k) \<in> set (map (\<lambda>(c, k). (did, c, k)) (b_deletes b)) \<longleftrightarrow> (c, k) \<in> set (b_deletes b)"
    by (auto simp: image_iff)
  show ?thesis
    unfolding idx_def write_index_run(1) [OF run] index.lookup_batch mem net_def
    by (simp add: idx [unfolded idx_def] rev_map find_map_index [unfolded prod.inject] index_row_def
        split: option.split)
qed

subsection \<open>The stages of a batch\<close>

lemma open_cached: "repos s did = Some r \<Longrightarrow> open_repo E did s = (Inr r, s)"
  by (simp add: open_repo_def go_bind_def go_reads_def go_ret_def)

lemma applyWrites_InrD:
  assumes "applyWrites E did ops sw s = (Inr (res, results), t)" and "repos s did = Some r"
  obtains u b v w x where
    "check_swap_commit E did sw s = (Inr (), u)"
    "apply_ops E did ops empty_batch (u\<lparr>recorded := Some []\<rparr>) = (Inr b, v)"
    "commit E did v = (Inr res, w)" "write_index E did b w = (Inr (), x)"
    "emitCommit E did res (b_ops b) x = (Inr (), t)" "results = b_results b"
  using assms(1) open_cached [OF assms(2)] by (auto simp: applyWrites_def go_inv rec_begin_def)

lemma keeps_repos:
  "keeps repos (check_swap_commit E did sw)" "keeps repos (emitCommit E did res ops)"
  "keeps repos (write_index E did b)" "keeps repos (signingKey E did)"
proof -
  show "keeps repos (signingKey E did)"
    unfolding signingKey_def by (intro keeps_intro keeps_sql_off) simp_all
  show "keeps repos (check_swap_commit E did sw)"
    unfolding check_swap_commit_def headCID_def by (intro keeps_intro keeps_sql_off) simp_all
  show "keeps repos (write_index E did b)"
    unfolding write_index_def upsertRecord_def delete_record_row_def by (intro keeps_intro keeps_sql_off) simp_all
  have bs: "keeps repos (bs_get E c)" for c by (rule keeps_bs_get) simp
  show "keeps repos (emitCommit E did res ops)"
    unfolding emitCommit_def notifyRelays_def WriteRepoCAR_def Head_def RepoCids_def write_blocks_def
    by (intro keeps_intro keeps_w_buffer keeps_w_lift keeps_sql_off keeps_car_writers bs publish_keeps
        keeps_modify) simp_all
qed

text \<open>The index row of every record survives the commit and the event.\<close>

lemma off_handle_records [simp]: "off_handle did (\<lambda>s. repo_records (db s))"
  by (simp add: off_handle_def)

lemma keeps_records:
  "keeps (\<lambda>s. repo_records (db s)) (commit E did)"
  "keeps (\<lambda>s. repo_records (db s)) (emitCommit E did res ops)"
proof -
  have a: "keeps (\<lambda>s. repo_records (db s)) (sql E (insert_commit row))" for row
    unfolding insert_commit_def by (rule keeps_sql_try) (auto split: sum.splits)
  have b: "keeps (\<lambda>s. repo_records (db s)) (sql E (upsert_block_rev did c rv))" for c rv
    unfolding upsert_block_rev_def by (rule keeps_sql_exec) simp
  have off: "off_handle d (\<lambda>s. repo_records (db s))" for d :: did by simp
  show "keeps (\<lambda>s. repo_records (db s)) (commit E did)"
    unfolding commit_def
    by (intro keeps_intro keeps_signed_of keeps_signingKey keeps_lib_call a b
        keeps_rec_drain [OF off] off)
  show "keeps (\<lambda>s. repo_records (db s)) (emitCommit E did res ops)"
    unfolding emitCommit_def notifyRelays_def
    by (intro keeps_intro keeps_w_buffer keeps_WriteRepoCAR [OF off] publish_keeps keeps_modify) simp_all
qed

lemma signed_of_cached: "repos s did = Some r \<Longrightarrow> signed_of E did s = (Inr (ix_signed E r), s)"
  by (simp add: signed_of_def go_bind_def go_reads_def go_ret_def)

lemma commit_InrD:
  assumes run: "commit E did s = (Inr res, t)" and h: "repos s did = Some r"
  obtains key u r' v w where
    "signingKey E did s = (Inr key, u)"
    "lib_call E did (\<lambda>r. ix_commit E r (clock E (tick u)) (p256_sign E key)) u = (Inr (cr_cid res, cr_rev res), v)"
    "repos v did = Some r'"
    "blk_outcome (ix_commit E r (clock E (tick u)) (p256_sign E key)) (Inr (cr_cid res, cr_rev res), r')"
    "sql E (insert_commit \<lparr>cm_did = did, cm_rev = cr_rev res, cm_cid = cr_cid res,
       cm_prev = sc_prev (ix_signed E r'), cm_data = sc_data (ix_signed E r'), cm_sig = sc_sig (ix_signed E r'),
       cm_created_at = Stamp (clock E (tick v))\<rparr>) v = (Inr (), w)"
    "go_foreach (\<lambda>c. go_wrap ''persist block rev'' (sql E (upsert_block_rev did c (cr_rev res))))
       (case recorded w of None \<Rightarrow> [] | Some cs \<Rightarrow> cs) (w\<lparr>recorded := None\<rparr>) = (Inr (), t)"
    "cr_prev_rev res = sc_rev (ix_signed E r)"
proof -
  note go_foreach.simps [simp del]
  from run signed_of_cached [OF h, of E] obtain key u c rv v sc v' w w' where
    k: "signingKey E did s = (Inr key, u)"
    and c: "lib_call E did (\<lambda>r. ix_commit E r (clock E (tick u)) (p256_sign E key)) u = (Inr (c, rv), v)"
    and sc: "signed_of E did v = (Inr sc, v')"
    and i: "sql E (insert_commit \<lparr>cm_did = did, cm_rev = rv, cm_cid = c, cm_prev = sc_prev sc,
       cm_data = sc_data sc, cm_sig = sc_sig sc, cm_created_at = Stamp (clock E (tick v'))\<rparr>) v' = (Inr (), w)"
    and d: "rec_drain w = (Inr (case recorded w of None \<Rightarrow> [] | Some cs \<Rightarrow> cs), w')"
    and f: "go_foreach (\<lambda>c. go_wrap ''persist block rev'' (sql E (upsert_block_rev did c rv)))
       (case recorded w of None \<Rightarrow> [] | Some cs \<Rightarrow> cs) w' = (Inr (), t)"
    and res: "cr_cid res = c" "cr_rev res = rv" "cr_prev_rev res = sc_rev (ix_signed E r)"
    by (fastforce simp: commit_def go_inv rec_drain_def split: prod.splits)
  have u: "repos u did = Some r"
    using keepsD [OF keeps_repos(4) k] h by simp
  from lib_call_InrD [OF c] u obtain r' where
    r': "blk_outcome (ix_commit E r (clock E (tick u)) (p256_sign E key)) (Inr (c, rv), r')" "repos v did = Some r'"
    by auto
  have "v' = v" "sc = ix_signed E r'" using sc signed_of_cached [OF r'(2)] by simp_all
  moreover have "w' = w\<lparr>recorded := None\<rparr>" using d by (auto simp: rec_drain_def go_inv)
  ultimately show thesis
    by (intro that [of key u v r' w]) (use k c r' i f res in simp_all)
qed

text \<open>A commit needs an open handle.\<close>

lemma commit_has_handle: "commit E did s = (Inr res, t) \<Longrightarrow> \<exists>r. repos s did = Some r"
  by (auto simp: commit_def signed_of_def go_inv split: option.splits)

lemma foreach_block_rev:
  assumes "go_foreach (\<lambda>c. go_wrap m (sql E (upsert_block_rev did c rv))) cs s = (Inr y, t)"
  shows "db t = (db s)\<lparr>repo_block_revs :=
      fold (\<lambda>c. tbl_upsert block_rev_key \<lparr>br_did = did, br_cid = c, br_rev = rv\<rparr>) cs (repo_block_revs (db s))\<rparr>"
    and "repos t = repos s"
proof -
  have "db t = (db s)\<lparr>repo_block_revs :=
      fold (\<lambda>c. tbl_upsert block_rev_key \<lparr>br_did = did, br_cid = c, br_rev = rv\<rparr>) cs (repo_block_revs (db s))\<rparr> \<and>
    repos t = repos s"
    using assms by (induction cs arbitrary: s) (fastforce simp: go_inv upsert_block_rev_def)+
  then show "db t = (db s)\<lparr>repo_block_revs :=
      fold (\<lambda>c. tbl_upsert block_rev_key \<lparr>br_did = did, br_cid = c, br_rev = rv\<rparr>) cs (repo_block_revs (db s))\<rparr>"
    and "repos t = repos s" by auto
qed

lemma commit_row:
  assumes run: "commit E did s = (Inr res, t)" and h: "repos s did = Some r"
  shows "\<exists>row. repo_commits (db t) = repo_commits (db s) @ [row] \<and> cm_did row = did \<and>
    cm_rev row = cr_rev res \<and> cm_cid row = cr_cid res"
  using commit_InrD [OF run h]
proof cases
  case (1 key u r' v w)
  have "repo_commits (db v) = repo_commits (db s)"
    using keepsD [OF keeps_signingKey [OF keeps_commits(1)] 1(1)]
      keepsD [OF keeps_lib_call [OF keeps_commits(1)] 1(2)] by simp
  with 1(5) foreach_block_rev(1) [OF 1(6)] show ?thesis
    by (auto simp: go_inv insert_commit_def tbl_insert_def split: sum.splits if_splits)
qed

lemma commit_tree:
  assumes laws: "tree_laws E tree" and run: "commit E did s = (Inr res, t)" and h: "repos s did = Some r"
  shows "\<exists>r'. repos t did = Some r' \<and> tree r' = tree r"
  using commit_InrD [OF run h]
proof cases
  case (1 key u r' v w)
  have "repos t did = repos w did" using foreach_block_rev(2) [OF 1(6)] by simp
  also have "\<dots> = repos v did" using 1(5) by (auto simp: go_inv)
  finally show ?thesis using 1(3) tree_lawsD(5) [OF laws 1(4)] by simp
qed

section \<open>The event of a commit\<close>

lemma keeps_db_reads:
  "keeps db (sql E (q_row f))" "keeps db (sql E (q_rows g))" "keeps db (bs_get E c)"
  using keeps_sql_row [of id] keeps_sql_rows [of id] by (simp_all add: keeps_bs_get)

lemma keeps_db_car: "keeps (\<lambda>(s, w). db s) (WriteRepoCAR E did since)"
  unfolding WriteRepoCAR_def Head_def RepoCids_def write_blocks_def
  by (intro keeps_intro keeps_w_lift keeps_db_reads keeps_car_writers)

lemma keeps_db_notify: "keeps db (notifyRelays E)"
  unfolding notifyRelays_def by (intro keeps_intro keeps_db_reads keeps_modify) simp

text \<open>The bytes of the blocks named by a list of CIDs.\<close>

definition car_blocks :: "database \<Rightarrow> cid list \<Rightarrow> bytes" where
  "car_blocks d cids =
     concat (map (\<lambda>c. car_block c (case tbl_get blk_cid c (repo_blocks d) of None \<Rightarrow> [] | Some b \<Rightarrow> blk_data b)) cids)"

lemma write_blocks_run:
  "write_blocks E f cids (s, w) = (Inr y, (t, w')) \<Longrightarrow> w' = w @ car_blocks (db s) cids \<and> db t = db s"
proof (induction cids arbitrary: s w)
  case Nil
  then show ?case by (simp add: write_blocks_def go_inv car_blocks_def)
next
  case (Cons c cids)
  from Cons.prems obtain data s1 where
    get: "bs_get E c s = (Inr data, s1)"
    and rest: "write_blocks E f cids (s1, w @ car_block c data) = (Inr y, (t, w'))"
    by (auto simp: write_blocks_def go_inv writeCarBlock_run)
  from get obtain b where b: "tbl_get blk_cid c (repo_blocks (db s)) = Some b" "data = blk_data b" "db s1 = db s"
    by (auto simp: go_inv)
  from Cons.IH [OF rest] b show ?case by (simp add: car_blocks_def)
qed

lemma Head_InrD:
  "Head E did s = (Inr (c, rv), t) \<Longrightarrow>
     \<exists>row. head_row (db s) did = Some row \<and> cid_cast E (cm_cid row) = Inr c \<and> rv = cm_rev row \<and> db t = db s"
  by (auto simp: Head_def go_inv split: option.splits)

text \<open>A CAR of a repo: its head as the root, then the blocks of its revision table.\<close>

lemma WriteRepoCAR_run:
  assumes "w_buffer (WriteRepoCAR E did since) s = (Inr out, t)"
  shows "\<exists>row head h cids. head_row (db s) did = Some row \<and> cid_cast E (cm_cid row) = Inr head \<and>
     car_header E [head] = Inr h \<and>
     scan_all (\<lambda>r. cid_cast E (br_cid r)) (block_revs_of (db s) did since) = Inr cids \<and>
     out = h @ car_blocks (db s) cids"
proof -
  from assms have run: "WriteRepoCAR E did since (s, []) = (Inr (), (t, out))"
    by (auto simp: w_buffer_def split: prod.splits sum.splits)
  then obtain head rv s1 cids s2 w h where
    hd: "Head E did s = (Inr (head, rv), s1)" and rc: "RepoCids E did since s1 = (Inr cids, s2)"
    and h: "car_header E [head] = Inr h" "write_blocks E id cids (s2, h) = (Inr (), (t, out))"
    by (auto simp: WriteRepoCAR_def go_inv writeCarHeader_def)
  from Head_InrD [OF hd] obtain row where
    row: "head_row (db s) did = Some row" "cid_cast E (cm_cid row) = Inr head" "db s1 = db s" by blast
  have cids: "scan_all (\<lambda>r. cid_cast E (br_cid r)) (block_revs_of (db s) did since) = Inr cids" "db s2 = db s"
    using rc row(3) by (auto simp: RepoCids_def go_inv)
  have "out = h @ car_blocks (db s) cids"
    using write_blocks_run [OF h(2)] cids(2) by simp
  with row h(1) cids(1) show ?thesis by blast
qed

lemma emitCommit_InrD:
  assumes "emitCommit E did res ops s = (Inr (), t)"
  shows "\<exists>u blocks. w_buffer (WriteRepoCAR E did (cr_prev_rev res)) s = (Inr blocks, u) \<and>
    db t = (db s)\<lparr>firehose_events := firehose_events (db s) @
       [(em_seq (emitter s) + 1, \<lparr>fr_seq = em_seq (emitter s) + 1, fr_type = ''#commit'',
          fr_event = CommitEvent did (cr_cid res) (cr_rev res)
            (if cr_prev_rev res \<noteq> [] then Some (cr_prev_rev res) else None) (cr_prev_data res) ops blocks\<rparr>)]\<rparr>"
proof -
  from assms obtain blocks u v where
    b: "w_buffer (WriteRepoCAR E did (cr_prev_rev res)) s = (Inr blocks, u)"
    and p: "publish E ''#commit'' (CommitEvent did (cr_cid res) (cr_rev res)
            (if cr_prev_rev res \<noteq> [] then Some (cr_prev_rev res) else None) (cr_prev_data res) ops blocks) u = (Inr (), v)"
    and n: "notifyRelays E v = (Inr (), t)"
    unfolding emitCommit_def go_bind_Inr_iff by auto
  have "db u = db s" by (rule keepsD [OF keeps_w_buffer [OF keeps_db_car] b])
  moreover have "emitter u = emitter s"
    by (rule keepsD [OF keeps_w_buffer [OF keeps_WriteRepoCAR] b]) (rule off_handle_simps)
  moreover have "db t = db v" by (rule keepsD [OF keeps_db_notify n])
  ultimately have "db t = (db s)\<lparr>firehose_events := firehose_events (db s) @
       [(em_seq (emitter s) + 1, \<lparr>fr_seq = em_seq (emitter s) + 1, fr_type = ''#commit'',
          fr_event = CommitEvent did (cr_cid res) (cr_rev res)
            (if cr_prev_rev res \<noteq> [] then Some (cr_prev_rev res) else None) (cr_prev_data res) ops blocks\<rparr>)]\<rparr>"
    using publish_InrD [OF p] by auto
  with b show ?thesis by blast
qed

subsection \<open>Blocks added under a recording\<close>

text \<open>Every block the database has and \<open>B\<close> lacks is in the open recording.\<close>

definition records_new :: "block_row list \<Rightarrow> 'r pds \<Rightarrow> bool" where
  "records_new B s \<longleftrightarrow> (\<exists>cs. recorded s = Some cs \<and>
     (\<forall>c. tbl_get blk_cid c (repo_blocks (db s)) \<noteq> None \<longrightarrow> tbl_get blk_cid c B \<noteq> None \<or> c \<in> set cs))"

lemma records_new_rec_put: "preserves (records_new B) (rec_put E c data)"
proof (rule preservesI)
  fix s r t
  assume P: "records_new B s" and run: "rec_put E c data s = (r, t)"
  obtain cs where cs: "recorded s = Some cs"
      "\<And>c. tbl_get blk_cid c (repo_blocks (db s)) \<noteq> None \<Longrightarrow> tbl_get blk_cid c B \<noteq> None \<or> c \<in> set cs"
    using P unfolding records_new_def by blast
  show "records_new B t"
  proof (cases "fault E (tick s)")
    case True
    then have "t = s\<lparr>tick := Suc (tick s)\<rparr>"
      using run by (auto simp: rec_put_def go_bind_def bs_put_def sql_def)
    then show ?thesis using P by (simp add: records_new_def)
  next
    case False
    then have "recorded t = Some (List.insert c cs)"
      "repo_blocks (db t) = tbl_ignore blk_cid \<lparr>blk_cid = c, blk_data = data, blk_size = length data\<rparr> (repo_blocks (db s))"
      using run cs(1)
      by (auto simp: rec_put_def go_bind_def bs_put_def sql_def q_exec_def go_modify_def Let_def)
    then show ?thesis using cs(2) by (auto simp: records_new_def table_simps)
  qed
qed

lemma records_new_lib: "preserves (records_new B) (run_blk (rec_get E) (rec_put E) p)"
proof (induction p)
  case (Done x)
  then show ?case by (simp add: preserves_intro)
next
  case (GetBlk c k)
  have "preserves (records_new B) (rec_get E c)"
    by (rule preservesI) (auto simp: rec_get_def records_new_def dest!: bs_get_state)
  with GetBlk show ?case by (auto intro!: preserves_intro)
next
  case (PutBlk c d k)
  then show ?case by (auto intro!: preserves_intro records_new_rec_put)
qed

lemma records_new_sql:
  "(\<And>d x d'. q d = (Inr x, d') \<Longrightarrow> repo_blocks d' = repo_blocks d) \<Longrightarrow> preserves (records_new B) (sql E q)"
  by (auto simp: preserves_def records_new_def sql_def Let_def split: prod.splits sum.splits)

lemma records_new_query:
  "preserves (records_new B) (sql E (q_row f))" "preserves (records_new B) (sql E (q_rows g))"
  by (rule records_new_sql; simp add: go_inv)+

lemma records_new_lib_call: "preserves (records_new B) (lib_call E did g)"
  unfolding lib_call_def
  by (intro preserves_intro records_new_lib preserves_modify) (simp add: records_new_def)

lemma records_new_apply_op: "preserves (records_new B) (apply_op E did w b)"
  unfolding apply_op_def op_create_def op_update_def op_delete_def batchRecordCID_def recordCID_def Let_def
  by (intro preserves_intro preserves_or_no_rows records_new_lib_call records_new_query)

lemma records_new_apply_ops: "preserves (records_new B) (apply_ops E did ops b)"
  by (induction ops arbitrary: b) (simp_all add: preserves_ret preserves_bind records_new_apply_op)

text \<open>The revision table after the recorded blocks of a commit are written to it.\<close>

interpretation block_revs: keyed_table block_rev_key "tbl_get block_rev_key" "tbl_upsert block_rev_key"
  "\<lambda>k. tbl_delete (\<lambda>r. block_rev_key r = k)"
  by unfold_locales (simp_all add: table_simps)

lemma block_revs_upserted:
  assumes "c \<in> set cs"
  shows "\<lparr>br_did = did, br_cid = c, br_rev = rv\<rparr> \<in>
     set (fold (\<lambda>c. tbl_upsert block_rev_key \<lparr>br_did = did, br_cid = c, br_rev = rv\<rparr>) cs t)"
proof -
  let ?row = "\<lambda>c. \<lparr>br_did = did, br_cid = c, br_rev = rv\<rparr>"
  have "find (\<lambda>r. block_rev_key r = (did, c)) (rev (map ?row cs)) = Some (?row c)"
    using assms by (induction cs rule: rev_induct) auto
  then have "tbl_get block_rev_key (did, c) (fold (tbl_upsert block_rev_key) (map ?row cs) t) = Some (?row c)"
    unfolding block_revs.lookup_upserts by simp
  from tbl_get_Some [OF this] show ?thesis by (simp add: fold_map comp_def)
qed

lemma commit_blocks:
  assumes run: "commit E did s = (Inr res, t)" and h: "repos s did = Some r" and new: "records_new B s"
    and c: "tbl_get blk_cid c (repo_blocks (db t)) \<noteq> None" "tbl_get blk_cid c B = None"
  shows "\<lparr>br_did = did, br_cid = c, br_rev = cr_rev res\<rparr> \<in> set (repo_block_revs (db t))"
  using commit_InrD [OF run h]
proof cases
  case (1 key u r' v w)
  have "preserves (records_new B) (signingKey E did)"
    unfolding signingKey_def by (intro preserves_intro records_new_query)
  then have "records_new B u" using new 1(1) by (rule preservesD)
  then have "records_new B v" by (rule preservesD [OF records_new_lib_call _ 1(2)])
  have ins: "preserves (records_new B) (sql E (insert_commit row))" for row
    by (rule records_new_sql) (auto simp: insert_commit_def go_inv split: sum.splits)
  have "records_new B w" by (rule preservesD [OF ins \<open>records_new B v\<close> 1(5)])
  then obtain cs where cs: "recorded w = Some cs"
      "\<And>c. tbl_get blk_cid c (repo_blocks (db w)) \<noteq> None \<Longrightarrow> tbl_get blk_cid c B \<noteq> None \<or> c \<in> set cs"
    unfolding records_new_def by blast
  have "db t = (db w)\<lparr>repo_block_revs := fold (\<lambda>c. tbl_upsert block_rev_key
      \<lparr>br_did = did, br_cid = c, br_rev = cr_rev res\<rparr>) cs (repo_block_revs (db w))\<rparr>"
    using foreach_block_rev(1) [OF 1(6)] cs(1) by simp
  with c cs(2) show ?thesis using block_revs_upserted by fastforce
qed

section \<open>Properties\<close>

definition head_string :: "'r env \<Rightarrow> database \<Rightarrow> did \<Rightarrow> go_error + string" where
  "head_string E d did =
     (case head_row d did of
        None \<Rightarrow> Inr []
      | Some r \<Rightarrow> (case cid_cast E (cm_cid r) of Inl e \<Rightarrow> Inl e | Inr c \<Rightarrow> Inr (cid_string E c)))"

lemma headCID_head_string: "headCID E did s = (Inr h, t) \<Longrightarrow> head_string E (db s) did = Inr h"
  by (auto simp: headCID_def head_string_def go_inv sql_row_NoRows split: option.splits)

lemma check_swap_commit_Some:
  assumes "head_string E (db s) did \<noteq> Inr want"
  shows "isl (fst (check_swap_commit E did (Some want) s))"
proof (cases "headCID E did s")
  case (Pair h t)
  then show ?thesis using assms headCID_head_string [of E did s _ t]
    by (cases h) (auto simp: check_swap_commit_def go_bind_def go_raise_def go_ret_def)
qed

text \<open>The index has, for every record, the CID the tree of the handle has.\<close>

definition index_agrees :: "('r \<Rightarrow> string \<Rightarrow> cid option) \<Rightarrow> database \<Rightarrow> did \<Rightarrow> 'r \<Rightarrow> bool" where
  "index_agrees tree d did r \<longleftrightarrow>
     (\<forall>c k. CHR ''/'' \<notin> set c \<longrightarrow> idx d did c k = tree r (path_of c k))"

lemma applyWrites_stages:
  assumes laws: "tree_laws E tree" and fresh: "tids_fresh E ops" and plain: "plain_collections ops"
    and h: "repos s did = Some r" and agree: "index_agrees tree (db s) did r"
    and run: "applyWrites E did ops sw s = (Inr (res, results), t)"
  obtains b outs r' r'' w x where
    "repos t did = Some r'" "spec_ops (cid_string E) ops (tree r) outs (tree r')" "results = map fst outs"
    "b_ops b = map snd outs" "op_effects E tree (tree r) ops r empty_batch r'' b" "tree r'' = tree r'"
    "repo_records (db w) = repo_records (db s)" "write_index E did b w = (Inr (), x)"
    "emitCommit E did res (b_ops b) x = (Inr (), t)"
  using applyWrites_InrD [OF run h]
proof cases
  case (1 u b v w x)
  let ?u = "u\<lparr>recorded := Some []\<rparr>"
  have u: "repos ?u did = Some r" "repo_records (db ?u) = repo_records (db s)"
    using keepsD [OF keeps_repos(1) 1(1)] keepsD [OF keeps_check_swap [OF off_handle_records] 1(1)] h
    by auto
  have idx: "idx (db ?u) did (w_collection w) (w_rkey w) = tree r (path_of (w_collection w) (w_rkey w))"
    if "w \<in> set ops" for w
    using agree plain that u(2) by (simp add: index_agrees_def plain_collections_def idx_def)
  from apply_ops_ok [OF laws fresh plain 1(2) u(1) order.refl idx] obtain r1 outs where
    r1: "repos v did = Some r1" "spec_ops (cid_string E) ops (tree r) outs (tree r1)"
      "b_results b = map fst outs" "b_ops b = map snd outs"
      "op_effects E tree (tree r) ops r empty_batch r1 b"
    by (auto simp: empty_batch_def resolve_def)
  from commit_tree [OF laws 1(3) r1(1)] obtain r' where r': "repos w did = Some r'" "tree r' = tree r1" by blast
  have "repos t did = Some r'"
    using keepsD [OF keeps_repos(2) 1(5)] keepsD [OF keeps_repos(3) 1(4)] r'(1) by simp
  moreover have "repo_records (db w) = repo_records (db s)"
    using keepsD [OF keeps_records(1) 1(3)] keepsD [OF keeps_apply_ops [OF off_handle_records] 1(2)] u(2)
    by simp
  ultimately show thesis
    by (intro that [of r' outs b r1 w x]) (use 1 r1 r'(2) in simp_all)
qed

text \<open>C4: A batch is isolated: whatever its outcome and whatever fails, the rows of every other
  account, the accounts, sessions, blobs and all other tables, the other open handles and the
  blob files are what they were before.\<close>

theorem applyWrites_isolated:
  "others did (db (snd (applyWrites E did ops sw s))) = others did (db s) \<and>
   (repos (snd (applyWrites E did ops sw s)))(did := None) = (repos s)(did := None) \<and>
   files (snd (applyWrites E did ops sw s)) = files s"
proof -
  obtain r t where run: "applyWrites E did ops sw s = (r, t)" by fastforce
  have "others did (db t) = others did (db s)"
    by (rule keepsD [OF keeps_applyWrites run]) simp
  moreover have "files t = files s"
    by (rule keepsD [OF keeps_applyWrites run]) simp
  moreover have "repos t d = repos s d" if "d \<noteq> did" for d
    by (rule keepsD [OF keeps_applyWrites run]) (simp add: that)
  ultimately show ?thesis by (auto simp: run)
qed

text \<open>C3: The commit row comes first: an operation that fails leaves every table but the
  content-addressed blocks, the emitter and the relays' messages as they were, or it has
  already persisted exactly one new commit of this repo. Nothing is indexed or published
  without a persisted commit, under any failures of the database.\<close>

theorem applyWrites_commit_first:
  "isl (fst (applyWrites E did ops sw s)) \<and>
     but_blocks (db (snd (applyWrites E did ops sw s))) = but_blocks (db s) \<and>
     emitter (snd (applyWrites E did ops sw s)) = emitter s \<and>
     outbox (snd (applyWrites E did ops sw s)) = outbox s \<or>
   (\<exists>row. cm_did row = did \<and>
     repo_commits (db (snd (applyWrites E did ops sw s))) = repo_commits (db s) @ [row])"
proof -
  let ?f = "\<lambda>s. (but_blocks (db s), emitter s, outbox s)"
  obtain r t where run: "applyWrites E did ops sw s = (r, t)" by fastforce
  have "off_handle did ?f" by (simp add: off_handle_def but_blocks_def)
  from appendsD [OF appends_applyWrites [OF this] run] show ?thesis by (simp add: run)
qed

text \<open>\<open>swapCommit\<close> is a compare-and-swap on the head: unless the head commit of the tables
  prints as the expected CID, the batch fails and changes no table but the blocks.\<close>

theorem applyWrites_swap_commit:
  assumes "head_string E (db s) did \<noteq> Inr want"
  shows "isl (fst (applyWrites E did ops (Some want) s)) \<and>
    but_blocks (db (snd (applyWrites E did ops (Some want) s))) = but_blocks (db s) \<and>
    emitter (snd (applyWrites E did ops (Some want) s)) = emitter s"
proof -
  let ?f = "\<lambda>s. (but_blocks (db s), emitter s)"
  have off: "off_handle did ?f" by (simp add: off_handle_def but_blocks_def)
  obtain h u where u: "open_repo E did s = (h, u)" by fastforce
  have fu: "?f u = ?f s" by (rule keepsD [OF keeps_open [OF off] u])
  show ?thesis
  proof (cases h)
    case (Inl e)
    with u fu show ?thesis by (simp add: applyWrites_def go_bind_def)
  next
    case (Inr r)
    have "head_string E (db u) did = head_string E (db s) did"
      using but_blocks_eq(2) [of "db u" "db s"] fu by (simp add: head_string_def head_row_def commits_of_def)
    then have sw: "isl (fst (check_swap_commit E did (Some want) u))"
      using assms check_swap_commit_Some by metis
    obtain x v where v: "check_swap_commit E did (Some want) u = (x, v)" by fastforce
    with sw obtain e where "x = Inl e" by (auto simp: isl_def)
    moreover have "?f v = ?f u" by (rule keepsD [OF keeps_check_swap [OF off] v])
    ultimately show ?thesis using u v Inr fu by (simp add: applyWrites_def go_bind_def)
  qed
qed



lemma scan_all_mem: "scan_all f rs = Inr xs \<Longrightarrow> r \<in> set rs \<Longrightarrow> \<exists>x \<in> set xs. f r = Inr x"
  by (induction rs arbitrary: xs) (auto split: sum.splits)

lemma keeps_blocks:
  "keeps (\<lambda>s. repo_blocks (db s)) (check_swap_commit E did sw)"
  "keeps (\<lambda>s. (repo_blocks (db s), repo_block_revs (db s))) (write_index E did b)"
  "keeps (\<lambda>s. repo_blocks (db s)) (emitCommit E did res ops)"
proof -
  have q: "keeps (\<lambda>s. repo_blocks (db s)) (sql E (q_row f))" for f :: "database \<Rightarrow> 'x option"
    by (rule keeps_sql_row)
  show "keeps (\<lambda>s. repo_blocks (db s)) (check_swap_commit E did sw)"
    unfolding check_swap_commit_def headCID_def by (intro keeps_intro)
  show "keeps (\<lambda>s. (repo_blocks (db s), repo_block_revs (db s))) (write_index E did b)"
    unfolding write_index_def upsertRecord_def delete_record_row_def
    by (intro keeps_intro keeps_sql_exec) simp_all
  have "keeps (\<lambda>s. repo_blocks (db s)) (w_buffer (WriteRepoCAR E did since))" for since
    by (rule keeps_comp [OF keeps_w_buffer [OF keeps_db_car]])
  moreover have "keeps (\<lambda>s. repo_blocks (db s)) (notifyRelays E)"
    by (rule keeps_comp [OF keeps_db_notify])
  ultimately show "keeps (\<lambda>s. repo_blocks (db s)) (emitCommit E did res ops)"
    unfolding emitCommit_def by (intro keeps_intro publish_keeps) simp_all
qed

text \<open>C19: The event of a commit carries its blocks: every block the batch added to the
  blockstore is in the CAR of the published event, under a header that names the head commit.\<close>

theorem applyWrites_car:
  assumes cast: "\<And>x c. cid_cast E x = Inr c \<Longrightarrow> c = x"
    and h: "repos s did = Some r" and run: "applyWrites E did ops sw s = (Inr (res, results), t)"
    and rev: "cr_prev_rev res < cr_rev res"
    and new: "tbl_get blk_cid c (repo_blocks (db t)) \<noteq> None" "tbl_get blk_cid c (repo_blocks (db s)) = None"
  shows "\<exists>row hdr cids since prev fops. head_row (db t) did = Some row \<and> car_header E [cm_cid row] = Inr hdr \<and>
    fr_event (snd (last (firehose_events (db t)))) =
      CommitEvent did (cr_cid res) (cr_rev res) since prev fops (hdr @ car_blocks (db t) cids) \<and> c \<in> set cids"
  using applyWrites_InrD [OF run h]
proof cases
  case (1 u b v w x)
  let ?B = "repo_blocks (db s)"
  have B: "repo_blocks (db u) = ?B" by (rule keepsD [OF keeps_blocks(1) 1(1)])
  have h_v: "\<exists>r. repos v did = Some r"
    using commit_has_handle [OF 1(3)] .
  then obtain r' where r': "repos v did = Some r'" ..
  have "records_new ?B (u\<lparr>recorded := Some []\<rparr>)" by (simp add: records_new_def B)
  then have v: "records_new ?B v" by (rule preservesD [OF records_new_apply_ops _ 1(2)])
  have bx: "repo_blocks (db x) = repo_blocks (db w)" "repo_block_revs (db x) = repo_block_revs (db w)"
    using keepsD [OF keeps_blocks(2) 1(4)] by simp_all
  have bt: "repo_blocks (db t) = repo_blocks (db x)" by (rule keepsD [OF keeps_blocks(3) 1(5)])
  have row: "\<lparr>br_did = did, br_cid = c, br_rev = cr_rev res\<rparr> \<in> set (repo_block_revs (db x))"
    using commit_blocks [OF 1(3) r' v, of c] new bt bx by simp
  from emitCommit_InrD [OF 1(5)] obtain y blocks where
    y: "w_buffer (WriteRepoCAR E did (cr_prev_rev res)) x = (Inr blocks, y)"
    and t: "db t = (db x)\<lparr>firehose_events := firehose_events (db x) @
       [(em_seq (emitter x) + 1, \<lparr>fr_seq = em_seq (emitter x) + 1, fr_type = ''#commit'',
          fr_event = CommitEvent did (cr_cid res) (cr_rev res)
            (if cr_prev_rev res \<noteq> [] then Some (cr_prev_rev res) else None) (cr_prev_data res) (b_ops b) blocks\<rparr>)]\<rparr>"
    by blast
  from WriteRepoCAR_run [OF y] obtain hrow head hdr cids where
    car: "head_row (db x) did = Some hrow" "cid_cast E (cm_cid hrow) = Inr head" "car_header E [head] = Inr hdr"
      "scan_all (\<lambda>r. cid_cast E (br_cid r)) (block_revs_of (db x) did (cr_prev_rev res)) = Inr cids"
      "blocks = hdr @ car_blocks (db x) cids" by blast
  have "\<lparr>br_did = did, br_cid = c, br_rev = cr_rev res\<rparr> \<in> set (block_revs_of (db x) did (cr_prev_rev res))"
    using row rev by (simp add: block_revs_of_def)
  from scan_all_mem [OF car(4) this] cast have "c \<in> set cids" by fastforce
  moreover have "head_row (db t) did = Some hrow" "car_blocks (db t) cids = car_blocks (db x) cids"
    using car(1) t by (simp_all add: head_row_def commits_of_def car_blocks_def)
  moreover have "fr_event (snd (last (firehose_events (db t)))) =
      CommitEvent did (cr_cid res) (cr_rev res)
        (if cr_prev_rev res \<noteq> [] then Some (cr_prev_rev res) else None) (cr_prev_data res) (b_ops b)
        (hdr @ car_blocks (db x) cids)"
    unfolding t car(5) by simp
  moreover have "car_header E [cm_cid hrow] = Inr hdr" using car(3) cast [OF car(2)] by simp
  ultimately show ?thesis by (intro exI conjI) simp_all
qed

text \<open>After a batch succeeds the head of the repo is its commit, given that revisions grow.\<close>

theorem applyWrites_head:
  assumes h: "repos s did = Some r" and run: "applyWrites E did ops sw s = (Inr (res, results), t)"
    and grow: "\<And>c. c \<in> set (commits_of (db s) did) \<Longrightarrow> cm_rev c < cr_rev res"
  shows "\<exists>row. head_row (db t) did = Some row \<and> cm_cid row = cr_cid res \<and> cm_rev row = cr_rev res"
  using applyWrites_InrD [OF run h]
proof cases
  case (1 u b v w x)
  obtain r' where r': "repos v did = Some r'" using commit_has_handle [OF 1(3)] by blast
  have v: "repo_commits (db v) = repo_commits (db s)"
    using keepsD [OF keeps_check_swap [OF keeps_commits(1)] 1(1)]
      keepsD [OF keeps_apply_ops [OF keeps_commits(1)] 1(2)] by simp
  have t: "repo_commits (db t) = repo_commits (db w)"
    using keepsD [OF keeps_commits(3) 1(4)] keepsD [OF keeps_commits(4) 1(5)] by simp
  from commit_row [OF 1(3) r'] v t obtain row where
    row: "repo_commits (db t) = repo_commits (db s) @ [row]" "cm_did row = did" "cm_rev row = cr_rev res"
      "cm_cid row = cr_cid res" by auto
  then have "commits_of (db t) did = commits_of (db s) did @ [row]" by (simp add: commits_of_def)
  then have "head_row (db t) did = Some row"
    using top_row_append_max [of "commits_of (db s) did" cm_rev row] grow row(3) by (simp add: head_row_def)
  with row show ?thesis by blast
qed

inductive_cases op_effects_ConsE: "op_effects E tree m (w # ws) r b r' b'"
inductive_cases op_effects_NilE: "op_effects E tree m [] r b r' b'"


end
