(* ===== verification/Import.thy ===== *)
theory Import
  imports Batch Json
begin

text \<open>
  \<open>internal/repo/import.go\<close>: \<open>ImportRepo\<close> reads a CAR into the blockstore, opens the repo at
  its root, turns every record into JSON and replaces the rows of the account in one
  transaction. The CAR reader, the repo handle and the CBOR decoder are parameters.
\<close>

section \<open>Records as JSON\<close>

text \<open>\<open>toJSON\<close>: links become \<open>{"$link": cid}\<close> and byte strings \<open>{"$bytes": base64}\<close>.\<close>

fun toJSON :: "(cid \<Rightarrow> string) \<Rightarrow> gov \<Rightarrow> json" where
  "toJSON cs (GCid c) = JObj [(''$link'', JStr (cs c))]"
| "toJSON cs (GMap m) = JObj (map (\<lambda>(k, v). (k, toJSON cs v)) m)"
| "toJSON cs (GList xs) = JArr (map (toJSON cs) xs)"
| "toJSON cs (GBytes b) = JObj [(''$bytes'', JStr (b64_encode std_alphabet b))]"
| "toJSON cs (GStr s) = JStr s"
| "toJSON cs (GScalar s) = JScalar s"

definition recordJSON :: "'r env \<Rightarrow> bytes \<Rightarrow> go_error + bytes" where
  "recordJSON E data =
     (case cbor_decode E data of
        Inl e \<Rightarrow> Inl e
      | Inr obj \<Rightarrow> Inr (json_marshal (toJSON (cid_string E) obj)))"

section \<open>ImportRepo\<close>

record import_record =
  im_collection :: string
  im_rkey :: string
  im_cid :: cid
  im_json :: bytes

text \<open>The loop over the blocks of the CAR: their CIDs, each block written to the store.\<close>

fun import_blocks :: "'r env \<Rightarrow> (go_error + cid \<times> bytes) list \<Rightarrow> ('r pds, cid list) go" where
  "import_blocks E [] = go_ret []"
| "import_blocks E (Inl e # bs) = go_raise (Wrap ''read car block'' e)"
| "import_blocks E (Inr (c, data) # bs) =
     go_bind (go_wrap ''write block'' (bs_put E c data)) (\<lambda>_.
     go_bind (import_blocks E bs) (\<lambda>cs. go_ret (c # cs)))"

text \<open>The callback of \<open>ForEach\<close>; entries without a collection or a record key are skipped.\<close>

definition split_path :: "string \<Rightarrow> string \<times> string" where
  "split_path k = (case str_cut ''/'' k of None \<Rightarrow> (k, []) | Some (c, r) \<Rightarrow> (c, r))"

fun import_records :: "'r env \<Rightarrow> (string \<times> cid) list \<Rightarrow> ('r pds, import_record list) go" where
  "import_records E [] = go_ret []"
| "import_records E ((k, v) # es) =
     (case split_path k of (collection, rkey) \<Rightarrow>
        if collection = [] \<or> rkey = [] then import_records E es
        else
          go_bind (bs_get E v) (\<lambda>data.
          go_bind (go_of (recordJSON E data)) (\<lambda>js.
          go_bind (import_records E es) (\<lambda>rs.
          go_ret (\<lparr>im_collection = collection, im_rkey = rkey, im_cid = v, im_json = js\<rparr> # rs)))))"

definition insert_record :: "did \<Rightarrow> import_record \<Rightarrow> (database, unit) go" where
  "insert_record did r = q_try (\<lambda>d.
     case tbl_insert record_key \<lparr>rr_did = did, rr_collection = im_collection r, rr_rkey = im_rkey r,
            rr_cid = im_cid r, rr_value = im_json r\<rparr> (repo_records d) of
       Inl e \<Rightarrow> Inl e
     | Inr t \<Rightarrow> Inr (d\<lparr>repo_records := t\<rparr>))"

text \<open>The body of the transaction.\<close>

definition import_tx ::
  "'r env \<Rightarrow> did \<Rightarrow> cid \<Rightarrow> signed_commit \<Rightarrow> import_record list \<Rightarrow> cid list \<Rightarrow> ('r pds, unit) go" where
  "import_tx E did head sc records cids =
     go_bind (clear_repo E did) (\<lambda>_.
     go_bind (time_now E) (\<lambda>now.
     go_bind (sql E (insert_commit
        \<lparr>cm_did = did, cm_rev = sc_rev sc, cm_cid = head, cm_prev = sc_prev sc,
         cm_data = sc_data sc, cm_sig = sc_sig sc, cm_created_at = Stamp now\<rparr>)) (\<lambda>_.
     go_bind (go_foreach (\<lambda>r. sql E (insert_record did r)) records) (\<lambda>_.
     go_foreach (\<lambda>c. sql E (upsert_block_rev did c (sc_rev sc))) cids))))"

text \<open>Reading the file, up to the transaction.\<close>

definition import_read ::
  "'r env \<Rightarrow> did \<Rightarrow> bytes \<Rightarrow> ('r pds, cid \<times> signed_commit \<times> import_record list \<times> cid list) go" where
  "import_read E did file =
     go_bind (go_wrap ''read car'' (go_of (car_read E file))) (\<lambda>(roots, blks).
     case roots of
       [head] \<Rightarrow>
         go_bind (import_blocks E blks) (\<lambda>cids.
         go_bind (run_blk (bs_get E) (bs_put E) (ix_open E head)) (\<lambda>res.
         go_bind (go_wrap ''open imported repo'' (go_of res)) (\<lambda>rp.
         if ix_did E rp \<noteq> did then go_raise (Failure ''repo did does not match account'')
         else
           go_bind (run_blk (bs_get E) (bs_put E) (ix_entries E rp)) (\<lambda>entries.
           go_bind (go_wrap ''walk records''
              (go_bind (go_of entries) (import_records E))) (\<lambda>records.
           go_ret (head, ix_signed E rp, records, cids))))))
     | _ \<Rightarrow> go_raise (Failure ''expected a single car root''))"

definition ImportRepo :: "'r env \<Rightarrow> did \<Rightarrow> bytes \<Rightarrow> ('r pds, unit) go" where
  "ImportRepo E did file =
     go_bind (import_read E did file) (\<lambda>(head, sc, records, cids).
     go_bind (sql_tx E (import_tx E did head sc records cids)) (\<lambda>_.
     go_modify (\<lambda>s. s\<lparr>repos := (repos s)(did := None)\<rparr>)))"

section \<open>Effects\<close>

lemma keeps_bs:
  "off_handle did f \<Longrightarrow> keeps f (bs_put E c data)" "off_handle did f \<Longrightarrow> keeps f (bs_get E c)"
  by (simp_all add: keeps_bs_put keeps_bs_get off_handleD)

lemma keeps_import_blocks: "off_handle did f \<Longrightarrow> keeps f (import_blocks E bs)"
  by (induction E bs rule: import_blocks.induct) (auto intro!: keeps_intro keeps_bs)

lemma keeps_import_records: "off_handle did f \<Longrightarrow> keeps f (import_records E es)"
  by (induction E es rule: import_records.induct) (auto intro!: keeps_intro keeps_bs split: prod.split)

lemma keeps_single:
  "(\<And>h. keeps f (m h)) \<Longrightarrow> keeps f (case roots of [head] \<Rightarrow> m head | _ \<Rightarrow> go_raise e)"
  by (auto intro!: keeps_intro split: list.split)

lemma keeps_import_read:
  assumes "off_handle did f"
  shows "keeps f (import_read E did file)"
proof -
  have lib: "keeps f (run_blk (bs_get E) (bs_put E) p)" for p :: "'x blk_prog"
    by (intro keeps_run_blk keeps_bs [OF assms])
  show ?thesis
    unfolding import_read_def
    by (intro keeps_intro keeps_single lib keeps_import_blocks [OF assms] keeps_import_records [OF assms])
qed

definition import_row :: "did \<Rightarrow> import_record \<Rightarrow> record_row" where
  "import_row did r = \<lparr>rr_did = did, rr_collection = im_collection r, rr_rkey = im_rkey r,
     rr_cid = im_cid r, rr_value = im_json r\<rparr>"

lemma insert_records_run:
  "go_foreach (\<lambda>r. sql E (insert_record did r)) rs s = (Inr x, t) \<Longrightarrow>
     db t = (db s)\<lparr>repo_records := repo_records (db s) @ map (import_row did) rs\<rparr>"
proof (induction rs arbitrary: s)
  case Nil
  then show ?case by (simp add: go_inv)
next
  case (Cons r rs)
  from Cons.prems obtain u where
    u: "sql E (insert_record did r) s = (Inr (), u)"
    and rest: "go_foreach (\<lambda>r. sql E (insert_record did r)) rs u = (Inr x, t)"
    by (auto simp: go_inv)
  have "db u = (db s)\<lparr>repo_records := repo_records (db s) @ [import_row did r]\<rparr>"
    using u by (auto simp: go_inv insert_record_def import_row_def tbl_insert_def split: sum.splits if_splits)
  with Cons.IH [OF rest] show ?case by simp
qed

lemma clear_repo_run:
  "clear_repo E did s = (Inr x, t) \<Longrightarrow>
     db t = (db s)\<lparr>repo_commits := tbl_delete (\<lambda>r. cm_did r = did) (repo_commits (db s)),
       repo_records := tbl_delete (\<lambda>r. rr_did r = did) (repo_records (db s)),
       repo_block_revs := tbl_delete (\<lambda>r. br_did r = did) (repo_block_revs (db s))\<rparr>"
  by (auto simp: clear_repo_def go_inv delete_commits_of_def delete_records_of_def delete_block_revs_of_def)

lemma import_block_revs_run:
  "go_foreach (\<lambda>c. sql E (upsert_block_rev did c rv)) cs s = (Inr x, t) \<Longrightarrow>
     \<exists>b. db t = (db s)\<lparr>repo_block_revs := b\<rparr> \<and>
       filter (\<lambda>r. br_did r \<noteq> did) b = filter (\<lambda>r. br_did r \<noteq> did) (repo_block_revs (db s))"
proof (induction cs arbitrary: s)
  case Nil
  then show ?case by (auto simp: go_inv intro!: exI [of _ "repo_block_revs (db s)"])
next
  case (Cons c cs)
  from Cons.prems obtain u where
    u: "sql E (upsert_block_rev did c rv) s = (Inr (), u)"
    and rest: "go_foreach (\<lambda>c. sql E (upsert_block_rev did c rv)) cs u = (Inr x, t)"
    by (auto simp: go_inv)
  have "db u = (db s)\<lparr>repo_block_revs := tbl_upsert block_rev_key \<lparr>br_did = did, br_cid = c, br_rev = rv\<rparr>
      (repo_block_revs (db s))\<rparr>"
    using u by (auto simp: go_inv upsert_block_rev_def)
  moreover have "filter (\<lambda>r. br_did r \<noteq> did) (tbl_upsert block_rev_key \<lparr>br_did = did, br_cid = c, br_rev = rv\<rparr> b) =
      filter (\<lambda>r. br_did r \<noteq> did) b" for b
    by (rule filter_tbl_upsert) auto
  ultimately show ?case using Cons.IH [OF rest] by auto
qed

lemma import_tx_run:
  assumes "import_tx E did head sc records cids s = (Inr x, t)"
  shows "\<exists>now b. db t = (db s)\<lparr>
      repo_commits := tbl_delete (\<lambda>r. cm_did r = did) (repo_commits (db s)) @
        [\<lparr>cm_did = did, cm_rev = sc_rev sc, cm_cid = head, cm_prev = sc_prev sc, cm_data = sc_data sc,
          cm_sig = sc_sig sc, cm_created_at = Stamp now\<rparr>],
      repo_records := tbl_delete (\<lambda>r. rr_did r = did) (repo_records (db s)) @ map (import_row did) records,
      repo_block_revs := b\<rparr> \<and>
    filter (\<lambda>r. br_did r \<noteq> did) b = filter (\<lambda>r. br_did r \<noteq> did) (repo_block_revs (db s))"
proof -
  from assms obtain x1 x2 x3 s1 now s2 s3 where
    c: "clear_repo E did s = (Inr x1, s1)"
    and i: "sql E (insert_commit \<lparr>cm_did = did, cm_rev = sc_rev sc, cm_cid = head, cm_prev = sc_prev sc,
      cm_data = sc_data sc, cm_sig = sc_sig sc, cm_created_at = Stamp now\<rparr>) s1 = (Inr x2, s2)"
    and r: "go_foreach (\<lambda>r. sql E (insert_record did r)) records s2 = (Inr x3, s3)"
    and b: "go_foreach (\<lambda>c. sql E (upsert_block_rev did c (sc_rev sc))) cids s3 = (Inr x, t)"
    unfolding import_tx_def by (auto simp only: go_bind_Inr_iff time_now_iff)
  have "db s2 = (db s1)\<lparr>repo_commits := repo_commits (db s1) @ [\<lparr>cm_did = did, cm_rev = sc_rev sc, cm_cid = head,
      cm_prev = sc_prev sc, cm_data = sc_data sc, cm_sig = sc_sig sc, cm_created_at = Stamp now\<rparr>]\<rparr>"
    using i by (auto simp: go_inv insert_commit_def tbl_insert_def split: sum.splits if_splits)
  with clear_repo_run [OF c] insert_records_run [OF r] import_block_revs_run [OF b] obtain b where
    "db t = (db s)\<lparr>
      repo_commits := tbl_delete (\<lambda>r. cm_did r = did) (repo_commits (db s)) @
        [\<lparr>cm_did = did, cm_rev = sc_rev sc, cm_cid = head, cm_prev = sc_prev sc, cm_data = sc_data sc,
          cm_sig = sc_sig sc, cm_created_at = Stamp now\<rparr>],
      repo_records := tbl_delete (\<lambda>r. rr_did r = did) (repo_records (db s)) @ map (import_row did) records,
      repo_block_revs := b\<rparr>"
    and "filter (\<lambda>r. br_did r \<noteq> did) b =
      filter (\<lambda>r. br_did r \<noteq> did) (tbl_delete (\<lambda>r. br_did r = did) (repo_block_revs (db s)))"
    by auto
  then show ?thesis by (auto simp: filter_tbl_delete)
qed

section \<open>Properties\<close>

lemma keeps_import_tx:
  assumes "\<And>s n. f (s\<lparr>tick := n\<rparr>) = f s" and "\<And>s n d. f (s\<lparr>tick := n, db := d\<rparr>) = f s"
  shows "keeps f (import_tx E did head sc records cids)"
proof -
  have sql: "keeps f (sql E q)" for q :: "(database, 'x) go"
    by (rule keeps_sql) (simp_all add: assms)
  show ?thesis unfolding import_tx_def clear_repo_def by (intro keeps_intro sql)
qed

lemma ImportRepo_cases:
  assumes run: "ImportRepo E did file s = (r, t)"
  obtains (failed) "isl r" "but_blocks (db t) = but_blocks (db s)" "repos t = repos s" "emitter t = emitter s"
  | (imported) head sc records cids u v w where
      "import_read E did file s = (Inr (head, sc, records, cids), u)"
      "but_blocks (db u) = but_blocks (db s)" "import_tx E did head sc records cids v = (Inr (), w)"
      "db v = db u" "r = Inr ()" "db t = db w" "repos t = (repos s)(did := None)" "emitter t = emitter s"
proof -
  let ?f = "\<lambda>s. (but_blocks (db s), emitter s)"
  obtain x u where u: "import_read E did file s = (x, u)" by fastforce
  have "off_handle did ?f" by (simp add: off_handle_def but_blocks_def)
  then have fu: "?f u = ?f s" using u by (rule keepsD [OF keeps_import_read])
  have rs: "repos u = repos s"
  proof -
    have bs: "keeps repos (bs_put E c d)" "keeps repos (bs_get E c)" for c d
      by (simp_all add: keeps_bs_put keeps_bs_get)
    have lib: "keeps repos (run_blk (bs_get E) (bs_put E) p)" for p :: "'x blk_prog"
      by (intro keeps_run_blk bs)
    have blocks: "keeps repos (import_blocks E bs)" for bs
      by (induction E bs rule: import_blocks.induct) (auto intro!: keeps_intro keeps_bs_put)
    have recs: "keeps repos (import_records E es)" for es
      by (induction E es rule: import_records.induct) (auto intro!: keeps_intro keeps_bs_get split: prod.split)
    have "keeps repos (import_read E did file)"
      unfolding import_read_def by (intro keeps_intro keeps_single lib blocks recs)
    then show ?thesis using u by (rule keepsD)
  qed
  show thesis
  proof (cases x)
    case (Inl e)
    with u run have "r = Inl e" "t = u" by (auto simp: ImportRepo_def go_bind_def)
    with fu rs show ?thesis by (intro failed) simp_all
  next
    case (Inr q)
    obtain head sc records cids where q: "q = (head, sc, records, cids)" by (cases q) auto
    obtain y v where v: "sql_tx E (import_tx E did head sc records cids) u = (y, v)" by fastforce
    have "keeps repos (sql_tx E (import_tx E did head sc records cids))"
      and "keeps emitter (sql_tx E (import_tx E did head sc records cids))"
      by (rule keeps_sql_tx; simp add: keeps_import_tx)+
    then have kv: "repos v = repos u" "emitter v = emitter u" using v by (auto dest: keepsD)
    show ?thesis
    proof (cases "isl y \<and> db v = db u")
      case True
      then obtain e where "y = Inl e" by (auto simp: isl_def)
      with run u v Inr q have "r = Inl e" "t = v" by (auto simp: ImportRepo_def go_bind_def)
      with True fu rs kv show ?thesis by (intro failed) simp_all
    next
      case False
      with sql_tx_cases [OF v] obtain z w where w: "y = Inr z"
        "import_tx E did head sc records cids (u\<lparr>tick := Suc (tick u)\<rparr>) = (Inr z, w)"
        "v = w\<lparr>tick := Suc (tick w)\<rparr>" by blast
      have "r = Inr ()" "t = v\<lparr>repos := (repos v)(did := None)\<rparr>"
        using run u v Inr q w(1) by (auto simp: ImportRepo_def go_bind_def go_modify_def)
      then show ?thesis using u Inr q fu rs kv w
        by (intro imported [of head sc records cids u "u\<lparr>tick := Suc (tick u)\<rparr>" w]) simp_all
    qed
  qed
qed


text \<open>The records the callback of \<open>ForEach\<close> collects.\<close>

definition listed :: "(string \<times> cid) list \<Rightarrow> (string \<times> string \<times> cid) list" where
  "listed entries =
     [(c, k, v). (p, v) \<leftarrow> entries, (c, k) \<leftarrow> [split_path p], c \<noteq> [] \<and> k \<noteq> []]"

lemma import_records_run:
  "import_records E es s = (Inr rs, t) \<Longrightarrow> map (\<lambda>r. (im_collection r, im_rkey r, im_cid r)) rs = listed es"
  by (induction E es arbitrary: s rs rule: import_records.induct)
     (auto simp: go_inv listed_def split: prod.splits if_splits)

lemma import_read_run:
  assumes "import_read E did file s = (Inr (head, sc, records, cids), t)"
  shows "\<exists>rp entries. blk_outcome (ix_open E head) (Inr rp) \<and> ix_did E rp = did \<and> ix_signed E rp = sc \<and>
    blk_outcome (ix_entries E rp) (Inr entries) \<and>
    map (\<lambda>r. (im_collection r, im_rkey r, im_cid r)) records = listed entries"
proof -
  from assms obtain roots blks s1 where
    "car_read E file = Inr (roots, blks)" and
    r: "(case roots of
       [head] \<Rightarrow>
         go_bind (import_blocks E blks) (\<lambda>cids.
         go_bind (run_blk (bs_get E) (bs_put E) (ix_open E head)) (\<lambda>res.
         go_bind (go_wrap ''open imported repo'' (go_of res)) (\<lambda>rp.
         if ix_did E rp \<noteq> did then go_raise (Failure ''repo did does not match account'')
         else
           go_bind (run_blk (bs_get E) (bs_put E) (ix_entries E rp)) (\<lambda>entries.
           go_bind (go_wrap ''walk records''
              (go_bind (go_of entries) (import_records E))) (\<lambda>records.
           go_ret (head, ix_signed E rp, records, cids))))))
     | _ \<Rightarrow> go_raise (Failure ''expected a single car root'')) s1 = (Inr (head, sc, records, cids), t)"
    by (auto simp: import_read_def go_inv)
  then obtain h where roots: "roots = [h]"
    by (auto simp: go_raise_def split: list.splits)
  from r roots obtain cids' s2 rp s3 entries s4 es s5 where
    o: "run_blk (bs_get E) (bs_put E) (ix_open E h) s2 = (Inr (Inr rp), s3)" "ix_did E rp = did"
    and e: "run_blk (bs_get E) (bs_put E) (ix_entries E rp) s3 = (Inr (Inr entries), s4)"
    and i: "import_records E entries s4 = (Inr records, s5)"
    and res: "head = h" "sc = ix_signed E rp"
    by (auto simp: go_inv go_raise_def split: if_splits)
  have "blk_outcome (ix_open E h) (Inr rp)" using run_blk_outcome [OF o(1)] by blast
  moreover have "blk_outcome (ix_entries E rp) (Inr entries)" using run_blk_outcome [OF e] by blast
  ultimately show ?thesis using o(2) res import_records_run [OF i] by blast
qed


section \<open>The JSON of a record\<close>

text \<open>
  A reader of the lexicon's JSON: the object forms of links and bytes back to the values.
  \<open>plain\<close> values have no map that looks like one of those forms.
\<close>

fun ofJSON :: "(string \<Rightarrow> cid) \<Rightarrow> json \<Rightarrow> gov" where
  "ofJSON un (JObj [(k, JStr x)]) =
     (if k = ''$link'' then GCid (un x)
      else if k = ''$bytes'' then (case b64_decode std_alphabet x of Inl e \<Rightarrow> GBytes [] | Inr b \<Rightarrow> GBytes b)
      else GMap [(k, GStr x)])"
| "ofJSON un (JObj m) = GMap (map (\<lambda>(k, v). (k, ofJSON un v)) m)"
| "ofJSON un (JArr xs) = GList (map (ofJSON un) xs)"
| "ofJSON un (JStr s) = GStr s"
| "ofJSON un (JScalar s) = GScalar s"
| "ofJSON un _ = GScalar []"

fun plain :: "gov \<Rightarrow> bool" where
  "plain (GMap m) \<longleftrightarrow>
     (case m of [(k, GStr x)] \<Rightarrow> k \<noteq> ''$link'' \<and> k \<noteq> ''$bytes'' | _ \<Rightarrow> True) \<and>
     (\<forall>kv \<in> set m. plain (snd kv))"
| "plain (GList xs) \<longleftrightarrow> (\<forall>x \<in> set xs. plain x)"
| "plain _ \<longleftrightarrow> True"

lemma toJSON_JStr: "toJSON cs v = JStr x \<longleftrightarrow> v = GStr x"
  by (cases v) auto

lemma ofJSON_map:
  assumes "case m of [(k, GStr x)] \<Rightarrow> k \<noteq> ''$link'' \<and> k \<noteq> ''$bytes'' | _ \<Rightarrow> True"
  shows "ofJSON un (JObj (map (\<lambda>(k, v). (k, toJSON cs v)) m)) =
    GMap (map (\<lambda>(k, v). (k, ofJSON un (toJSON cs v))) m)"
proof (cases "\<exists>k x. m = [(k, GStr x)]")
  case True
  then show ?thesis using assms by auto
next
  case False
  have "ofJSON un (JObj js) = GMap (map (\<lambda>(k, v). (k, ofJSON un v)) js)" if "\<nexists>k x. js = [(k, JStr x)]" for js
    using that by (cases "(un, JObj js)" rule: ofJSON.cases) auto
  moreover have "\<nexists>k x. map (\<lambda>(k, v). (k, toJSON cs v)) m = [(k, JStr x)]"
    using False by (auto simp: map_eq_Cons_conv toJSON_JStr)
  ultimately show ?thesis by (simp add: comp_def case_prod_beta)
qed

text \<open>C25: The JSON form of a record loses nothing: from the value \<open>toJSON\<close> makes, every link, byte
  string, list, map and scalar of the record can be read back, unless the record itself
  contains an object shaped like a link or a byte string.\<close>

theorem toJSON_roundtrip:
  assumes "\<And>c. un (cs c) = c" and "plain v"
  shows "ofJSON un (toJSON cs v) = v"
  using assms
proof (induction cs v rule: toJSON.induct)
  case (2 cs m)
  then show ?case using ofJSON_map [of m un cs] by (auto intro!: map_idI)
next
  case (3 cs xs)
  then show ?case by (auto intro: map_idI)
next
  case (4 cs b)
  then show ?case by (simp add: b64_roundtrip std_alphabet_ok)
qed simp_all

end
