(* ===== verification/Listing.thy ===== *)
theory Listing
  imports Manager
begin

text \<open>
  The paged reads of \<open>internal/repo/manager.go\<close>: \<open>ListRecords\<close> in both orders,
  \<open>Collections\<close>, \<open>ListRepos\<close> and \<open>ListReposByCollection\<close>. Each of the paged ones is an
  instance of \<open>keyset_pager\<close>, so reading page after page returns every row once and in
  order. Limits are natural numbers: the handlers clamp what the request asks for.
\<close>

section \<open>Listing\<close>

record list_item =
  li_rkey :: string
  li_cid :: string
  li_value :: bytes

definition list_item_of :: "'r env \<Rightarrow> record_row \<Rightarrow> go_error + list_item" where
  "list_item_of E r =
     (case cid_cast E (rr_cid r) of
        Inl e \<Rightarrow> Inl e
      | Inr c \<Rightarrow> Inr \<lparr>li_rkey = rr_rkey r, li_cid = cid_string E c, li_value = rr_value r\<rparr>)"

definition records_in :: "did \<Rightarrow> string \<Rightarrow> database \<Rightarrow> record_row list" where
  "records_in did collection d =
     filter (\<lambda>r. rr_did r = did \<and> rr_collection r = collection) (repo_records d)"

definition ListRecords ::
  "'r env \<Rightarrow> did \<Rightarrow> string \<Rightarrow> string \<Rightarrow> nat \<Rightarrow> ('r pds, list_item list \<times> string option) go" where
  "ListRecords E did collection cursor limit =
     go_bind (sql E (q_rows (\<lambda>d. take (Suc limit) (order_asc rr_rkey
        (filter (\<lambda>r. cursor = [] \<or> cursor < rr_rkey r) (records_in did collection d)))))) (\<lambda>rows.
     go_bind (go_of (scan_all (list_item_of E) rows)) (\<lambda>items.
     go_of (cut_page li_rkey limit items)))"

definition ListRecordsDesc ::
  "'r env \<Rightarrow> did \<Rightarrow> string \<Rightarrow> string \<Rightarrow> nat \<Rightarrow> ('r pds, list_item list \<times> string option) go" where
  "ListRecordsDesc E did collection cursor limit =
     go_bind (sql E (q_rows (\<lambda>d. take (Suc limit) (order_desc rr_rkey
        (filter (\<lambda>r. cursor = [] \<or> rr_rkey r < cursor) (records_in did collection d)))))) (\<lambda>rows.
     go_bind (go_of (scan_all (list_item_of E) rows)) (\<lambda>items.
     go_of (cut_page li_rkey limit items)))"

text \<open>\<open>SELECT DISTINCT ... ORDER BY\<close> the same column.\<close>

definition distinct_asc :: "string list \<Rightarrow> string list" where
  "distinct_asc xs = sort (remdups xs)"

definition Collections :: "'r env \<Rightarrow> did \<Rightarrow> ('r pds, string list) go" where
  "Collections E did = sql E (q_rows (\<lambda>d.
     distinct_asc (map rr_collection (filter (\<lambda>r. rr_did r = did) (repo_records d)))))"

record repo_info =
  ri_did :: did
  ri_head :: string
  ri_rev :: string
  ri_active :: bool

text \<open>
  The join of an account with its commit of the greatest revision, if any. \<open>(did, rev)\<close> is a
  primary key, so that row is \<open>head_row\<close>.
\<close>

definition repo_info_of :: "'r env \<Rightarrow> database \<Rightarrow> account \<Rightarrow> go_error + repo_info" where
  "repo_info_of E d a =
     (case head_row d (acc_did a) of
        None \<Rightarrow> Inr \<lparr>ri_did = acc_did a, ri_head = [], ri_rev = [], ri_active = (acc_deactivated_at a = None)\<rparr>
      | Some c \<Rightarrow>
          (case cid_cast E (cm_cid c) of
             Inl e \<Rightarrow> Inl e
           | Inr h \<Rightarrow> Inr \<lparr>ri_did = acc_did a, ri_head = cid_string E h, ri_rev = cm_rev c,
                           ri_active = (acc_deactivated_at a = None)\<rparr>))"

definition ListRepos :: "'r env \<Rightarrow> string \<Rightarrow> nat \<Rightarrow> ('r pds, repo_info list \<times> string option) go" where
  "ListRepos E cursor limit =
     go_bind (sql E (q_rows (\<lambda>d. (d, take (Suc limit) (order_asc acc_did
        (filter (\<lambda>a. cursor < acc_did a) (accounts d))))))) (\<lambda>(d, rows).
     go_bind (go_of (scan_all (repo_info_of E d) rows)) (\<lambda>out.
     go_of (cut_page ri_did limit out)))"

definition ListReposByCollection ::
  "'r env \<Rightarrow> string \<Rightarrow> string \<Rightarrow> nat \<Rightarrow> ('r pds, did list \<times> string option) go" where
  "ListReposByCollection E collection cursor limit =
     go_bind (sql E (q_rows (\<lambda>d. take (Suc limit) (distinct_asc (map rr_did
        (filter (\<lambda>r. rr_collection r = collection \<and> cursor < rr_did r) (repo_records d))))))) (\<lambda>out.
     go_of (cut_page id limit out))"


section \<open>The pages of a query\<close>

lemma scan_all_projr:
  "(\<And>r. r \<in> set rs \<Longrightarrow> \<exists>x. f r = Inr x) \<Longrightarrow> scan_all f rs = Inr (map (\<lambda>r. projr (f r)) rs)"
  by (rule scan_all_total) force

text \<open>What the four queries share: select, order, cut to one more than the limit, scan, cut.\<close>

lemma scanned_page:
  assumes "\<And>r. r \<in> set rs \<Longrightarrow> \<exists>x. f r = Inr x"
  shows "scan_all f (take n rs) = Inr (take n (map (\<lambda>r. projr (f r)) rs))"
  unfolding take_map by (rule scan_all_projr) (rule assms, erule in_set_takeD)

lemma filter_map_on:
  "(\<And>r. r \<in> set rs \<Longrightarrow> p (g r) = q r) \<Longrightarrow> filter p (map g rs) = map g (filter q rs)"
  by (induction rs) auto

lemma sorted_wrt_map_on:
  "sorted_wrt R rs \<Longrightarrow> (\<And>x y. x \<in> set rs \<Longrightarrow> y \<in> set rs \<Longrightarrow> R x y \<Longrightarrow> Q (g x) (g y)) \<Longrightarrow> sorted_wrt Q (map g rs)"
  by (induction rs) auto

lemma nil_less: "[] < (x :: string) \<longleftrightarrow> x \<noteq> []"
  by (cases x) simp_all

lemma query_page:
  "no_faults E \<Longrightarrow>
   fst (go_bind (sql E (q_rows f)) k s) = fst (k (f (db s)) (s\<lparr>tick := Suc (tick s)\<rparr>))"
  by (simp add: go_bind_def sql_def no_faults_def q_rows_def)

lemma of_page: "fst (go_bind (go_of r) k s) = (case r of Inl e \<Rightarrow> Inl e | Inr x \<Rightarrow> fst (k x s))"
  by (auto simp: go_bind_def go_of_def split: sum.splits)

lemma fst_of: "fst (go_of r s) = r"
  by (simp add: go_of_def)

lemmas page_simps = query_page of_page fst_of scanned_page

subsection \<open>Records of a collection\<close>

definition item :: "'r env \<Rightarrow> record_row \<Rightarrow> list_item" where
  "item E r = projr (list_item_of E r)"

definition records_ok :: "'r env \<Rightarrow> did \<Rightarrow> string \<Rightarrow> 'r pds \<Rightarrow> bool" where
  "records_ok E did collection s \<longleftrightarrow> no_faults E \<and>
     tbl_keys_ok rr_rkey (records_in did collection (db s)) \<and>
     (\<forall>r \<in> set (records_in did collection (db s)). rr_rkey r \<noteq> [] \<and> (\<exists>c. cid_cast E (rr_cid r) = Inr c))"

text \<open>The primary key of the table makes the record keys of one collection distinct.\<close>

lemma tbl_keys_ok_records_in:
  assumes "tbl_keys_ok record_key (repo_records d)"
  shows "tbl_keys_ok rr_rkey (records_in did collection d)"
proof -
  have "distinct (map record_key (records_in did collection d))"
    using assms by (simp add: tbl_keys_ok_def records_in_def distinct_map_filter)
  moreover have "map record_key (records_in did collection d) =
      map (\<lambda>k. (did, collection, k)) (map rr_rkey (records_in did collection d))"
    by (auto simp: records_in_def)
  ultimately have "distinct (map (\<lambda>k. (did, collection, k)) (map rr_rkey (records_in did collection d)))"
    by simp
  then show ?thesis unfolding tbl_keys_ok_def by (metis distinct_map)
qed

lemma list_item_of_ok:
  "cid_cast E (rr_cid r) = Inr c \<Longrightarrow> list_item_of E r = Inr (item E r) \<and> li_rkey (item E r) = rr_rkey r"
  by (simp add: item_def list_item_of_def)

lemma records_okD:
  assumes "records_ok E did collection s"
  shows "no_faults E" and "distinct (map rr_rkey (records_in did collection (db s)))"
    and "r \<in> set (records_in did collection (db s)) \<Longrightarrow> list_item_of E r = Inr (item E r)"
    and "r \<in> set (records_in did collection (db s)) \<Longrightarrow> li_rkey (item E r) = rr_rkey r"
    and "r \<in> set (records_in did collection (db s)) \<Longrightarrow> rr_rkey r \<noteq> []"
  using assms by (auto simp: records_ok_def tbl_keys_ok_def dest: list_item_of_ok)

lemma scan_items:
  assumes "records_ok E did collection s" and "set rs \<subseteq> set (records_in did collection (db s))"
  shows "scan_all (list_item_of E) (take n rs) = Inr (take n (map (item E) rs))"
proof -
  have "scan_all (list_item_of E) (take n rs) = Inr (take n (map (\<lambda>r. projr (list_item_of E r)) rs))"
    using records_okD(3) [OF assms(1)] assms(2) by (intro scanned_page) blast
  then show ?thesis unfolding item_def .
qed

interpretation records_asc: keyset_pager li_rkey "(<)"
  "\<lambda>s. map (item E) (order_asc rr_rkey (records_in did collection (db s)))"
  "\<lambda>s c n. fst (ListRecords E did collection c n s)"
  "records_ok E did collection" for E did collection
proof (unfold_locales, goal_cases)
  case (1 a b)
  then show ?case by simp
next
  case (2 s)
  show ?case
    by (rule sorted_wrt_map_on [OF order_asc_sorted [OF records_okD(2) [OF 2]]])
       (simp add: records_okD [OF 2])
next
  case (3 s x)
  then show ?case using records_okD(4,5) [OF 3(1)] by auto
next
  case (4 s n)
  then show ?case
    by (simp add: ListRecords_def page_simps records_okD(1) scan_items del: take_Suc)
next
  case (5 s c n)
  have "filter (\<lambda>x. c < li_rkey x) (map (item E) (order_asc rr_rkey (records_in did collection (db s)))) =
      map (item E) (filter (\<lambda>r. c < rr_rkey r) (order_asc rr_rkey (records_in did collection (db s))))"
    by (rule filter_map_on) (simp add: records_okD [OF 5(1)])
  then show ?case using 5(2)
    by (simp add: ListRecords_def page_simps records_okD(1) [OF 5(1)] scan_items [OF 5(1)]
        filter_order_asc subset_iff)
qed

interpretation records_desc: keyset_pager li_rkey "(>)"
  "\<lambda>s. map (item E) (order_desc rr_rkey (records_in did collection (db s)))"
  "\<lambda>s c n. fst (ListRecordsDesc E did collection c n s)"
  "records_ok E did collection" for E did collection
proof (unfold_locales, goal_cases)
  case (1 a b)
  then show ?case by simp
next
  case (2 s)
  show ?case
    by (rule sorted_wrt_map_on [OF order_desc_sorted [OF records_okD(2) [OF 2]]])
       (simp add: records_okD [OF 2])
next
  case (3 s x)
  then show ?case using records_okD(4,5) [OF 3(1)] by auto
next
  case (4 s n)
  then show ?case
    by (simp add: ListRecordsDesc_def page_simps records_okD(1) scan_items)
next
  case (5 s c n)
  have "filter (\<lambda>x. li_rkey x < c) (map (item E) (order_desc rr_rkey (records_in did collection (db s)))) =
      map (item E) (filter (\<lambda>r. rr_rkey r < c) (order_desc rr_rkey (records_in did collection (db s))))"
    by (rule filter_map_on) (simp add: records_okD [OF 5(1)])
  then show ?case using 5(2)
    by (simp add: ListRecordsDesc_def page_simps records_okD(1) [OF 5(1)] scan_items [OF 5(1)]
        filter_order_desc subset_iff)
qed

subsection \<open>Accounts\<close>

definition info :: "'r env \<Rightarrow> database \<Rightarrow> account \<Rightarrow> repo_info" where
  "info E d a = projr (repo_info_of E d a)"

definition repos_ok :: "'r env \<Rightarrow> 'r pds \<Rightarrow> bool" where
  "repos_ok E s \<longleftrightarrow> no_faults E \<and> tbl_keys_ok acc_did (accounts (db s)) \<and>
     (\<forall>a \<in> set (accounts (db s)). acc_did a \<noteq> []) \<and>
     (\<forall>c \<in> set (repo_commits (db s)). \<exists>h. cid_cast E (cm_cid c) = Inr h)"

lemma head_row_mem: "head_row d did = Some c \<Longrightarrow> c \<in> set (repo_commits d) \<and> cm_did c = did"
  by (auto simp: head_row_def commits_of_def dest: top_row_mem)

lemma repos_okD:
  assumes "repos_ok E s"
  shows "no_faults E" and "distinct (map acc_did (accounts (db s)))"
    and "repo_info_of E (db s) a = Inr (info E (db s) a)"
    and "ri_did (info E (db s) a) = acc_did a"
    and "a \<in> set (accounts (db s)) \<Longrightarrow> acc_did a \<noteq> []"
proof -
  have "\<exists>i. repo_info_of E (db s) a = Inr i \<and> ri_did i = acc_did a"
  proof (cases "head_row (db s) (acc_did a)")
    case None
    then show ?thesis by (simp add: repo_info_of_def)
  next
    case (Some c)
    then obtain h where "cid_cast E (cm_cid c) = Inr h"
      using assms head_row_mem [OF Some] by (auto simp: repos_ok_def)
    with Some show ?thesis by (simp add: repo_info_of_def)
  qed
  then show "repo_info_of E (db s) a = Inr (info E (db s) a)"
    and "ri_did (info E (db s) a) = acc_did a" unfolding info_def by auto
  show "no_faults E" and "distinct (map acc_did (accounts (db s)))"
    and "a \<in> set (accounts (db s)) \<Longrightarrow> acc_did a \<noteq> []"
    using assms by (auto simp: repos_ok_def tbl_keys_ok_def)
qed

lemma scan_infos:
  assumes "repos_ok E s"
  shows "scan_all (repo_info_of E (db s)) (take n rs) = Inr (take n (map (info E (db s)) rs))"
  unfolding info_def using repos_okD(3) [OF assms] by (intro scanned_page) blast

lemma ListRepos_page:
  assumes "repos_ok E s"
  shows "fst (ListRepos E c n s) = cut_page ri_did n (take (Suc n)
           (filter (\<lambda>i. c < ri_did i) (map (info E (db s)) (order_asc acc_did (accounts (db s))))))"
proof -
  have "filter (\<lambda>i. c < ri_did i) (map (info E (db s)) (order_asc acc_did (accounts (db s)))) =
      map (info E (db s)) (filter (\<lambda>a. c < acc_did a) (order_asc acc_did (accounts (db s))))"
    by (rule filter_map_on) (simp add: repos_okD [OF assms])
  then show ?thesis
    by (simp add: ListRepos_def page_simps repos_okD(1) [OF assms] scan_infos [OF assms] filter_order_asc)
qed

interpretation repos: keyset_pager ri_did "(<)"
  "\<lambda>s. map (info E (db s)) (order_asc acc_did (accounts (db s)))"
  "\<lambda>s c n. fst (ListRepos E c n s)" "repos_ok E" for E
proof (unfold_locales, goal_cases)
  case (1 a b)
  then show ?case by simp
next
  case (2 s)
  show ?case
    by (rule sorted_wrt_map_on [OF order_asc_sorted [OF repos_okD(2) [OF 2]]])
       (simp add: repos_okD [OF 2])
next
  case (3 s x)
  then show ?case using repos_okD(4,5) [OF 3(1)] by auto
next
  case (4 s n)
  have "filter (\<lambda>i. [] < ri_did i) (map (info E (db s)) (order_asc acc_did (accounts (db s)))) =
      map (info E (db s)) (order_asc acc_did (accounts (db s)))"
    by (rule filter_True) (use repos_okD(4,5) [OF 4] in \<open>auto simp: nil_less\<close>)
  then show ?case by (simp add: ListRepos_page [OF 4])
next
  case (5 s c n)
  then show ?case by (simp add: ListRepos_page)
qed

text \<open>The DIDs that have a record in a collection.\<close>

definition holders :: "string \<Rightarrow> database \<Rightarrow> did list" where
  "holders collection d =
     distinct_asc (map rr_did (filter (\<lambda>r. rr_collection r = collection) (repo_records d)))"

definition holders_ok :: "'r env \<Rightarrow> string \<Rightarrow> 'r pds \<Rightarrow> bool" where
  "holders_ok E collection s \<longleftrightarrow> no_faults E \<and> [] \<notin> set (holders collection (db s))"

lemma distinct_asc_sorted: "sorted_wrt (<) (distinct_asc xs)"
  by (simp add: distinct_asc_def strict_sorted_iff)

lemma set_distinct_asc [simp]: "set (distinct_asc xs) = set xs"
  by (simp add: distinct_asc_def)

lemma distinct_asc_filter: "distinct_asc (filter p xs) = filter p (distinct_asc xs)"
proof (rule sorted_distinct_set_unique)
  show "sorted (distinct_asc (filter p xs))" "sorted (filter p (distinct_asc xs))"
    using distinct_asc_sorted [of xs] by (simp_all add: distinct_asc_def sorted_wrt_filter)
qed (simp_all add: distinct_asc_def)

lemma holders_page:
  assumes "no_faults E"
  shows "fst (ListReposByCollection E collection c n s) =
     cut_page id n (take (Suc n) (filter (\<lambda>did. c < did) (holders collection (db s))))"
proof -
  have "map rr_did (filter (\<lambda>r. rr_collection r = collection \<and> c < rr_did r) rs) =
      filter (\<lambda>did. c < did) (map rr_did (filter (\<lambda>r. rr_collection r = collection) rs))"
    for rs :: "record_row list"
    by (induction rs) auto
  then show ?thesis
    by (simp add: ListReposByCollection_def page_simps assms holders_def distinct_asc_filter)
qed

interpretation holders: keyset_pager id "(<)" "\<lambda>s. holders collection (db s)"
  "\<lambda>s c n. fst (ListReposByCollection E collection c n s)" "holders_ok E collection" for E collection
proof (unfold_locales, goal_cases)
  case (1 a b)
  then show ?case by simp
next
  case (2 s)
  show ?case by (simp add: holders_def distinct_asc_sorted)
next
  case (3 s x)
  then show ?case by (auto simp: holders_ok_def)
next
  case (4 s n)
  have "filter (\<lambda>did. [] < did) (holders collection (db s)) = holders collection (db s)"
    by (rule filter_True) (use 4 in \<open>auto simp: holders_ok_def nil_less\<close>)
  then show ?case using 4 by (simp add: holders_page holders_ok_def)
next
  case (5 s c n)
  then show ?case by (simp add: holders_page holders_ok_def)
qed

section \<open>Properties\<close>

text \<open>C28: Reading a collection page by page, with any positive limit and from the empty cursor,
  returns every record once and in ascending order of the record keys, and ends.\<close>

theorem ListRecords_pages:
  assumes "records_ok E did collection s" and "0 < limit"
    and "length (records_in did collection (db s)) < fuel"
  shows "walk_pages (\<lambda>c. fst (ListRecords E did collection c limit s)) fuel [] =
    Inr (map (item E) (order_asc rr_rkey (records_in did collection (db s))))"
  by (rule records_asc.walk_complete) (use assms in simp_all)

text \<open>The same for the descending order used by feeds.\<close>

theorem ListRecordsDesc_pages:
  assumes "records_ok E did collection s" and "0 < limit"
    and "length (records_in did collection (db s)) < fuel"
  shows "walk_pages (\<lambda>c. fst (ListRecordsDesc E did collection c limit s)) fuel [] =
    Inr (map (item E) (order_desc rr_rkey (records_in did collection (db s))))"
  by (rule records_desc.walk_complete) (use assms in simp_all)

text \<open>Reading the repos of the host page by page returns every account once, in the order of
  the DIDs, with its head and status.\<close>

theorem ListRepos_pages:
  assumes "repos_ok E s" and "0 < limit" and "length (accounts (db s)) < fuel"
  shows "walk_pages (\<lambda>c. fst (ListRepos E c limit s)) fuel [] =
    Inr (map (info E (db s)) (order_asc acc_did (accounts (db s))))"
  by (rule repos.walk_complete) (use assms in simp_all)

text \<open>Reading the holders of a collection page by page returns every DID with a record in it
  once, in ascending order.\<close>

theorem ListReposByCollection_pages:
  assumes "holders_ok E collection s" and "0 < limit" and "length (holders collection (db s)) < fuel"
  shows "walk_pages (\<lambda>c. fst (ListReposByCollection E collection c limit s)) fuel [] =
    Inr (holders collection (db s))"
  by (rule holders.walk_complete) (use assms in simp_all)

end
