(* ===== verification/RepoApi.thy ===== *)
theory RepoApi
  imports Auth Import Listing
begin

text \<open>
  \<open>internal/api/repo.go\<close> and \<open>internal/api/import.go\<close>: the endpoints \<open>com.atproto.repo.*\<close>. A
  write endpoint authenticates, checks that the repo it names is the caller's own, checks
  every name and record of the request, and only then calls \<open>ApplyWrites\<close>. indigo's syntax
  parsers and record decoders are parameters.
\<close>

section \<open>Records\<close>

definition recordMarshaler :: "'r env \<Rightarrow> bytes \<Rightarrow> bool option \<Rightarrow> go_error + marshaler" where
  "recordMarshaler E recordJ validate =
     (case type_extract E recordJ of
        Inl e \<Rightarrow> Inl (Wrap ''record missing $type'' e)
      | Inr typ \<Rightarrow>
          if lex_known E typ then
            (case lex_decode E recordJ of Inl e \<Rightarrow> Inl (Wrap ''invalid record'' e) | Inr rec \<Rightarrow> Inr rec)
          else if validate = None \<or> validate = Some True then Inl (Failure ''unsupported lexicon type'')
          else
            (case atdata_parse E recordJ of
               Inl e \<Rightarrow> Inl (Wrap ''invalid record'' e)
             | Inr v \<Rightarrow> (case atdata_cbor E v of Inl e \<Rightarrow> Inl e | Inr b \<Rightarrow> Inr (Inr b))))"

definition validateRecordType :: "'r env \<Rightarrow> bytes \<Rightarrow> string \<Rightarrow> go_error + unit" where
  "validateRecordType E recordJ collection =
     (case type_extract E recordJ of
        Inl e \<Rightarrow> Inl (Wrap ''record missing $type'' e)
      | Inr typ \<Rightarrow>
          if typ \<noteq> collection then Inl (Failure ''record $type does not match collection'') else Inr ())"

definition requireRepoMatch :: "'r env \<Rightarrow> did \<Rightarrow> string \<Rightarrow> ('r pds, unit) go" where
  "requireRepoMatch E did name =
     (if name = [] then go_raise (Failure ''repo is required'')
      else
        go_bind (go_try (resolveLocalDid E name)) (\<lambda>r.
        case r of
          Inl e \<Rightarrow> go_raise (Failure ''repo not found'')
        | Inr resolved \<Rightarrow>
            if resolved \<noteq> did then go_raise (Failure ''repo does not match authenticated account'')
            else go_ret ()))"

definition writeError :: "go_error \<Rightarrow> response" where
  "writeError e =
     (case root_cause e of
        ErrSwapCommitMismatch _ \<Rightarrow> XrpcError 400 ''InvalidSwap'' (ErrText e)
      | ErrSwapRecordMismatch _ _ \<Rightarrow> XrpcError 400 ''InvalidSwap'' (ErrText e)
      | ErrRecordExists _ _ \<Rightarrow> XrpcError 400 ''InvalidRequest'' (ErrText e)
      | ErrRecordNotFound _ _ \<Rightarrow> XrpcError 400 ''InvalidRequest'' (ErrText e)
      | _ \<Rightarrow> internal_error e)"

definition commit_json :: "string \<Rightarrow> string \<Rightarrow> json" where
  "commit_json c rv = JObj [(''cid'', JStr c), (''rev'', JStr rv)]"

section \<open>Single writes\<close>

record create_record_input =
  cr_repo :: string
  cr_collection :: string
  cr_rkey :: "string option"
  cr_record :: bytes
  cr_swap_commit :: "string option"
  cr_validate :: "bool option"

definition HandleCreateRecord :: "'r env \<Rightarrow> request \<Rightarrow> go_error + create_record_input \<Rightarrow> 'r handler" where
  "HandleCreateRecord E rq body =
     requireAuth E rq (\<lambda>did.
     DecodeBody body (\<lambda>i.
     on_error (requireRepoMatch E did (cr_repo i)) invalid_request (\<lambda>_.
     if cr_record i = [] then WriteXRPCError 400 ''InvalidRequest'' (Text ''record is required'')
     else
       on_error (go_of (validateRecordType E (cr_record i) (cr_collection i))) invalid_request (\<lambda>_.
       on_error (go_of (syntax_nsid E (cr_collection i))) invalid_request (\<lambda>collection.
       on_error (go_of (recordMarshaler E (cr_record i) (cr_validate i))) invalid_request (\<lambda>rec.
       on_error (case cr_rkey i of None \<Rightarrow> go_ret [] | Some k \<Rightarrow> go_of (syntax_rkey E k)) invalid_request (\<lambda>rkey.
       on_error (ApplyWrites E did [\<lparr>w_action = ''create'', w_collection = collection, w_rkey = rkey,
            w_rec = rec, w_json = cr_record i, w_swap = None\<rparr>] (cr_swap_commit i)) writeError
         (\<lambda>(commitCID, rv, results).
            case results of
              [] \<Rightarrow> go_raise (Panic ''index out of range'')
            | r # _ \<Rightarrow> WriteJSON (JObj [(''uri'', JStr (at_uri did collection (or_rkey r))), (''cid'', JStr (or_cid r)),
                (''commit'', commit_json commitCID rv)])))))))))"

record put_record_input =
  pr_repo :: string
  pr_collection :: string
  pr_rkey :: string
  pr_record :: bytes
  pr_swap_commit :: "string option"
  pr_swap_record :: "string option"
  pr_validate :: "bool option"

definition HandlePutRecord :: "'r env \<Rightarrow> request \<Rightarrow> go_error + put_record_input \<Rightarrow> 'r handler" where
  "HandlePutRecord E rq body =
     requireAuth E rq (\<lambda>did.
     DecodeBody body (\<lambda>i.
     on_error (requireRepoMatch E did (pr_repo i)) invalid_request (\<lambda>_.
     if pr_record i = [] then WriteXRPCError 400 ''InvalidRequest'' (Text ''record is required'')
     else
       on_error (go_of (validateRecordType E (pr_record i) (pr_collection i))) invalid_request (\<lambda>_.
       on_error (go_of (syntax_nsid E (pr_collection i))) invalid_request (\<lambda>collection.
       on_error (go_of (syntax_rkey E (pr_rkey i))) invalid_request (\<lambda>rkey.
       on_error (go_of (recordMarshaler E (pr_record i) (pr_validate i))) invalid_request (\<lambda>rec.
       on_error (ApplyWrites E did [\<lparr>w_action = ''update'', w_collection = collection, w_rkey = rkey,
            w_rec = rec, w_json = pr_record i, w_swap = pr_swap_record i\<rparr>] (pr_swap_commit i)) writeError
         (\<lambda>(commitCID, rv, results).
            case results of
              [] \<Rightarrow> go_raise (Panic ''index out of range'')
            | r # _ \<Rightarrow> WriteJSON (JObj [(''uri'', JStr (at_uri did collection rkey)), (''cid'', JStr (or_cid r)),
                (''commit'', commit_json commitCID rv)])))))))))"

record delete_record_input =
  dr_repo :: string
  dr_collection :: string
  dr_rkey :: string
  dr_swap_commit :: "string option"
  dr_swap_record :: "string option"

definition HandleDeleteRecord :: "'r env \<Rightarrow> request \<Rightarrow> go_error + delete_record_input \<Rightarrow> 'r handler" where
  "HandleDeleteRecord E rq body =
     requireAuth E rq (\<lambda>did.
     DecodeBody body (\<lambda>i.
     on_error (requireRepoMatch E did (dr_repo i)) invalid_request (\<lambda>_.
     on_error (go_of (syntax_nsid E (dr_collection i))) invalid_request (\<lambda>collection.
     on_error (go_of (syntax_rkey E (dr_rkey i))) invalid_request (\<lambda>rkey.
     on_error (ApplyWrites E did [\<lparr>w_action = ''delete'', w_collection = collection, w_rkey = rkey,
          w_rec = Inl (Failure ''nil record''), w_json = [], w_swap = dr_swap_record i\<rparr>] (dr_swap_commit i)) writeError
       (\<lambda>(commitCID, rv, results).
          WriteJSON (JObj [(''commit'', commit_json commitCID rv)])))))))"

section \<open>Batches\<close>

record batch_elem =
  be_action :: string
  be_collection :: string
  be_rkey :: string
  be_value :: bytes

record apply_writes_input =
  aw_repo :: string
  aw_swap_commit :: "string option"
  aw_validate :: "bool option"
  aw_writes :: "batch_elem list"

definition applyWritesAction :: "string \<Rightarrow> go_error + string" where
  "applyWritesAction t =
     (if t = ''com.atproto.repo.applyWrites#create'' then Inr ''create''
      else if t = ''com.atproto.repo.applyWrites#update'' then Inr ''update''
      else if t = ''com.atproto.repo.applyWrites#delete'' then Inr ''delete''
      else Inl (Failure ''unknown applyWrites action''))"

text \<open>One turn of the loop over \<open>writes\<close>: every failure is the same kind of response.\<close>

definition parse_write :: "'r env \<Rightarrow> bool option \<Rightarrow> batch_elem \<Rightarrow> go_error + op" where
  "parse_write E validate ew =
     (case applyWritesAction (be_action ew) of Inl e \<Rightarrow> Inl e
      | Inr action \<Rightarrow>
     (case syntax_nsid E (be_collection ew) of Inl e \<Rightarrow> Inl e
      | Inr collection \<Rightarrow>
     (case (if be_rkey ew \<noteq> [] then syntax_rkey E (be_rkey ew) else Inr []) of Inl e \<Rightarrow> Inl e
      | Inr rkey \<Rightarrow>
          let o1 = \<lparr>w_action = action, w_collection = collection, w_rkey = rkey,
                w_rec = Inl (Failure ''nil record''), w_json = [], w_swap = None\<rparr> in
          if action = ''delete'' \<and> rkey = [] then Inl (Failure ''rkey is required'')
          else if action \<noteq> ''delete'' then
            (if be_value ew = [] then Inl (Failure ''value is required'')
             else case validateRecordType E (be_value ew) (be_collection ew) of Inl e \<Rightarrow> Inl e
               | Inr _ \<Rightarrow>
                   (case recordMarshaler E (be_value ew) validate of Inl e \<Rightarrow> Inl e
                    | Inr rec \<Rightarrow> Inr (o1\<lparr>w_rec := rec, w_json := be_value ew\<rparr>)))
          else Inr o1)))"

definition batch_result :: "did \<Rightarrow> op \<Rightarrow> op_result \<Rightarrow> json" where
  "batch_result did o1 r =
     (if or_action r = ''create'' then JObj
        [(''$type'', JStr ''com.atproto.repo.applyWrites#createResult''),
         (''uri'', JStr (at_uri did (w_collection o1) (or_rkey r))), (''cid'', JStr (or_cid r))]
      else if or_action r = ''update'' then JObj
        [(''$type'', JStr ''com.atproto.repo.applyWrites#updateResult''),
         (''uri'', JStr (at_uri did (w_collection o1) (or_rkey r))), (''cid'', JStr (or_cid r))]
      else if or_action r = ''delete'' then JObj [(''$type'', JStr ''com.atproto.repo.applyWrites#deleteResult'')]
      else JObj [])"

definition HandleApplyWrites :: "'r env \<Rightarrow> request \<Rightarrow> go_error + apply_writes_input \<Rightarrow> 'r handler" where
  "HandleApplyWrites E rq body =
     requireAuth E rq (\<lambda>did.
     DecodeBody body (\<lambda>i.
     on_error (requireRepoMatch E did (aw_repo i)) invalid_request (\<lambda>_.
     if aw_writes i = [] then WriteXRPCError 400 ''InvalidRequest'' (Text ''writes is required'')
     else
       on_error (go_of (scan_all (parse_write E (aw_validate i)) (aw_writes i))) invalid_request (\<lambda>ops.
       on_error (ApplyWrites E did ops (aw_swap_commit i)) writeError (\<lambda>(commitCID, rv, results).
       WriteJSON (JObj [(''commit'', commit_json commitCID rv),
         (''results'', JArr (map2 (batch_result did) ops results))]))))))"

section \<open>Reads\<close>

definition repo_not_found :: response where
  "repo_not_found = XrpcError 404 ''RepoNotFound'' (Text ''repo not found'')"

definition record_not_found :: response where
  "record_not_found = XrpcError 404 ''RecordNotFound'' (Text ''record not found'')"

definition HandleGetRecord :: "'r env \<Rightarrow> request \<Rightarrow> 'r handler" where
  "HandleGetRecord E rq =
     on_error (resolveLocalDid E (query_get rq ''repo'')) (\<lambda>_. repo_not_found) (\<lambda>did.
     on_error (go_of (syntax_nsid E (query_get rq ''collection''))) invalid_request (\<lambda>collection.
     on_error (go_of (syntax_rkey E (query_get rq ''rkey''))) invalid_request (\<lambda>rkey.
     on_error (GetRecord E did collection rkey) (\<lambda>_. record_not_found) (\<lambda>(recordCID, v).
     WriteJSON (JObj [(''uri'', JStr (at_uri did collection rkey)), (''cid'', JStr recordCID), (''value'', JRaw v)])))))"

definition with_cursor :: "(string \<times> json) list \<Rightarrow> string option \<Rightarrow> json" where
  "with_cursor kvs next = JObj (kvs @ (case next of None \<Rightarrow> [] | Some c \<Rightarrow> [(''cursor'', JStr c)]))"

definition record_json :: "did \<Rightarrow> string \<Rightarrow> list_item \<Rightarrow> json" where
  "record_json did collection it = JObj
     [(''uri'', JStr (at_uri did collection (li_rkey it))), (''cid'', JStr (li_cid it)), (''value'', JRaw (li_value it))]"

definition HandleListRecords :: "'r env \<Rightarrow> request \<Rightarrow> 'r handler" where
  "HandleListRecords E rq =
     on_error (resolveLocalDid E (query_get rq ''repo'')) (\<lambda>_. repo_not_found) (\<lambda>did.
     on_error (go_of (syntax_nsid E (query_get rq ''collection''))) invalid_request (\<lambda>collection.
     limit_strict 50 100 ''limit must be 1-100'' rq (\<lambda>limit.
     on_error (ListRecords E did collection (query_get rq ''cursor'') limit) internal_error (\<lambda>(items, next).
     WriteJSON (with_cursor [(''records'', JArr (map (record_json did collection) items))] next)))))"

definition lookup_step :: "'r env \<Rightarrow> string \<Rightarrow> ('r pds, did) go" where
  "lookup_step E h s = (lookup_handle E (tick s) h, s\<lparr>tick := Suc (tick s)\<rparr>)"

definition handle_is_correct :: "'r env \<Rightarrow> did \<Rightarrow> string \<Rightarrow> ('r pds, bool) go" where
  "handle_is_correct E did handle =
     (case syntax_handle E handle of
        Inl e \<Rightarrow> go_ret False
      | Inr h \<Rightarrow> go_bind (go_try (lookup_step E h)) (\<lambda>r. go_ret (r = Inr did)))"

text \<open>The columns \<open>handle\<close> and \<open>did_doc\<close>, the latter not NULL.\<close>

definition described :: "did \<Rightarrow> database \<Rightarrow> (string \<times> string) option" where
  "described did d =
     (case find_account (\<lambda>a. acc_did a = did) d of
        None \<Rightarrow> None
      | Some a \<Rightarrow> map_option (\<lambda>doc. (acc_handle a, doc)) (acc_did_doc a))"

definition HandleDescribeRepo :: "'r env \<Rightarrow> request \<Rightarrow> 'r handler" where
  "HandleDescribeRepo E rq =
     on_error (resolveLocalDid E (query_get rq ''repo'')) (\<lambda>_. repo_not_found) (\<lambda>did.
     on_error (sql E (q_row (described did))) (\<lambda>_. repo_not_found) (\<lambda>(handle, doc).
     on_error (Collections E did) internal_error (\<lambda>collections.
     go_bind (handle_is_correct E did handle) (\<lambda>ok.
     WriteJSON (JObj [(''did'', JStr did), (''didDoc'', JDecoded doc), (''handle'', JStr handle),
       (''handleIsCorrect'', jbool ok), (''collections'', jnil (map JStr collections))])))))"

section \<open>Import\<close>

definition HandleImportRepo :: "'r env \<Rightarrow> string \<Rightarrow> request \<Rightarrow> bytes \<Rightarrow> 'r handler" where
  "HandleImportRepo E adminToken rq body =
     (if adminToken = [] then
        WriteXRPCError 404 ''MethodNotFound'' (Text ''importRepo is disabled without an admin token'')
      else case cut_prefix (rq_header rq ''Authorization'') ''Bearer '' of (tok, ok) \<Rightarrow>
        if \<not> ok \<or> \<not> SecureEqual tok adminToken then
          WriteXRPCError 401 ''AuthenticationRequired'' (Text ''invalid admin token'')
        else
          on_error (go_of (syntax_did E (query_get rq ''did''))) invalid_request (\<lambda>did.
          on_error (sql E (q_row (find_account (\<lambda>a. acc_did a = did))))
            (\<lambda>_. XrpcError 404 ''RepoNotFound'' (Text ''account not found'')) (\<lambda>_.
          on_error (ImportRepo E did body) internal_error (\<lambda>_. WriteJSON (JObj [])))))"

end
