(* ===== verification/SyncApi.thy ===== *)
theory SyncApi
  imports RepoApi Config
begin

text \<open>
  \<open>internal/api/sync.go\<close>, \<open>blob.go\<close>, \<open>didweb.go\<close>, \<open>identity.go\<close> and \<open>health.go\<close>: the
  endpoints \<open>com.atproto.sync.*\<close>, blobs, and the documents other hosts resolve this server by.
  A streamed reply is the bytes written before the stream ended, with or without an error.
\<close>

section \<open>Repos\<close>

definition carContentType :: string where
  "carContentType = ''application/vnd.ipld.car''"

definition stream_car :: "('s, unit) writer \<Rightarrow> ('s, response) go" where
  "stream_car m s = (case m (s, []) of (r, (t, out)) \<Rightarrow> (Inr (Content 200 carContentType out), t))"

definition HandleGetLatestCommit :: "'r env \<Rightarrow> request \<Rightarrow> 'r handler" where
  "HandleGetLatestCommit E rq =
     on_error (go_of (syntax_did E (query_get rq ''did''))) invalid_request (\<lambda>did.
     on_error (Head E did) (\<lambda>_. repo_not_found) (\<lambda>(head, rv).
     WriteJSON (JObj [(''cid'', JStr (cid_string E head)), (''rev'', JStr rv)])))"

definition HandleGetRepo :: "'r env \<Rightarrow> request \<Rightarrow> 'r handler" where
  "HandleGetRepo E rq =
     on_error (go_of (syntax_did E (query_get rq ''did''))) invalid_request (\<lambda>did.
     on_error (Head E did) (\<lambda>_. repo_not_found) (\<lambda>_.
     stream_car (WriteRepoCAR E did (query_get rq ''since''))))"

definition HandleGetCheckout :: "'r env \<Rightarrow> request \<Rightarrow> 'r handler" where
  "HandleGetCheckout E rq =
     on_error (go_of (syntax_did E (query_get rq ''did''))) invalid_request (\<lambda>did.
     on_error (Head E did) (\<lambda>_. repo_not_found) (\<lambda>_.
     stream_car (WriteRepoCAR E did [])))"

definition HandleSyncGetRecord :: "'r env \<Rightarrow> request \<Rightarrow> 'r handler" where
  "HandleSyncGetRecord E rq =
     on_error (go_of (syntax_did E (query_get rq ''did''))) invalid_request (\<lambda>did.
     on_error (go_of (syntax_nsid E (query_get rq ''collection''))) invalid_request (\<lambda>collection.
     on_error (go_of (syntax_rkey E (query_get rq ''rkey''))) invalid_request (\<lambda>rkey.
     on_error (RecordBlock E did collection rkey) (\<lambda>_. record_not_found) (\<lambda>_.
     stream_car (WriteRecordCAR E did collection rkey)))))"

definition HandleGetBlocks :: "'r env \<Rightarrow> request \<Rightarrow> 'r handler" where
  "HandleGetBlocks E rq =
     on_error (go_of (scan_all (cid_decode E) (rq_query rq ''cids''))) invalid_request (\<lambda>cids.
     stream_car (WriteBlocksCAR E cids))"

definition repo_json :: "repo_info \<Rightarrow> json" where
  "repo_json rp = JObj [(''did'', JStr (ri_did rp)), (''head'', JStr (ri_head rp)), (''rev'', JStr (ri_rev rp)),
     (''active'', jbool (ri_active rp))]"

definition HandleListRepos :: "'r env \<Rightarrow> request \<Rightarrow> 'r handler" where
  "HandleListRepos E rq =
     limit_strict 50 1000 ''limit must be 1-1000'' rq (\<lambda>limit.
     on_error (ListRepos E (query_get rq ''cursor'') limit) internal_error (\<lambda>(rps, next).
     WriteJSON (with_cursor [(''repos'', JArr (map repo_json rps))] next)))"

definition HandleListMissingBlobs :: "'r handler" where
  "HandleListMissingBlobs = WriteJSON (JObj [(''cursor'', JStr []), (''blobs'', JArr [])])"

definition HandleListReposByCollection :: "'r env \<Rightarrow> request \<Rightarrow> 'r handler" where
  "HandleListReposByCollection E rq =
     on_error (go_of (syntax_nsid E (query_get rq ''collection''))) invalid_request (\<lambda>collection.
     limit_strict 50 2000 ''limit must be 1-2000'' rq (\<lambda>limit.
     on_error (ListReposByCollection E collection (query_get rq ''cursor'') limit) internal_error (\<lambda>(dids, next).
     WriteJSON (with_cursor [(''repos'', JArr (map (\<lambda>d. JObj [(''did'', JStr d)]) dids))] next))))"

definition insert_relay :: "string \<Rightarrow> int \<Rightarrow> (database, unit) go" where
  "insert_relay host now = q_exec (\<lambda>d. d\<lparr>relays := tbl_ignore fst (host, Stamp now) (relays d)\<rparr>)"

definition HandleNotifyOfUpdate :: "'r env \<Rightarrow> go_error + string \<Rightarrow> 'r handler" where
  "HandleNotifyOfUpdate E body =
     DecodeBody body (\<lambda>host.
     go_bind (if host \<noteq> [] then go_bind (time_now E) (\<lambda>now. ignoring (sql E (insert_relay host now)))
              else go_ret ()) (\<lambda>_.
     WriteJSON (JObj [])))"

definition HandleRequestCrawl :: "'r handler" where
  "HandleRequestCrawl = WriteJSON (JObj [])"

definition HandleGetHostStatus :: "'r env \<Rightarrow> request \<Rightarrow> 'r handler" where
  "HandleGetHostStatus E rq =
     go_bind (scan_or 0 (sql E (q_rows (\<lambda>d. length (accounts d))))) (\<lambda>n.
     WriteJSON (JObj [(''hostname'', JStr (rq_host rq)), (''online'', jbool True), (''accountCount'', jint (int n))]))"

definition HandleGetRepoStatus :: "'r env \<Rightarrow> request \<Rightarrow> 'r handler" where
  "HandleGetRepoStatus E rq =
     on_error (go_of (syntax_did E (query_get rq ''did''))) invalid_request (\<lambda>did.
     on_error (sql E (q_row (find_account (\<lambda>a. acc_did a = did)))) (\<lambda>_. repo_not_found) (\<lambda>a.
     go_bind (scan_or (cid_undef, []) (Head E did)) (\<lambda>(head, rv).
     WriteJSON (JObj [(''did'', JStr did), (''active'', jbool (acc_deactivated_at a = None)), (''rev'', JStr rv)]))))"

section \<open>The stream\<close>

text \<open>
  \<open>HandleSubscribeRepos\<close> up to its loop: the cursor, the check of the writer, the subscription
  it starts and the frame it sends first (\<open>hello\<close>, or the error of marshalling it). The loop is
  \<open>sub_step\<close>.
\<close>

definition parse_cursor :: "string \<Rightarrow> go_error + int" where
  "parse_cursor raw =
     (if raw = [] then Inr 0
      else case parse_int64 raw of Inl e \<Rightarrow> Inl e | Inr c \<Rightarrow> if c < 0 then Inl (Failure ''negative'') else Inr c)"

definition HandleSubscribeRepos :: "response_writer \<Rightarrow> go_error + bytes \<Rightarrow> request \<Rightarrow> 'r handler" where
  "HandleSubscribeRepos w hello rq =
     on_error (go_of (parse_cursor (query_get rq ''cursor'')))
       (\<lambda>_. XrpcError 400 ''InvalidRequest'' (Text ''invalid cursor'')) (\<lambda>cursor.
     if \<not> flusher w then go_ret (XrpcError 500 ''InternalError'' (Text ''streaming unsupported''))
     else case hello of
       Inl e \<Rightarrow> go_ret (Content 200 carContentType [])
     | Inr b \<Rightarrow> go_bind subscribe (\<lambda>sid. go_ret (Content 200 carContentType b)))"

section \<open>Blobs\<close>

text \<open>
  \<open>http.MaxBytesReader\<close>: a body within the limit is read as it is, a longer one fails. The
  body is what the client sends, or the error of reading it.
\<close>

definition too_large :: go_error where
  "too_large = Lib ''http: request body too large''"

definition MaxBytesReader :: "int \<Rightarrow> go_error + bytes \<Rightarrow> go_error + bytes" where
  "MaxBytesReader limit body =
     (case body of Inl e \<Rightarrow> Inl e | Inr b \<Rightarrow> if int (length b) > limit then Inl too_large else Inr b)"

definition HandleUploadBlob :: "'r env \<Rightarrow> string \<Rightarrow> int \<Rightarrow> request \<Rightarrow> go_error + bytes \<Rightarrow> 'r handler" where
  "HandleUploadBlob E root sizeLimit rq body =
     requireAuth E rq (\<lambda>did.
       let ct = rq_header rq ''Content-Type'';
           mime = (if ct = [] then ''application/octet-stream'' else ct);
           rd = (if sizeLimit > 0 then MaxBytesReader sizeLimit body else body)
       in on_error (blob_put E root did mime rd)
            (\<lambda>e. if root_cause e = too_large
                 then XrpcError 413 ''BlobTooLarge'' (Text ''blob exceeds size limit'') else internal_error e)
            (\<lambda>(c, size).
          WriteJSON (JObj [(''blob'', JStruct [(''$type'', JStr ''blob''), (''ref'', JObj [(''$link'', JStr (cid_string E c))]),
            (''mimeType'', JStr mime), (''size'', jint (int size))])])))"

definition HandleGetBlob :: "'r env \<Rightarrow> request \<Rightarrow> 'r handler" where
  "HandleGetBlob E rq =
     on_error (go_of (cid_decode E (query_get rq ''cid''))) invalid_request (\<lambda>c.
     on_error (blob_open E (query_get rq ''did'') c)
       (\<lambda>_. XrpcError 404 ''BlobNotFound'' (Text ''blob not found'')) (\<lambda>(data, mime, size).
     go_ret (Content 200 mime (take size data))))"

definition HandleListBlobs :: "'r env \<Rightarrow> request \<Rightarrow> 'r handler" where
  "HandleListBlobs E rq =
     limit_strict 500 1000 ''limit must be 1-1000'' rq (\<lambda>limit.
     on_error (blob_list E (query_get rq ''did'') (query_get rq ''since'') (query_get rq ''cursor'') limit)
       internal_error (\<lambda>(cids, next).
     WriteJSON (with_cursor [(''cids'', jnil (map JStr cids))] next)))"

section \<open>Identity documents\<close>

definition did_not_found :: response where
  "did_not_found = XrpcError 404 ''DidNotFound'' (Text ''not found'')"

definition serveDidDoc :: "'r env \<Rightarrow> string \<Rightarrow> 'r handler" where
  "serveDidDoc E handle =
     on_error (sql E (q_row (\<lambda>d. Option.bind (find_account (\<lambda>a. acc_handle a = handle) d) acc_did_doc)))
       (\<lambda>_. did_not_found) (\<lambda>doc.
     go_ret (Content 200 ''application/json'' doc))"

definition host_name :: "string \<Rightarrow> string" where
  "host_name host = (case str_cut '':'' host of None \<Rightarrow> host | Some (h, _) \<Rightarrow> h)"

definition HandleDidWebWellKnown :: "'r env \<Rightarrow> request \<Rightarrow> 'r handler" where
  "HandleDidWebWellKnown E rq = serveDidDoc E (host_name (rq_host rq))"

definition HandleDidWebPath :: "'r env \<Rightarrow> request \<Rightarrow> 'r handler" where
  "HandleDidWebPath E rq =
     (let handle = trim_suffix (trim_prefix (rq_path rq) ''/'') ''/did.json'' in
      if handle = [] then go_ret did_not_found else serveDidDoc E handle)"

definition HandleAtprotoDid :: "'r env \<Rightarrow> request \<Rightarrow> 'r handler" where
  "HandleAtprotoDid E rq =
     on_error (sql E (q_row (\<lambda>d. map_option acc_did (find_account (\<lambda>a. acc_handle a = host_name (rq_host rq)) d))))
       (\<lambda>_. did_not_found) (\<lambda>did.
     go_ret (Content 200 ''text/plain'' did))"

definition HandleResolveHandle :: "'r env \<Rightarrow> request \<Rightarrow> 'r handler" where
  "HandleResolveHandle E rq =
     on_error (go_of (syntax_handle E (query_get rq ''handle''))) invalid_request (\<lambda>h.
     on_error (lookup_step E h) (\<lambda>_. XrpcError 400 ''HandleNotFound'' (Text ''handle not found'')) (\<lambda>did.
     WriteJSON (JObj [(''did'', JStr did)])))"

definition resolve_step :: "'r env \<Rightarrow> did \<Rightarrow> ('r pds, bytes) go" where
  "resolve_step E did s = (resolve_did E (tick s) did, s\<lparr>tick := Suc (tick s)\<rparr>)"

definition HandleResolveDid :: "'r env \<Rightarrow> request \<Rightarrow> 'r handler" where
  "HandleResolveDid E rq =
     on_error (go_of (syntax_did E (query_get rq ''did''))) invalid_request (\<lambda>did.
     on_error (resolve_step E did) (\<lambda>_. XrpcError 400 ''DidNotFound'' (Text ''did not found'')) (\<lambda>doc.
     WriteJSON (JRaw doc)))"

section \<open>The server\<close>

definition HandleHealth :: "'r env \<Rightarrow> 'r handler" where
  "HandleHealth E =
     on_error (sql E (q_rows (\<lambda>d. 1 :: nat)))
       (\<lambda>_. XrpcError 503 ''ServiceUnavailable'' (Text ''db unavailable'')) (\<lambda>one.
     WriteJSON (JObj [(''ok'', jbool True)]))"

definition HandleDescribeServer :: "'r env \<Rightarrow> config \<Rightarrow> 'r handler" where
  "HandleDescribeServer E cfg =
     WriteJSON (JObj [(''did'', JStr (EffectiveServiceDID E cfg)), (''availableUserDomains'', JArr []),
       (''inviteCodeRequired'', jbool (InviteRequired cfg)),
       (''links'', JObj [(''privacyPolicy'', JStr (PublicURL cfg @ ''/privacy'')),
          (''termsOfService'', JStr (PublicURL cfg @ ''/tos''))])])"

end
