(* ===== verification/Subscription.thy ===== *)
theory Subscription
  imports Firehose Demo
begin

text \<open>
  \<open>Emitter.Subscribe\<close> of \<open>internal/firehose/firehose.go\<close>: the goroutine of one subscriber,
  interleaved with publications and with other subscribers. It registers its live channel
  first and only then runs the replay query, so nothing published in between is lost, but it
  is delivered twice. \<open>sb_out\<close> is the sequence of frames sent on the returned channel; its
  capacity only delays the goroutine.
\<close>

section \<open>The goroutine\<close>

text \<open>
  \<open>Connected\<close>: registered, the query not yet run. \<open>Replaying fs\<close>: in the loop over the rows,
  \<open>fs\<close> still to send. \<open>Live\<close>: in the loop over the live channel.
\<close>

datatype phase = Connected | Replaying "frame list" | Live

record subscriber =
  sb_phase :: phase
  sb_out :: "frame list"

definition channel :: "int \<Rightarrow> 'r pds \<Rightarrow> frame list option" where
  "channel i s = map_of (em_subs (emitter s)) i"

text \<open>\<open>frame := <-live\<close>.\<close>

definition take_live :: "int \<Rightarrow> ('r pds, frame) go" where
  "take_live i s =
     (case channel i s of
        Some (f # q) \<Rightarrow> (Inr f, s\<lparr>emitter := (emitter s)\<lparr>em_subs :=
           map (\<lambda>(j, q'). if j = i then (j, q) else (j, q')) (em_subs (emitter s))\<rparr>\<rparr>)
      | _ \<Rightarrow> (Inl (Failure ''blocked''), s))"

definition replay_query :: "'r env \<Rightarrow> int \<Rightarrow> ('r pds, frame list) go" where
  "replay_query E cursor = sql E (q_rows (\<lambda>d. replay_rows cursor (firehose_events d)))"

text \<open>
  A failed query (\<open>err != nil\<close>) and a row that fails to scan (\<open>break\<close>) both lead to the
  live loop.
\<close>

inductive sub_step ::
  "'r env \<Rightarrow> int \<Rightarrow> int \<Rightarrow> 'r pds \<times> subscriber \<Rightarrow> 'r pds \<times> subscriber \<Rightarrow> bool"
  for E i cursor where
  pub: "publish E ty ev s = (r, t) \<Longrightarrow> sub_step E i cursor (s, b) (t, b)"
| join: "subscribe s = (Inr j, t) \<Longrightarrow> sub_step E i cursor (s, b) (t, b)"
| leave: "j \<noteq> i \<Longrightarrow> unsubscribe j s = (Inr (), t) \<Longrightarrow> sub_step E i cursor (s, b) (t, b)"
| query: "sb_phase b = Connected \<Longrightarrow> replay_query E cursor s = (Inr fs, t) \<Longrightarrow>
    sub_step E i cursor (s, b) (t, b\<lparr>sb_phase := Replaying fs\<rparr>)"
| query_err: "sb_phase b = Connected \<Longrightarrow> replay_query E cursor s = (Inl e, t) \<Longrightarrow>
    sub_step E i cursor (s, b) (t, b\<lparr>sb_phase := Live\<rparr>)"
| replay: "sb_phase b = Replaying (f # fs) \<Longrightarrow>
    sub_step E i cursor (s, b) (s, b\<lparr>sb_phase := Replaying fs, sb_out := sb_out b @ [f]\<rparr>)"
| scan_err: "sb_phase b = Replaying fs \<Longrightarrow> fault E (tick s) \<Longrightarrow>
    sub_step E i cursor (s, b) (s\<lparr>tick := Suc (tick s)\<rparr>, b\<lparr>sb_phase := Live\<rparr>)"
| caught_up: "sb_phase b = Replaying [] \<Longrightarrow>
    sub_step E i cursor (s, b) (s, b\<lparr>sb_phase := Live\<rparr>)"
| live: "sb_phase b = Live \<Longrightarrow> take_live i s = (Inr f, t) \<Longrightarrow>
    sub_step E i cursor (s, b) (t, b\<lparr>sb_out := sb_out b @ [f]\<rparr>)"

text \<open>The states of a subscription that began in \<open>s0\<close> and got the id \<open>i\<close>.\<close>

inductive subscribed :: "'r env \<Rightarrow> int \<Rightarrow> 'r pds \<Rightarrow> int \<Rightarrow> 'r pds \<times> subscriber \<Rightarrow> bool"
  for E cursor s0 i where
  start: "subscribe s0 = (Inr i, s) \<Longrightarrow>
    subscribed E cursor s0 i (s, \<lparr>sb_phase = Connected, sb_out = []\<rparr>)"
| step: "subscribed E cursor s0 i x \<Longrightarrow> sub_step E i cursor x y \<Longrightarrow> subscribed E cursor s0 i y"

section \<open>What each step does to the channels\<close>

definition subs_ok :: "'r pds \<Rightarrow> bool" where
  "subs_ok s \<longleftrightarrow> distinct (map fst (em_subs (emitter s))) \<and>
     (\<forall>j \<in> fst ` set (em_subs (emitter s)). j \<le> em_id (emitter s))"

lemma map_of_broadcast: "map_of (broadcast f subs) i = map_option (offer f) (map_of subs i)"
  by (induction subs) (auto simp: broadcast_def)

lemma map_fst_broadcast [simp]: "map fst (broadcast f subs) = map fst subs"
  by (auto simp: broadcast_def)

lemma publish_channel:
  assumes "publish E ty ev s = (r, t)"
  shows "firehose_events (db t) = firehose_events (db s) \<and> channel i t = channel i s \<or>
    (\<exists>n f. firehose_events (db t) = firehose_events (db s) @ [(n, f)] \<and>
       channel i t = map_option (offer f) (channel i s))"
proof (cases r)
  case (Inl e)
  with assms publish_InlD show ?thesis by (metis channel_def)
next
  case (Inr u)
  then have "publish E ty ev s = (Inr (), t)" using assms by simp
  from publish_InrD [OF this] show ?thesis by (auto simp: channel_def map_of_broadcast)
qed

lemma publish_subs:
  assumes "publish E ty ev s = (r, t)"
  shows "map fst (em_subs (emitter t)) = map fst (em_subs (emitter s)) \<and> em_id (emitter t) = em_id (emitter s)"
proof (cases r)
  case (Inl e)
  have "keeps (\<lambda>s. em_id (emitter s)) (publish E ty ev)"
    unfolding publish_def set_seq_def Let_def
    by (intro keeps_intro keeps_modify keeps_sql) simp_all
  then have "em_id (emitter t) = em_id (emitter s)" using assms by (rule keepsD)
  with Inl assms publish_InlD(3) show ?thesis by metis
next
  case (Inr u)
  then have "publish E ty ev s = (Inr (), t)" using assms by simp
  from publish_InrD [OF this] show ?thesis by auto
qed

lemma map_of_snoc_other: "i \<in> fst ` set subs \<Longrightarrow> map_of (subs @ [(j, q)]) i = map_of subs i"
  by (induction subs) auto

lemma subscribe_run:
  "subscribe s = (Inr j, t) \<longleftrightarrow> j = em_id (emitter s) + 1 \<and>
     t = s\<lparr>emitter := (emitter s)\<lparr>em_id := em_id (emitter s) + 1,
            em_subs := em_subs (emitter s) @ [(em_id (emitter s) + 1, [])]\<rparr>\<rparr>"
  by (auto simp: subscribe_def go_inv)

lemma map_of_filter_other: "j \<noteq> i \<Longrightarrow> map_of (filter (\<lambda>(k, q). k \<noteq> j) subs) i = map_of subs i"
  by (induction subs) auto

lemma map_of_take: "map_of (map (\<lambda>(j, q'). if j = i then (j, q) else (j, q')) subs) i =
    map_option (\<lambda>_. q) (map_of subs i)"
  by (induction subs) auto

lemma take_live_run:
  assumes "take_live i s = (Inr f, t)"
  shows "\<exists>q. channel i s = Some (f # q) \<and> channel i t = Some q \<and> db t = db s \<and>
    em_seq (emitter t) = em_seq (emitter s) \<and> em_id (emitter t) = em_id (emitter s) \<and>
    map fst (em_subs (emitter t)) = map fst (em_subs (emitter s))"
proof -
  obtain q where q: "channel i s = Some (f # q)"
    "t = s\<lparr>emitter := (emitter s)\<lparr>em_subs :=
       map (\<lambda>(j, q'). if j = i then (j, q) else (j, q')) (em_subs (emitter s))\<rparr>\<rparr>"
    using assms by (auto simp: take_live_def split: option.splits list.splits)
  then show ?thesis by (auto simp: channel_def map_of_take)
qed

section \<open>The invariant of a subscription\<close>

text \<open>
  \<open>since\<close> is what was published after the registration. As long as that fits in the channel,
  the channel holds all of it but what was already forwarded, and what was sent is the
  replayed rows and then a prefix of \<open>since\<close>.
\<close>

definition delivery :: "(int \<times> frame) list \<Rightarrow> int \<Rightarrow> (int \<times> frame) list \<Rightarrow> frame list \<Rightarrow> subscriber \<Rightarrow> bool" where
  "delivery evs0 cursor since q b \<longleftrightarrow>
     (case sb_phase b of
        Connected \<Rightarrow> sb_out b = [] \<and> q = map snd since
      | Replaying fs \<Rightarrow> q = map snd since \<and>
          (\<exists>mid late. since = mid @ late \<and> sb_out b @ fs = replay_rows cursor (evs0 @ mid))
      | Live \<Rightarrow> (\<exists>mid late gone. since = mid @ late \<and> gone @ q = map snd since \<and>
          sb_out b = replay_rows cursor (evs0 @ mid) @ gone))"

definition sub_inv :: "(int \<times> frame) list \<Rightarrow> int \<Rightarrow> int \<Rightarrow> 'r pds \<times> subscriber \<Rightarrow> bool" where
  "sub_inv evs0 cursor i = (\<lambda>(s, b). stream_ok s \<and> subs_ok s \<and>
     (\<exists>since q. firehose_events (db s) = evs0 @ since \<and> channel i s = Some q \<and>
        (length since \<le> channel_capacity \<longrightarrow> delivery evs0 cursor since q b)))"

lemma delivery_publish:
  assumes "delivery evs0 cursor since q b" and "length since < channel_capacity"
  shows "delivery evs0 cursor (since @ [(n, f)]) (offer f q) b"
proof -
  have "length q \<le> length since"
    using assms(1) by (auto simp: delivery_def split: phase.splits dest!: arg_cong [where f = length])
  then have "offer f q = q @ [f]" using assms(2) by (simp add: offer_def)
  show ?thesis
  proof (cases "sb_phase b")
    case Connected
    with assms(1) \<open>offer f q = q @ [f]\<close> show ?thesis by (simp add: delivery_def)
  next
    case (Replaying fs)
    with assms(1) obtain mid late where
      "q = map snd since" "since = mid @ late" "sb_out b @ fs = replay_rows cursor (evs0 @ mid)"
      by (auto simp: delivery_def)
    with Replaying \<open>offer f q = q @ [f]\<close> show ?thesis
      unfolding delivery_def by (simp, intro exI [of _ mid] conjI exI [of _ "late @ [(n, f)]"]) simp_all
  next
    case Live
    with assms(1) obtain mid late gone where
      "gone @ q = map snd since" "since = mid @ late" "sb_out b = replay_rows cursor (evs0 @ mid) @ gone"
      by (auto simp: delivery_def)
    with Live \<open>offer f q = q @ [f]\<close> show ?thesis
      unfolding delivery_def
      by (simp, intro exI [of _ mid] conjI exI [of _ "late @ [(n, f)]"] exI [of _ gone])
         (simp_all flip: append_assoc)
  qed
qed

lemma sub_inv_same:
  assumes inv: "sub_inv evs0 cursor i (s, b)" and "stream_ok t" "subs_ok t"
    and "firehose_events (db t) = firehose_events (db s)" "channel i t = channel i s"
  shows "sub_inv evs0 cursor i (t, b)"
  using assms unfolding sub_inv_def by auto

lemma stream_ok_cong:
  "firehose_events (db t) = firehose_events (db s) \<Longrightarrow> em_seq (emitter t) = em_seq (emitter s) \<Longrightarrow>
   stream_ok t = stream_ok s"
  by (simp add: stream_ok_def)

lemma subs_ok_cong:
  "map fst (em_subs (emitter t)) = map fst (em_subs (emitter s)) \<Longrightarrow> em_id (emitter t) = em_id (emitter s) \<Longrightarrow>
   subs_ok t = subs_ok s"
  by (metis list.set_map subs_ok_def)

lemma sub_inv_publish:
  assumes inv: "sub_inv evs0 cursor i (s, b)" and run: "publish E ty ev s = (r, t)"
  shows "sub_inv evs0 cursor i (t, b)"
proof -
  from inv have ok: "stream_ok s" "subs_ok s" by (auto simp: sub_inv_def)
  have ok': "stream_ok t" "subs_ok t"
    using publish_stream_ok [OF ok(1) run] subs_ok_cong publish_subs [OF run] ok(2) by metis+
  from publish_channel [OF run, of i] show ?thesis
  proof (elim disjE conjE exE)
    assume "firehose_events (db t) = firehose_events (db s)" "channel i t = channel i s"
    with sub_inv_same [OF inv ok'] show ?thesis by blast
  next
    fix n f
    assume t: "firehose_events (db t) = firehose_events (db s) @ [(n, f)]"
      "channel i t = map_option (offer f) (channel i s)"
    from inv obtain since q where q: "firehose_events (db s) = evs0 @ since" "channel i s = Some q"
      "length since \<le> channel_capacity \<Longrightarrow> delivery evs0 cursor since q b"
      by (auto simp: sub_inv_def)
    have "delivery evs0 cursor (since @ [(n, f)]) (offer f q) b"
      if "length (since @ [(n, f)]) \<le> channel_capacity"
      using that by (intro delivery_publish q(3)) simp_all
    then show ?thesis
      using t q(1,2) ok' unfolding sub_inv_def
      by (auto intro!: exI [of _ "since @ [(n, f)]"] exI [of _ "offer f q"])
  qed
qed

text \<open>The subscriber's own steps keep the tables and the channels of the others.\<close>

lemma sub_inv_query:
  assumes inv: "sub_inv evs0 cursor i (s, b)" and run: "replay_query E cursor s = (Inr fs, t)"
    and phase: "sb_phase b = Connected"
  shows "sub_inv evs0 cursor i (t, b\<lparr>sb_phase := Replaying fs\<rparr>)"
proof -
  have t: "db t = db s" "emitter t = emitter s" and fs: "fs = replay_rows cursor (firehose_events (db s))"
    using run by (auto simp: replay_query_def go_inv)
  from inv obtain since q where q: "firehose_events (db s) = evs0 @ since" "channel i s = Some q"
    "length since \<le> channel_capacity \<Longrightarrow> delivery evs0 cursor since q b"
    by (auto simp: sub_inv_def)
  have "delivery evs0 cursor since q (b\<lparr>sb_phase := Replaying fs\<rparr>)" if "length since \<le> channel_capacity"
    using q(3) [OF that] phase fs q(1) unfolding delivery_def
    by (simp, intro exI [of _ since] conjI exI [of _ "[]"]) simp_all
  then show ?thesis
    using inv t q(1,2) by (auto simp: sub_inv_def stream_ok_def subs_ok_def channel_def)
qed

lemma sub_inv_own:
  assumes inv: "sub_inv evs0 cursor i (s, b)"
    and own: "\<And>since q. delivery evs0 cursor since q b \<Longrightarrow> delivery evs0 cursor since q b'"
  shows "sub_inv evs0 cursor i (s, b')"
  using inv own unfolding sub_inv_def by auto

lemma sub_inv_step:
  assumes up: "no_faults E" and inv: "sub_inv evs0 cursor i (s, b)" and step: "sub_step E i cursor (s, b) (t, c)"
  shows "sub_inv evs0 cursor i (t, c)"
  using step
proof cases
  case (pub ty ev r)
  then show ?thesis using sub_inv_publish [OF inv] by blast
next
  case (join j)
  from inv obtain q where q: "channel i s = Some q" "subs_ok s" "stream_ok s" by (auto simp: sub_inv_def)
  have t: "t = s\<lparr>emitter := (emitter s)\<lparr>em_id := em_id (emitter s) + 1,
      em_subs := em_subs (emitter s) @ [(em_id (emitter s) + 1, [])]\<rparr>\<rparr>"
    using join by (simp add: subscribe_run)
  have "channel i t = channel i s"
    using q(1) t map_of_snoc_other [of i "em_subs (emitter s)"] by (force simp: channel_def dest: map_of_SomeD)
  moreover have "subs_ok t" using q(2) t by (fastforce simp: subs_ok_def)
  ultimately show ?thesis
    using join(1) sub_inv_same [OF inv _ \<open>subs_ok t\<close>] q(3) t by (simp add: stream_ok_def)
next
  case (leave j)
  have t: "t = s\<lparr>emitter := (emitter s)\<lparr>em_subs := filter (\<lambda>(k, q). k \<noteq> j) (em_subs (emitter s))\<rparr>\<rparr>"
    using leave by (simp add: unsubscribe_def go_inv)
  have "subs_ok t" using inv t by (auto simp: sub_inv_def subs_ok_def distinct_map_filter)
  moreover have "channel i t = channel i s"
    using t leave(2) by (simp add: channel_def map_of_filter_other)
  moreover have "stream_ok t" using inv t by (simp add: sub_inv_def stream_ok_def)
  moreover have "firehose_events (db t) = firehose_events (db s)" by (simp add: t)
  ultimately have "sub_inv evs0 cursor i (t, b)" by (intro sub_inv_same [OF inv])
  then show ?thesis using leave(1) by simp
next
  case (query fs)
  then show ?thesis using sub_inv_query [OF inv] by blast
next
  case (query_err e)
  then show ?thesis
    using up by (simp add: replay_query_def sql_def q_rows_def no_faults_def)
next
  case (replay f fs)
  then show ?thesis
    by (auto intro!: sub_inv_own [OF inv] simp: delivery_def)
next
  case (scan_err fs)
  then show ?thesis using up by (simp add: no_faults_def)
next
  case caught_up
  then show ?thesis
    by (auto intro!: sub_inv_own [OF inv] simp: delivery_def)
next
  case (live f)
  from take_live_run [OF live(3)] obtain q where
    q: "channel i s = Some (f # q)" "channel i t = Some q" "db t = db s"
      "em_seq (emitter t) = em_seq (emitter s)" "em_id (emitter t) = em_id (emitter s)"
      "map fst (em_subs (emitter t)) = map fst (em_subs (emitter s))" by blast
  from inv q(1) obtain since where since: "firehose_events (db s) = evs0 @ since"
    "length since \<le> channel_capacity \<Longrightarrow> delivery evs0 cursor since (f # q) b"
    by (auto simp: sub_inv_def)
  have "delivery evs0 cursor since q (b\<lparr>sb_out := sb_out b @ [f]\<rparr>)" if len: "length since \<le> channel_capacity"
  proof -
    from since(2) [OF len] live(2) obtain mid late gone where
      "since = mid @ late" "gone @ f # q = map snd since" "sb_out b = replay_rows cursor (evs0 @ mid) @ gone"
      by (auto simp: delivery_def)
    then show ?thesis using live(2) unfolding delivery_def
      by (simp, intro exI [of _ mid] conjI exI [of _ late] exI [of _ "gone @ [f]"]) simp_all
  qed
  moreover have "stream_ok t" "subs_ok t"
    using inv q(3-6) stream_ok_cong [of t s] subs_ok_cong [of t s] by (auto simp: sub_inv_def)
  ultimately show ?thesis using live(1) since(1) q(2,3) by (auto simp: sub_inv_def)
qed

lemma subscribed_inv:
  assumes up: "no_faults E" and ok: "stream_ok s0" "subs_ok s0" and sub: "subscribed E cursor s0 i x"
  shows "sub_inv (firehose_events (db s0)) cursor i x"
  using sub
proof induction
  case (start s)
  have s: "i = em_id (emitter s0) + 1"
    "s = s0\<lparr>emitter := (emitter s0)\<lparr>em_id := em_id (emitter s0) + 1,
            em_subs := em_subs (emitter s0) @ [(em_id (emitter s0) + 1, [])]\<rparr>\<rparr>"
    using start by (simp_all add: subscribe_run)
  have "i \<notin> fst ` set (em_subs (emitter s0))" using ok(2) s(1) by (force simp: subs_ok_def)
  then have "map_of (em_subs (emitter s0)) i = None" by (simp add: map_of_eq_None_iff)
  then have "map_of (em_subs (emitter s0) @ [(i, [])]) i = Some []"
    by (simp add: map_add_def)
  then have "channel i s = Some []" using s by (simp add: channel_def)
  moreover have "subs_ok s" using ok(2) s by (fastforce simp: subs_ok_def)
  moreover have "stream_ok s" using ok(1) s by (simp add: stream_ok_def)
  ultimately show ?case using s(2) by (simp add: sub_inv_def delivery_def)
next
  case (step x y)
  then show ?case using sub_inv_step [OF up] by (cases x; cases y) blast
qed

section \<open>Properties\<close>

text \<open>What the goroutine has read from the database and not sent yet.\<close>

definition pending :: "subscriber \<Rightarrow> frame list" where
  "pending b = (case sb_phase b of Replaying fs \<Rightarrow> fs | _ \<Rightarrow> [])"

lemma set_replay_rows: "set (replay_rows cursor evs) = snd ` {e \<in> set evs. cursor < fst e}"
  by (auto simp: replay_rows_def)

text \<open>C13: No event is lost between replay and live delivery: once the replay query has run, every
  persisted event after the cursor has been sent, is about to be, or waits in the live channel,
  in every interleaving with up to 4096 publications, however the subscriber is scheduled.\<close>

theorem subscription_no_gap:
  assumes up: "no_faults E" and ok: "stream_ok s0" "subs_ok s0"
    and sub: "subscribed E cursor s0 i (s, b)" and phase: "sb_phase b \<noteq> Connected"
    and few: "length (firehose_events (db s)) \<le> length (firehose_events (db s0)) + channel_capacity"
    and ev: "(n, f) \<in> set (firehose_events (db s))" "cursor < n"
  shows "f \<in> set (sb_out b @ pending b @ the (channel i s))"
proof -
  let ?evs0 = "firehose_events (db s0)"
  from subscribed_inv [OF up ok sub] obtain since q where
    since: "firehose_events (db s) = ?evs0 @ since" "channel i s = Some q"
      "length since \<le> channel_capacity \<Longrightarrow> delivery ?evs0 cursor since q b"
    by (auto simp: sub_inv_def)
  have d: "delivery ?evs0 cursor since q b" using since(1,3) few by simp
  show ?thesis
  proof (cases "sb_phase b")
    case Connected
    with phase show ?thesis by simp
  next
    case (Replaying fs)
    with d obtain mid late where
      m: "q = map snd since" "since = mid @ late" "sb_out b @ fs = replay_rows cursor (?evs0 @ mid)"
      by (auto simp: delivery_def)
    have "(n, f) \<in> set (?evs0 @ mid) \<or> (n, f) \<in> set since" using ev(1) since(1) m(2) by auto
    then have "f \<in> set (sb_out b @ fs) \<or> f \<in> set q"
      unfolding m(3) set_replay_rows m(1) using ev(2) by force
    then show ?thesis using Replaying since(2) by (auto simp: pending_def)
  next
    case Live
    with d obtain mid late gone where
      m: "gone @ q = map snd since" "since = mid @ late" "sb_out b = replay_rows cursor (?evs0 @ mid) @ gone"
      by (auto simp: delivery_def)
    have "(n, f) \<in> set (?evs0 @ mid) \<or> (n, f) \<in> set since" using ev(1) since(1) m(2) by auto
    then have "f \<in> set (replay_rows cursor (?evs0 @ mid)) \<or> f \<in> set (gone @ q)"
      unfolding set_replay_rows m(1) using ev(2) by force
    then show ?thesis using m(3) since(2) by auto
  qed
qed

lemma replay_rows_sorted:
  assumes "sorted_wrt (<) (map fst evs)" and "\<And>n f. (n, f) \<in> set evs \<Longrightarrow> fr_seq f = n"
  shows "sorted_wrt (<) (map fr_seq (replay_rows cursor evs))"
proof -
  let ?rows = "filter (\<lambda>(n, f). cursor < n) evs"
  have "distinct (map fst ?rows)"
    using assms(1) by (simp add: strict_sorted_iff distinct_map_filter)
  then have "sorted_wrt (\<lambda>x y. fst x < fst y) (order_asc fst ?rows)" by (rule order_asc_sorted)
  then have "sorted_wrt (<) (map fst (order_asc fst ?rows))" by (simp add: sorted_wrt_map)
  moreover have "map fr_seq (replay_rows cursor evs) = map fst (order_asc fst ?rows)"
    using assms(2) by (auto simp: replay_rows_def)
  ultimately show ?thesis by simp
qed

lemma events_sorted:
  assumes "sorted_wrt (<) (map fst evs)" and "\<And>n f. (n, f) \<in> set evs \<Longrightarrow> fr_seq f = n"
  shows "sorted_wrt (<) (map (\<lambda>e. fr_seq (snd e)) evs)"
proof -
  have "map (\<lambda>e. fr_seq (snd e)) evs = map fst evs" using assms(2) by auto
  then show ?thesis using assms(1) by (simp only:)
qed

text \<open>What a subscriber receives is at most two runs in sequence order: the replayed events in
  strictly increasing order, then live ones in strictly increasing order.\<close>

theorem subscription_order:
  assumes up: "no_faults E" and ok: "stream_ok s0" "subs_ok s0"
    and sub: "subscribed E cursor s0 i (s, b)"
    and few: "length (firehose_events (db s)) \<le> length (firehose_events (db s0)) + channel_capacity"
  shows "\<exists>a c. sb_out b = a @ c \<and> sorted_wrt (<) (map fr_seq a) \<and> sorted_wrt (<) (map fr_seq c)"
proof -
  let ?evs0 = "firehose_events (db s0)"
  from subscribed_inv [OF up ok sub] obtain since q where
    since: "firehose_events (db s) = ?evs0 @ since" "stream_ok s"
      "length since \<le> channel_capacity \<Longrightarrow> delivery ?evs0 cursor since q b"
    by (auto simp: sub_inv_def)
  have d: "delivery ?evs0 cursor since q b" using since(1,3) few by simp
  have all: "sorted_wrt (<) (map fst (?evs0 @ since))" "\<And>n f. (n, f) \<in> set (?evs0 @ since) \<Longrightarrow> fr_seq f = n"
    using since(1,2) by (auto simp: stream_ok_def)
  have rep: "sorted_wrt (<) (map fr_seq (replay_rows cursor (?evs0 @ mid)))" if "since = mid @ late" for mid late
    by (rule replay_rows_sorted) (use all that in \<open>auto simp: sorted_wrt_append\<close>)
  show ?thesis
  proof (cases "sb_phase b")
    case Connected
    with d show ?thesis by (simp add: delivery_def)
  next
    case (Replaying fs)
    with d obtain mid late where "since = mid @ late" "sb_out b @ fs = replay_rows cursor (?evs0 @ mid)"
      by (auto simp: delivery_def)
    with rep have "sorted_wrt (<) (map fr_seq (sb_out b @ fs))" by simp
    then show ?thesis by (intro exI [of _ "sb_out b"] exI [of _ "[]"]) (simp add: sorted_wrt_append)
  next
    case Live
    with d obtain mid late gone where
      m: "gone @ q = map snd since" "since = mid @ late" "sb_out b = replay_rows cursor (?evs0 @ mid) @ gone"
      by (auto simp: delivery_def)
    have "sorted_wrt (<) (map (\<lambda>e. fr_seq (snd e)) since)"
      by (rule events_sorted) (use all in \<open>auto simp: sorted_wrt_append\<close>)
    then have "sorted_wrt (<) (map fr_seq (gone @ q))" unfolding m(1) by (simp add: comp_def)
    then have "sorted_wrt (<) (map fr_seq gone)" by (simp add: sorted_wrt_append)
    with rep [OF m(2)] m(3) show ?thesis by blast
  qed
qed

text \<open>A run on the demonstration world: register, publish, query, send, and forward.\<close>

definition dup_frame :: frame where
  "dup_frame = \<lparr>fr_seq = 1, fr_type = ''#identity'', fr_event = IdentityEvent ''did:a'' None\<rparr>"

definition dup_state :: "nat \<Rightarrow> (int \<times> frame) list \<Rightarrow> int \<Rightarrow> frame list \<Rightarrow> ref_repo pds" where
  "dup_state n evs m q = demo_state\<lparr>tick := n, db := (db demo_state)\<lparr>firehose_events := evs\<rparr>,
     emitter := \<lparr>em_seq = m, em_id = 1, em_subs = [(1, q)]\<rparr>\<rparr>"

abbreviation dup_sub :: "phase \<Rightarrow> frame list \<Rightarrow> subscriber" where
  "dup_sub p out \<equiv> \<lparr>sb_phase = p, sb_out = out\<rparr>"

lemma duplicate_run:
  "subscribed fine 0 demo_state 1 (dup_state 2 [(1, dup_frame)] 1 [], dup_sub Live [dup_frame, dup_frame])"
proof -
  let ?f = dup_frame
  let ?s1 = "dup_state 0 [] 0 []" and ?s2 = "dup_state 1 [(1, ?f)] 1 [?f]" and ?s3 = "dup_state 2 [(1, ?f)] 1 [?f]"
  have "subscribe demo_state = (Inr 1, ?s1)"
    by (simp add: subscribe_run dup_state_def demo_state_def empty_db_def)
  then have "subscribed fine 0 demo_state 1 (?s1, dup_sub Connected [])" by (rule start)
  moreover have "publish fine ''#identity'' (IdentityEvent ''did:a'' None) ?s1 = (Inr (), ?s2)"
    by (simp add: publish_def set_seq_def go_defs sql_def q_try_def tbl_insert_def tbl_has_def Let_def
        broadcast_def offer_def demo_state_def empty_db_def dup_state_def dup_frame_def)
  ultimately have "subscribed fine 0 demo_state 1 (?s2, dup_sub Connected [])" by (blast intro: step pub)
  moreover have "replay_query fine 0 ?s2 = (Inr [?f], ?s3)"
    by (simp add: replay_query_def sql_def q_rows_def replay_rows_def order_asc_def Let_def dup_state_def)
  then have "sub_step fine 1 0 (?s2, dup_sub Connected []) (?s3, dup_sub (Replaying [?f]) [])"
    using query [of "dup_sub Connected []" fine 0 ?s2 "[?f]" ?s3 1] by simp
  moreover have "sub_step fine 1 0 (?s3, dup_sub (Replaying [?f]) []) (?s3, dup_sub (Replaying []) [?f])"
    using replay [of "dup_sub (Replaying [?f]) []" ?f "[]" fine 1 0 ?s3] by simp
  moreover have "sub_step fine 1 0 (?s3, dup_sub (Replaying []) [?f]) (?s3, dup_sub Live [?f])"
    using caught_up [of "dup_sub (Replaying []) [?f]" fine 1 0 ?s3] by simp
  ultimately have l: "subscribed fine 0 demo_state 1 (?s3, dup_sub Live [?f])" by (blast intro: step)
  have "take_live 1 ?s3 = (Inr ?f, dup_state 2 [(1, ?f)] 1 [])"
    by (simp add: take_live_def channel_def dup_state_def)
  then have "sub_step fine 1 0 (?s3, dup_sub Live [?f]) (dup_state 2 [(1, ?f)] 1 [], dup_sub Live [?f, ?f])"
    using live [of "dup_sub Live [?f]" 1 ?s3 ?f _ fine 0] by simp
  with l show ?thesis by (rule step)
qed


end
