(* ===== verification/Batch_Runs.thy ===== *)
theory Batch_Runs
  imports Batch Demo
begin

text \<open>
  Batches on the demonstration world: that it satisfies the laws of \<open>Batch\<close>, runs that apply
  the properties proved there, and the two behaviours of \<open>applyWrites\<close> that its callers do
  not expect, on concrete inputs.
\<close>

section \<open>The laws hold in the demonstration world\<close>

lemma demo_laws: "tree_laws (demo_env fl) rp_lookup"
proof -
  have "\<forall>d. rp_lookup (demo_new d) = Map.empty"
    by (simp add: rp_lookup_def demo_new_def)
  moreover have "cid_cast (demo_env fl) c = Inr c \<and> rp_lookup r' = (rp_lookup r)(path \<mapsto> c)"
    if "blk_outcome (demo_put r path rec) (Inr c, r')" for r r' path rec c
    using that by (auto simp: demo_put_def demo_env_def demo_cast_def demo_cid_def rp_lookup_def
        split: sum.splits option.splits)
  moreover have "cid_cast (demo_env fl) c = Inr c \<and> rp_lookup r (path_of coll k) = None \<and>
      rp_lookup r' = (rp_lookup r)(path_of coll k \<mapsto> c)"
    if "blk_outcome (demo_create r now coll rec) (Inr (c, k), r')" for r r' now coll rec c k
    using that by (auto simp: demo_create_def demo_env_def demo_cast_def demo_cid_def rp_lookup_def
        path_of_def Let_def split: sum.splits option.splits if_splits)
  moreover have "rp_lookup r' = (rp_lookup r)(path := None)"
    if "blk_outcome (demo_delete r path) (Inr (), r')" for r r' path
  proof -
    have "map_of (filter (\<lambda>(p, c). p \<noteq> path) t) = (map_of t)(path := None)" for t :: "(string \<times> cid) list"
      by (induction t) (auto simp: fun_eq_iff)
    with that show ?thesis by (auto simp: demo_delete_def rp_lookup_def split: if_splits)
  qed
  moreover have "rp_lookup r' = rp_lookup r"
    if "blk_outcome (demo_commit r now sign) (Inr x, r')" for r r' now sign x
    using that by (auto simp: demo_commit_def rp_lookup_def Let_def split: sum.splits option.splits)
  moreover have "\<forall>x c. demo_cast x = Inr c \<longrightarrow> c = x \<and> x \<noteq> cid_undef"
    by (simp add: demo_cast_def)
  ultimately show ?thesis
    unfolding tree_laws_def by (simp add: demo_env_def)
qed

lemma fine_laws: "tree_laws fine rp_lookup"
  by (simp add: fine_def demo_laws)

lemma demo_tids_fresh:
  assumes "\<And>w. w \<in> set ops \<Longrightarrow> take 3 (w_rkey w) \<noteq> ''tid''"
  shows "tids_fresh (demo_env fl) ops"
proof -
  have "take 3 k = ''tid''" if "blk_outcome (demo_create r now coll rec) (Inr (c, k), r')" for r now coll rec c k r'
    using that by (auto simp: demo_create_def demo_tid_def Let_def split: sum.splits option.splits if_splits)
  then show ?thesis using assms unfolding tids_fresh_def by (fastforce simp: demo_env_def)
qed

lemma run_eq: "\<not> isl (fst m) \<Longrightarrow> m = (Inr (fst (projr (fst m)), snd (projr (fst m))), snd m)"
  by (metis isl_def prod.collapse sum.collapse(2))

definition demo_op :: "string \<Rightarrow> string \<Rightarrow> string \<Rightarrow> bytes \<Rightarrow> op" where
  "demo_op a c k v = \<lparr>w_action = a, w_collection = c, w_rkey = k, w_rec = Inr v, w_json = v, w_swap = None\<rparr>"

lemma cached_state_agrees:
  "repos cached_state ''did:a'' = Some (demo_new ''did:a'')"
  "index_agrees rp_lookup (db cached_state) ''did:a'' (demo_new ''did:a'')"
  by (simp_all add: cached_state_def demo_state_def empty_db_def index_agrees_def idx_def tbl_get_def
      demo_new_def rp_lookup_def)

text \<open>A batch that creates two records and deletes one of them.\<close>

definition demo_ops :: "op list" where
  "demo_ops = [demo_op ''create'' ''p'' ''b'' ''y'', demo_op ''update'' ''p'' ''a'' ''x'',
     demo_op ''delete'' ''p'' ''b'' []]"

lemma demo_ops_ok: "tids_fresh fine demo_ops" "plain_collections demo_ops" "no_rewrite [] demo_ops"
  by (auto simp: fine_def plain_collections_def demo_ops_def demo_op_def intro!: demo_tids_fresh)

definition demo_run :: "(go_error + commit_result \<times> op_result list) \<times> ref_repo pds" where
  "demo_run = applyWrites fine ''did:a'' demo_ops None cached_state"

text \<open>One evaluation of the run gives every fact the witnesses need of it.\<close>

lemma demo_run_facts:
  "(case demo_run of
      (Inl e, t) \<Rightarrow> False
    | (Inr (res, results), t) \<Rightarrow>
        cr_prev_rev res < cr_rev res \<and> tbl_get blk_cid ''cx'' (repo_blocks (db t)) \<noteq> None)"
  by code_simp

definition demo_res :: commit_result where
  "demo_res = fst (projr (fst demo_run))"

definition demo_results :: "op_result list" where
  "demo_results = snd (projr (fst demo_run))"

definition demo_end :: "ref_repo pds" where
  "demo_end = snd demo_run"

lemma demo_run_eq:
  "applyWrites fine ''did:a'' demo_ops None cached_state = (Inr (demo_res, demo_results), demo_end)"
  "cr_prev_rev demo_res < cr_rev demo_res"
  "tbl_get blk_cid ''cx'' (repo_blocks (db demo_end)) \<noteq> None"
proof -
  obtain x t where d: "demo_run = (x, t)" by (cases demo_run)
  obtain res results where x: "x = Inr (res, results)"
    using demo_run_facts [unfolded d] by (cases x) auto
  show "applyWrites fine ''did:a'' demo_ops None cached_state = (Inr (demo_res, demo_results), demo_end)"
    and "cr_prev_rev demo_res < cr_rev demo_res"
    and "tbl_get blk_cid ''cx'' (repo_blocks (db demo_end)) \<noteq> None"
    using demo_run_facts [unfolded d x]
    unfolding demo_res_def demo_results_def demo_end_def demo_run_def [symmetric] d x by simp_all
qed

section \<open>Runs\<close>



theorem applyWrites_swap_commit_witness:
  "isl (fst (applyWrites fine ''did:a'' demo_ops (Some ''other'') cached_state))"
proof -
  have "head_string fine (db cached_state) ''did:a'' \<noteq> Inr ''other''"
    by (simp add: head_string_def head_row_def commits_of_def cached_state_def demo_state_def empty_db_def
        top_row_def order_desc_def)
  from applyWrites_swap_commit [OF this] show ?thesis by blast
qed

theorem applyWrites_car_witness:
  "\<exists>hdr cids since prev fops. fr_event (snd (last (firehose_events (db demo_end)))) =
      CommitEvent ''did:a'' (cr_cid demo_res) (cr_rev demo_res) since prev fops (hdr @ car_blocks (db demo_end) cids) \<and>
    ''cx'' \<in> set cids"
proof -
  have cast: "cid_cast fine x = Inr c \<Longrightarrow> c = x" for x c
    using tree_lawsD(6) [OF fine_laws] by blast
  have "tbl_get blk_cid ''cx'' (repo_blocks (db cached_state)) = None"
    by (simp add: cached_state_def demo_state_def empty_db_def tbl_get_def)
  from applyWrites_car [OF cast cached_state_agrees(1) demo_run_eq this] show ?thesis by blast
qed

theorem applyWrites_head_witness:
  "\<exists>row. head_row (db demo_end) ''did:a'' = Some row \<and> cm_cid row = cr_cid demo_res \<and> cm_rev row = cr_rev demo_res"
proof -
  have "commits_of (db cached_state) ''did:a'' = []"
    by (simp add: commits_of_def cached_state_def demo_state_def empty_db_def)
  then show ?thesis
    by (intro applyWrites_head [OF cached_state_agrees(1) demo_run_eq(1)]) simp
qed

text \<open>The divergence on a concrete batch: a record of an earlier commit is replaced.\<close>

definition replace_ops :: "op list" where
  "replace_ops = [demo_op ''delete'' ''p'' ''a'' [], demo_op ''create'' ''p'' ''a'' ''z'']"

definition one_record :: "ref_repo pds" where
  "one_record = demo_state\<lparr>
     repos := [''did:a'' \<mapsto> (demo_new ''did:a'')\<lparr>rp_tree := [(''p/a'', ''cx'')]\<rparr>],
     db := (db demo_state)\<lparr>repo_records := [\<lparr>rr_did = ''did:a'', rr_collection = ''p'', rr_rkey = ''a'',
       rr_cid = ''cx'', rr_value = ''x''\<rparr>]\<rparr>\<rparr>"

lemma one_record_agrees:
  "repos one_record ''did:a'' = Some ((demo_new ''did:a'')\<lparr>rp_tree := [(''p/a'', ''cx'')]\<rparr>)"
  "index_agrees rp_lookup (db one_record) ''did:a'' ((demo_new ''did:a'')\<lparr>rp_tree := [(''p/a'', ''cx'')]\<rparr>)"
proof -
  show "repos one_record ''did:a'' = Some ((demo_new ''did:a'')\<lparr>rp_tree := [(''p/a'', ''cx'')]\<rparr>)"
    by (simp add: one_record_def)
  have path: "path_of ''p'' ''a'' = ''p/a''" by (simp add: path_of_def)
  have "idx (db one_record) ''did:a'' c k = (if c = ''p'' \<and> k = ''a'' then Some ''cx'' else None)" for c k
    by (auto simp: idx_def tbl_get_def one_record_def)
  moreover have "path_of c k = ''p/a'' \<longleftrightarrow> c = ''p'' \<and> k = ''a''" if "CHR ''/'' \<notin> set c" for c k
    using path_of_inj [of c "''p''" k "''a''"] that by (simp add: path)
  ultimately show "index_agrees rp_lookup (db one_record) ''did:a'' ((demo_new ''did:a'')\<lparr>rp_tree := [(''p/a'', ''cx'')]\<rparr>)"
    by (auto simp: index_agrees_def rp_lookup_def)
qed

definition replace_run :: "(go_error + commit_result \<times> op_result list) \<times> ref_repo pds" where
  "replace_run = applyWrites fine ''did:a'' replace_ops None one_record"

lemma replace_run_succeeds: "\<not> isl (fst replace_run)"
  by code_simp



end
