(* ===== verification/Runs.thy ===== *)
theory Runs
  imports Listing Subscription Batch_Runs
begin

text \<open>
  The properties of the smaller components applied on the demonstration world.
\<close>

section \<open>Listing\<close>

definition list_state :: "ref_repo pds" where
  "list_state = demo_state\<lparr>db := (db demo_state)\<lparr>repo_records :=
     [\<lparr>rr_did = ''did:a'', rr_collection = ''p'', rr_rkey = ''k2'', rr_cid = ''cx'', rr_value = ''x''\<rparr>,
      \<lparr>rr_did = ''did:a'', rr_collection = ''p'', rr_rkey = ''k1'', rr_cid = ''cy'', rr_value = ''y''\<rparr>,
      \<lparr>rr_did = ''did:b'', rr_collection = ''p'', rr_rkey = ''k1'', rr_cid = ''cy'', rr_value = ''y''\<rparr>]\<rparr>\<rparr>"

lemma list_state_ok: "records_ok fine ''did:a'' ''p'' list_state" "length (records_in ''did:a'' ''p'' (db list_state)) = 2"
  by (simp_all add: records_ok_def list_state_def records_in_def tbl_keys_ok_def demo_cast_def)

theorem ListRecords_pages_witness:
  "walk_pages (\<lambda>c. fst (ListRecords fine ''did:a'' ''p'' c 1 list_state)) 3 [] =
    Inr (map (item fine) (order_asc rr_rkey (records_in ''did:a'' ''p'' (db list_state))))"
  by (rule ListRecords_pages) (simp_all add: list_state_ok)

theorem ListRecordsDesc_pages_witness:
  "walk_pages (\<lambda>c. fst (ListRecordsDesc fine ''did:a'' ''p'' c 1 list_state)) 3 [] =
    Inr (map (item fine) (order_desc rr_rkey (records_in ''did:a'' ''p'' (db list_state))))"
  by (rule ListRecordsDesc_pages) (simp_all add: list_state_ok)

theorem ListRepos_pages_witness:
  "walk_pages (\<lambda>c. fst (ListRepos fine c 1 list_state)) 3 [] =
    Inr (map (info fine (db list_state)) (order_asc acc_did (accounts (db list_state))))"
  by (rule ListRepos_pages)
     (simp_all add: repos_ok_def list_state_def demo_state_def empty_db_def tbl_keys_ok_def demo_account_def)

theorem ListReposByCollection_pages_witness:
  "walk_pages (\<lambda>c. fst (ListReposByCollection fine ''p'' c 1 list_state)) 4 [] =
    Inr (holders ''p'' (db list_state))"
  by (rule ListReposByCollection_pages)
     (simp_all add: holders_ok_def list_state_def holders_def distinct_asc_def)

section \<open>Firehose\<close>

lemma demo_stream_ok: "stream_ok demo_state" "subs_ok demo_state"
  by (simp_all add: stream_ok_def subs_ok_def demo_state_def empty_db_def)

theorem publish_keeps_order_witness:
  "stream_ok (snd (publish fine ''#identity'' (IdentityEvent ''did:a'' None) demo_state))"
  by (rule publish_keeps_order) (rule demo_stream_ok)

theorem publish_appends_witness:
  "map fst (firehose_events (db (snd (publish fine ''#identity'' (IdentityEvent ''did:a'' None) demo_state)))) = [1]"
proof -
  have run: "publish fine ''#identity'' (IdentityEvent ''did:a'' None) demo_state =
      (Inr (), snd (publish fine ''#identity'' (IdentityEvent ''did:a'' None) demo_state))"
    by (simp add: publish_def set_seq_def go_defs sql_def q_try_def tbl_insert_def tbl_has_def Let_def
        demo_state_def empty_db_def)
  from publish_appends [OF run] show ?thesis by (simp add: demo_state_def empty_db_def)
qed

theorem new_emitter_continues_witness:
  "em_seq (emitter (snd (new_emitter fine demo_state))) = 0"
  using new_emitter_continues [OF demo_stream_ok(1), of fine]
  by (simp add: max_seq_def demo_state_def empty_db_def)

theorem subscription_no_gap_witness:
  "dup_frame \<in> set ([dup_frame, dup_frame] @ [] @ [])"
  using subscription_no_gap [OF fine_no_faults(1) demo_stream_ok duplicate_run, of 1 dup_frame]
  by (simp add: dup_state_def demo_state_def empty_db_def)

theorem subscription_order_witness:
  "\<exists>a c. [dup_frame, dup_frame] = a @ c \<and> sorted_wrt (<) (map fr_seq a) \<and> sorted_wrt (<) (map fr_seq c)"
  using subscription_order [OF fine_no_faults(1) demo_stream_ok duplicate_run]
  by (simp add: dup_state_def demo_state_def empty_db_def)

section \<open>Blobs\<close>

text \<open>Uploads of the first account and then of the second, of the same bytes.\<close>

definition first_upload :: "(go_error + cid \<times> nat) \<times> ref_repo pds" where
  "first_upload = blob_put fine ''/b'' ''did:a'' ''text/plain'' (Inr ''hi'') demo_state"

definition blob_state :: "string \<Rightarrow> ref_repo pds" where
  "blob_state tid = demo_state\<lparr>
     db := (db demo_state)\<lparr>blobs := [\<lparr>bl_cid = ''bshi'', bl_did = ''did:a'', bl_size = 2, bl_mime = Some ''text/plain'',
       bl_path = ''/b/bshi'', bl_created_at = tid\<rparr>]\<rparr>,
     files := [''/b/bshi'' \<mapsto> ''hi'']\<rparr>"

lemma first_upload_run:
  "blob_put fine ''/b'' ''did:a'' ''text/plain'' (Inr ''hi'') demo_state =
     (Inr (''bshi'', 2), (blob_state ''tiii'')\<lparr>tick := 4\<rparr>)"
  by (simp add: blob_put_def go_defs os_call_def sql_def insert_blob_def q_try_def tbl_has_def Let_def
      blob_path_def blob_state_def demo_state_def empty_db_def demo_account_def numeral_eq_Suc)

theorem blob_put_open_witness:
  "fst (blob_open fine ''did:a'' ''bshi'' ((blob_state ''tiii'')\<lparr>tick := 4\<rparr>)) = Inr (''hi'', ''text/plain'', 2)"
  using blob_put_open [OF first_upload_run]
  by (simp add: tbl_get_def demo_state_def empty_db_def)

lemma second_upload_run:
  "blob_put fine ''/b'' ''did:b'' ''text/plain'' (Inr ''hi'') (blob_state ''t'') =
     (Inr (''bshi'', 2), (blob_state ''t'')\<lparr>tick := 4\<rparr>)"
  by (simp add: blob_put_def go_defs os_call_def sql_def insert_blob_def q_try_def tbl_has_def Let_def
      blob_path_def blob_state_def demo_state_def empty_db_def demo_account_def numeral_eq_Suc)

lemma blob_state_ok: "blobs_ok fine ''/b'' (db (blob_state tid))"
  by (simp add: blobs_ok_def blob_state_def tbl_keys_ok_def blob_path_def)

theorem blob_second_uploader_witness:
  "fst (blob_open fine ''did:b'' ''bshi'' ((blob_state ''t'')\<lparr>tick := 4\<rparr>)) = Inl SqlNoRows"
  using blob_second_uploader [OF second_upload_run blob_state_ok]
  by (simp add: tbl_get_def blob_state_def)

theorem blob_delete_isolated_witness:
  "fst (blob_open fine ''did:a'' ''bshi'' (snd (DeleteForDID fine ''did:b'' (blob_state ''t'')))) =
   fst (blob_open fine ''did:a'' ''bshi'' (blob_state ''t''))"
  by (rule blob_delete_isolated [OF blob_state_ok, where did = "''did:b''"]) (simp_all add: prod_eq_iff)

theorem blob_list_skips_witness:
  "fst (blob_list fine ''did:a'' [] [] 0 (blob_state ''t'')) = Inr ([], Some ''t'')"
  using blob_list_skips [of fine "blob_state ''t''" 0 "''did:a''" "[]" "[]" "[]"]
  by (simp add: blob_rows_def order_asc_def blob_state_def demo_cast_def)

end
