(* ===== verification/RateLimit.thy ===== *)
theory RateLimit
  imports Complex_Main Http
begin

text \<open>
  \<open>internal/server/ratelimit.go\<close>: the token bucket in front of the login endpoints. The
  instants are nanoseconds of the monotonic clock; the \<open>float64\<close> token counts are read as
  exact rationals. \<open>gc\<close> drops buckets idle for ten minutes, only in the first second of a
  minute of the wall clock (\<open>sec\<close>).
\<close>

section \<open>The limiter\<close>

record bucket =
  bk_tokens :: rat
  bk_last :: int

record limiter =
  lm_rate :: rat
  lm_burst :: rat
  lm_items :: "string \<Rightarrow> bucket option"

definition newRateLimiter :: "rat \<Rightarrow> rat \<Rightarrow> limiter" where
  "newRateLimiter rate burst = \<lparr>lm_rate = rate, lm_burst = burst, lm_items = Map.empty\<rparr>"

definition seconds :: "int \<Rightarrow> rat" where
  "seconds ns = of_int ns / 1000000000"

text \<open>The bucket after the refill, before a token is taken.\<close>

definition refill :: "limiter \<Rightarrow> int \<Rightarrow> bucket \<Rightarrow> bucket" where
  "refill l now b =
     (let tokens = bk_tokens b + seconds (now - bk_last b) * lm_rate l
      in \<lparr>bk_tokens = (if tokens > lm_burst l then lm_burst l else tokens), bk_last = now\<rparr>)"

definition allow :: "limiter \<Rightarrow> int \<Rightarrow> string \<Rightarrow> bool \<times> limiter" where
  "allow l now key =
     (let b = (case lm_items l key of None \<Rightarrow> \<lparr>bk_tokens = lm_burst l, bk_last = now\<rparr> | Some b \<Rightarrow> b);
          b1 = refill l now b
      in if bk_tokens b1 < 1 then (False, l\<lparr>lm_items := (lm_items l)(key \<mapsto> b1)\<rparr>)
         else (True, l\<lparr>lm_items := (lm_items l)(key \<mapsto> b1\<lparr>bk_tokens := bk_tokens b1 - 1\<rparr>)\<rparr>))"

definition idle_limit :: int where
  "idle_limit = 10 * 60 * 1000000000"

definition gc :: "limiter \<Rightarrow> int \<Rightarrow> int \<Rightarrow> limiter" where
  "gc l now sec =
     (if sec mod 60 \<noteq> 0 then l
      else l\<lparr>lm_items := (\<lambda>k. case lm_items l k of
             None \<Rightarrow> None
           | Some b \<Rightarrow> if now - bk_last b > idle_limit then None else Some b)\<rparr>)"

text \<open>A request at the limiter: \<open>gc\<close>, then \<open>allow\<close>; the handler runs only when it is allowed.\<close>

record arrival =
  ar_now :: int
  ar_sec :: int
  ar_key :: string

definition admit :: "limiter \<Rightarrow> arrival \<Rightarrow> bool \<times> limiter" where
  "admit l a = allow (gc l (ar_now a) (ar_sec a)) (ar_now a) (ar_key a)"

definition too_many :: response where
  "too_many = Content 429 ''application/json''
     (json_marshal (JStruct [(''error'', JStr ''RateLimitExceeded''), (''message'', JStr ''too many requests'')]))"

definition rateLimit :: "limiter \<Rightarrow> arrival \<Rightarrow> 'r handler \<Rightarrow> limiter \<times> 'r handler" where
  "rateLimit l a next =
     (case admit l a of (ok, l') \<Rightarrow> (l', if ok then next else go_ret too_many))"

section \<open>The key of a request\<close>

definition last_colon :: "string \<Rightarrow> (string \<times> string) option" where
  "last_colon s =
     (if CHR '':'' \<in> set s
      then Some (rev (tl (dropWhile (\<lambda>c. c \<noteq> CHR '':'') (rev s))), rev (takeWhile (\<lambda>c. c \<noteq> CHR '':'') (rev s)))
      else None)"

text \<open>\<open>net.SplitHostPort\<close>: host and port, when the address has one port and balanced brackets.\<close>

definition SplitHostPort :: "string \<Rightarrow> (string \<times> string) option" where
  "SplitHostPort addr =
     (case last_colon addr of
        None \<Rightarrow> None
      | Some (before, port) \<Rightarrow>
          if has_prefix addr ''['' then
            (case str_cut '']'' addr of
               None \<Rightarrow> None
             | Some (h, rest) \<Rightarrow>
                 if rest \<noteq> CHR '':'' # port then None
                 else if CHR ''['' \<in> set (tl h) \<or> CHR '']'' \<in> set rest \<or> CHR ''['' \<in> set rest then None
                 else Some (tl h, port))
          else if CHR '':'' \<in> set before \<or> CHR ''['' \<in> set addr \<or> CHR '']'' \<in> set addr then None
          else Some (before, port))"

definition stripPort :: "string \<Rightarrow> string" where
  "stripPort addr = (case SplitHostPort addr of None \<Rightarrow> addr | Some (host, port) \<Rightarrow> host)"

definition clientIP :: "bool \<Rightarrow> request \<Rightarrow> string" where
  "clientIP trustProxy rq =
     (let xf = rq_header rq ''X-Forwarded-For'';
          before = trim_space (case str_cut '','' xf of None \<Rightarrow> xf | Some (b, _) \<Rightarrow> b)
      in if trustProxy \<and> xf \<noteq> [] \<and> before \<noteq> [] then stripPort before else stripPort (rq_remote rq))"

section \<open>Buckets\<close>

text \<open>
  The balance of a key at an instant: what \<open>refill\<close> would leave in its bucket; a key without a
  bucket counts as full.
\<close>

definition balance :: "limiter \<Rightarrow> string \<Rightarrow> int \<Rightarrow> rat" where
  "balance l key now =
     (case lm_items l key of None \<Rightarrow> lm_burst l | Some b \<Rightarrow> bk_tokens (refill l now b))"

definition limiter_ok :: "limiter \<Rightarrow> int \<Rightarrow> bool" where
  "limiter_ok l now \<longleftrightarrow> 0 \<le> lm_rate l \<and> 0 \<le> lm_burst l \<and> lm_burst l \<le> 600 * lm_rate l \<and>
     (\<forall>k b. lm_items l k = Some b \<longrightarrow> 0 \<le> bk_tokens b \<and> bk_tokens b \<le> lm_burst l \<and> bk_last b \<le> now)"

lemma refill_tokens:
  "bk_tokens (refill l now b) = min (lm_burst l) (bk_tokens b + seconds (now - bk_last b) * lm_rate l)"
  by (simp add: refill_def Let_def min_def)

lemma bk_last_refill [simp]: "bk_last (refill l now b) = now"
  by (simp add: refill_def Let_def)

lemma seconds_nonneg [simp]: "0 \<le> n \<Longrightarrow> 0 \<le> seconds n"
  by (simp add: seconds_def)

lemma seconds_mono: "m \<le> n \<Longrightarrow> seconds m \<le> seconds n"
  by (simp add: seconds_def divide_right_mono)

lemma seconds_split: "seconds (a - c) = seconds (a - b) + seconds (b - c)"
  by (simp add: seconds_def add_divide_distrib [symmetric])

lemma gc_fields [simp]: "lm_rate (gc l now sec) = lm_rate l" "lm_burst (gc l now sec) = lm_burst l"
  by (simp_all add: gc_def)

lemma allow_fields [simp]:
  "lm_rate (snd (allow l now key)) = lm_rate l" "lm_burst (snd (allow l now key)) = lm_burst l"
  by (simp_all add: allow_def Let_def)

text \<open>A bucket that \<open>gc\<close> may drop is full: it refills in less than ten minutes.\<close>

lemma idle_bucket_full:
  assumes "limiter_ok l now" and "lm_items l k = Some b" and "now' - bk_last b > idle_limit"
  shows "bk_tokens (refill l now' b) = lm_burst l"
proof -
  from assms have b: "0 \<le> bk_tokens b" and r: "0 \<le> lm_rate l" "lm_burst l \<le> 600 * lm_rate l"
    by (auto simp: limiter_ok_def)
  have "600 \<le> seconds (now' - bk_last b)"
    using seconds_mono [of idle_limit "now' - bk_last b"] assms(3) by (simp add: seconds_def idle_limit_def)
  then have "600 * lm_rate l \<le> seconds (now' - bk_last b) * lm_rate l"
    by (rule mult_right_mono) (rule r)
  with b r show ?thesis by (simp add: refill_tokens min_def)
qed

lemma refill_same: "lm_rate m = lm_rate l \<Longrightarrow> lm_burst m = lm_burst l \<Longrightarrow> refill m now b = refill l now b"
  by (simp add: refill_def Let_def)

lemma balance_same:
  "lm_rate m = lm_rate l \<Longrightarrow> lm_burst m = lm_burst l \<Longrightarrow> lm_items m k = lm_items l k \<Longrightarrow>
   balance m k now = balance l k now"
  by (cases "lm_items l k") (simp_all add: balance_def refill_same [of m l])

lemma balance_gc:
  assumes "limiter_ok l now" and "now' \<le> u"
  shows "balance (gc l now' sec) k u = balance l k u"
proof (cases "lm_items (gc l now' sec) k = lm_items l k")
  case True
  then show ?thesis by (intro balance_same) simp_all
next
  case False
  then obtain b where b: "lm_items l k = Some b" "lm_items (gc l now' sec) k = None"
    and "now' - bk_last b > idle_limit"
    by (auto simp: gc_def split: if_splits option.splits)
  with assms(2) have "u - bk_last b > idle_limit" by simp
  from idle_bucket_full [OF assms(1) b(1) this] b show ?thesis by (simp add: balance_def)
qed

lemma limiter_ok_gc: "limiter_ok l now \<Longrightarrow> limiter_ok (gc l now' sec) now"
  by (auto simp: limiter_ok_def gc_def split: option.splits if_splits)

lemma limiter_ok_later: "limiter_ok l now \<Longrightarrow> now \<le> now' \<Longrightarrow> limiter_ok l now'"
  by (fastforce simp: limiter_ok_def)

lemma refill_bounds:
  assumes "limiter_ok l now" and "lm_items l k = Some b" and "now \<le> now'"
  shows "0 \<le> bk_tokens (refill l now' b) \<and> bk_tokens (refill l now' b) \<le> lm_burst l"
proof -
  from assms have "0 \<le> bk_tokens b" "bk_last b \<le> now'" "0 \<le> lm_rate l" "0 \<le> lm_burst l"
    by (auto simp: limiter_ok_def dest: order_trans)
  then show ?thesis by (simp add: refill_tokens)
qed

lemma balance_bounds:
  assumes "limiter_ok l now" and "now \<le> now'"
  shows "0 \<le> balance l k now' \<and> balance l k now' \<le> lm_burst l"
proof (cases "lm_items l k")
  case None
  with assms show ?thesis by (simp add: balance_def limiter_ok_def)
next
  case (Some b)
  with refill_bounds [OF assms(1) Some assms(2)] show ?thesis by (simp add: balance_def)
qed

text \<open>What \<open>allow\<close> decides and leaves.\<close>

lemma allow_decision: "limiter_ok l now \<Longrightarrow> fst (allow l now' k) \<longleftrightarrow> 1 \<le> balance l k now'"
  by (auto simp: allow_def Let_def balance_def refill_def limiter_ok_def seconds_def split: option.splits)

lemma allow_items:
  "lm_items (snd (allow l now k)) =
     (lm_items l)(k \<mapsto> \<lparr>bk_tokens = balance l k now - (if 1 \<le> balance l k now then 1 else 0), bk_last = now\<rparr>)"
  by (auto simp: allow_def Let_def balance_def refill_def seconds_def not_le split: option.splits)

lemma limiter_ok_allow:
  assumes "limiter_ok l now" and "now \<le> now'"
  shows "limiter_ok (snd (allow l now' k)) now'"
  using limiter_ok_later [OF assms] balance_bounds [OF assms, of k]
  by (auto simp: limiter_ok_def allow_items)

text \<open>The balance grows by at most the refill, and an admitted request costs one token.\<close>

lemma balance_grows:
  assumes "limiter_ok l now" and "now \<le> t" and "t \<le> u"
  shows "balance l k u \<le> balance l k t + seconds (u - t) * lm_rate l"
proof (cases "lm_items l k")
  case None
  with assms show ?thesis by (simp add: balance_def limiter_ok_def)
next
  case (Some b)
  have "seconds (u - bk_last b) * lm_rate l = seconds (t - bk_last b) * lm_rate l + seconds (u - t) * lm_rate l"
    using seconds_split [of u "bk_last b" t] by (simp add: algebra_simps)
  moreover have "0 \<le> seconds (u - t) * lm_rate l"
    using assms by (simp add: limiter_ok_def)
  ultimately show ?thesis using Some by (simp add: balance_def refill_tokens min_def)
qed

lemma balance_allow:
  assumes "limiter_ok l now" and "now \<le> t"
  shows "balance (snd (allow l t k)) k t = balance l k t - (if fst (allow l t k) then 1 else 0)"
  using balance_bounds [OF assms, of k] assms
  by (auto simp: balance_def [of "snd (allow l t k)"] allow_items allow_decision [OF assms(1)] refill_tokens seconds_def min_def)

section \<open>Runs\<close>

text \<open>A sequence of requests, and how many of one key are admitted.\<close>

fun admits :: "limiter \<Rightarrow> arrival list \<Rightarrow> bool list" where
  "admits l [] = []"
| "admits l (a # as) = fst (admit l a) # admits (snd (admit l a)) as"

fun admitted :: "string \<Rightarrow> limiter \<Rightarrow> arrival list \<Rightarrow> nat" where
  "admitted key l [] = 0"
| "admitted key l (a # as) =
     (if ar_key a = key \<and> fst (admit l a) then 1 else 0) + admitted key (snd (admit l a)) as"

definition in_order :: "int \<Rightarrow> arrival list \<Rightarrow> bool" where
  "in_order start as \<longleftrightarrow> sorted_wrt (\<le>) (start # map ar_now as)"

lemma in_order_Cons: "in_order start (a # as) \<longleftrightarrow> start \<le> ar_now a \<and> in_order (ar_now a) as"
  by (fastforce simp: in_order_def)

lemma admit_rate [simp]: "lm_rate (snd (admit l a)) = lm_rate l" "lm_burst (snd (admit l a)) = lm_burst l"
  by (simp_all add: admit_def)

lemma limiter_ok_admit: "limiter_ok l now \<Longrightarrow> now \<le> ar_now a \<Longrightarrow> limiter_ok (snd (admit l a)) (ar_now a)"
  unfolding admit_def by (rule limiter_ok_allow [OF limiter_ok_gc])

lemma balance_admit:
  assumes "limiter_ok l now" and "now \<le> ar_now a"
  shows "balance (snd (admit l a)) k (ar_now a) =
    balance l k (ar_now a) - (if ar_key a = k \<and> fst (admit l a) then 1 else 0)"
proof -
  let ?g = "gc l (ar_now a) (ar_sec a)"
  have g: "balance ?g k (ar_now a) = balance l k (ar_now a)" by (rule balance_gc [OF assms(1) order_refl])
  show ?thesis
  proof (cases "ar_key a = k")
    case True
    with balance_allow [OF limiter_ok_gc [OF assms(1)] assms(2)] g show ?thesis
      by (simp add: admit_def)
  next
    case False
    then have "lm_items (snd (allow ?g (ar_now a) (ar_key a))) k = lm_items ?g k" by (simp add: allow_items)
    with False g balance_same [of "snd (allow ?g (ar_now a) (ar_key a))" ?g k] show ?thesis
      by (simp add: admit_def)
  qed
qed

lemma admitted_le:
  assumes "limiter_ok l now" and "in_order now as" and "now \<le> t" and "\<forall>a \<in> set as. t \<le> ar_now a"
    and "as \<noteq> []"
  shows "of_nat (admitted key l as) \<le> balance l key t + seconds (ar_now (last as) - t) * lm_rate l"
  using assms
proof (induction as arbitrary: l now t)
  case Nil
  then show ?case by simp
next
  case (Cons a as)
  let ?m = "snd (admit l a)"
  let ?c = "if ar_key a = key \<and> fst (admit l a) then 1 else 0 :: rat"
  from Cons.prems have na: "now \<le> ar_now a" and ord: "in_order (ar_now a) as" and ta: "t \<le> ar_now a"
    by (auto simp: in_order_Cons)
  have ok: "limiter_ok ?m (ar_now a)" by (rule limiter_ok_admit [OF Cons.prems(1) na])
  have bal: "balance ?m key (ar_now a) = balance l key (ar_now a) - ?c"
    by (rule balance_admit [OF Cons.prems(1) na])
  have grow: "balance l key (ar_now a) \<le> balance l key t + seconds (ar_now a - t) * lm_rate l"
    by (rule balance_grows [OF Cons.prems(1,3) ta])
  show ?case
  proof (cases "as = []")
    case True
    have "0 \<le> balance ?m key (ar_now a)" using balance_bounds [OF ok order_refl] by blast
    with bal grow show ?thesis using True by (auto split: if_splits)
  next
    case False
    have "\<forall>b \<in> set as. ar_now a \<le> ar_now b" using ord by (auto simp: in_order_def)
    from Cons.IH [OF ok ord order_refl this False]
    have "of_nat (admitted key ?m as) \<le> balance ?m key (ar_now a) + seconds (ar_now (last as) - ar_now a) * lm_rate l"
      by simp
    moreover have "seconds (ar_now (last as) - t) * lm_rate l =
        seconds (ar_now (last as) - ar_now a) * lm_rate l + seconds (ar_now a - t) * lm_rate l"
      using seconds_split [of "ar_now (last as)" t "ar_now a"] by (simp add: algebra_simps)
    ultimately show ?thesis using bal grow False by (auto split: if_splits)
  qed
qed

text \<open>The limiter of the login routes: five a second, bursts of ten (\<open>server.go\<close>).\<close>

definition authLimiter :: limiter where
  "authLimiter = newRateLimiter 5 10"

lemma authLimiter_ok: "limiter_ok authLimiter now"
  by (simp add: limiter_ok_def authLimiter_def newRateLimiter_def)

fun reached :: "limiter \<Rightarrow> arrival list \<Rightarrow> limiter" where
  "reached l [] = l"
| "reached l (a # as) = reached (snd (admit l a)) as"

lemma reached_ok:
  "limiter_ok l now \<Longrightarrow> in_order now as \<Longrightarrow> limiter_ok (reached l as) (last (now # map ar_now as))"
proof (induction as arbitrary: l now)
  case (Cons a as)
  then have "limiter_ok (snd (admit l a)) (ar_now a)" "in_order (ar_now a) as"
    by (simp_all add: in_order_Cons limiter_ok_admit)
  from Cons.IH [OF this] show ?case by (cases as) simp_all
qed simp

lemma reached_fields [simp]: "lm_rate (reached l as) = lm_rate l" "lm_burst (reached l as) = lm_burst l"
  by (induction as arbitrary: l) simp_all

lemma in_order_append:
  "in_order now (xs @ ys) \<Longrightarrow> in_order now xs \<and> in_order (last (now # map ar_now xs)) ys"
proof (induction xs arbitrary: now)
  case (Cons a xs)
  then show ?case by (cases xs) (auto simp: in_order_Cons)
qed (simp add: in_order_def)

text \<open>C16: In any window of requests, however many clients are interleaved, whatever went before and
  whenever buckets are collected, one key is admitted at most ten times plus five times per
  second of the window: no sequence of requests gets around the limit on logins.\<close>

theorem login_attempts_bounded:
  assumes "in_order start (before @ window)" and "window \<noteq> []"
  shows "of_nat (admitted key (reached authLimiter before) window) \<le>
    10 + 5 * seconds (ar_now (last window) - ar_now (hd window))"
proof -
  let ?l = "reached authLimiter before" and ?t = "last (start # map ar_now before)"
  from in_order_append [OF assms(1)] have ord: "in_order start before" "in_order ?t window" by simp_all
  have ok: "limiter_ok ?l ?t" by (rule reached_ok [OF authLimiter_ok ord(1)])
  obtain a as where w: "window = a # as" using assms(2) by (cases window) auto
  with ord(2) have ta: "?t \<le> ar_now a" and "in_order (ar_now a) as" by (simp_all add: in_order_Cons)
  then have "\<forall>b \<in> set window. ar_now a \<le> ar_now b" by (auto simp: w in_order_def)
  from admitted_le [OF ok ord(2) ta this assms(2)]
  have "of_nat (admitted key ?l window) \<le> balance ?l key (ar_now a) + seconds (ar_now (last window) - ar_now a) * 5"
    by (simp add: authLimiter_def newRateLimiter_def)
  moreover have "balance ?l key (ar_now a) \<le> 10"
    using balance_bounds [OF ok ta, of key] by (simp add: authLimiter_def newRateLimiter_def)
  ultimately show ?thesis by (simp add: w mult.commute)
qed

text \<open>A client is never locked out: whatever has happened, a request that comes at least a fifth
  of a second after the previous one of any client is admitted.\<close>

theorem denied_client_recovers:
  assumes "in_order start before" and "last (start # map ar_now before) + 200000000 \<le> ar_now a"
  shows "fst (admit (reached authLimiter before) a)"
proof -
  let ?l = "reached authLimiter before" and ?t = "last (start # map ar_now before)"
  have ok: "limiter_ok ?l ?t" by (rule reached_ok [OF authLimiter_ok assms(1)])
  have r: "lm_rate ?l = 5" "lm_burst ?l = 10" by (simp_all add: authLimiter_def newRateLimiter_def)
  have "1 \<le> balance ?l (ar_key a) (ar_now a)"
  proof (cases "lm_items ?l (ar_key a)")
    case None
    then show ?thesis by (simp add: balance_def authLimiter_def newRateLimiter_def)
  next
    case (Some b)
    with ok have b: "0 \<le> bk_tokens b" "bk_last b \<le> ?t" by (auto simp: limiter_ok_def)
    then have "200000000 \<le> ar_now a - bk_last b" using assms(2) by linarith
    then have "seconds 200000000 \<le> seconds (ar_now a - bk_last b)" by (rule seconds_mono)
    then have "1 / 5 \<le> seconds (ar_now a - bk_last b)" by (simp add: seconds_def [of 200000000])
    with b(1) Some show ?thesis by (simp add: balance_def refill_tokens r del: reached_fields)
  qed
  with balance_gc [OF ok order_refl] allow_decision [OF limiter_ok_gc [OF ok]] show ?thesis
    by (simp add: admit_def)
qed

text \<open>Two limiters that cannot be told apart from an instant on.\<close>

definition same_limiter :: "limiter \<Rightarrow> limiter \<Rightarrow> int \<Rightarrow> bool" where
  "same_limiter l m now \<longleftrightarrow> limiter_ok l now \<and> limiter_ok m now \<and> lm_rate l = lm_rate m \<and> lm_burst l = lm_burst m \<and>
     (\<forall>k u. now \<le> u \<longrightarrow> balance l k u = balance m k u)"

lemma balance_after_allow:
  assumes "limiter_ok l now" and "now \<le> t" and "t \<le> u"
  shows "balance (snd (allow l t j)) k u =
    (if k = j then min (lm_burst l) (balance l j t - (if 1 \<le> balance l j t then 1 else 0) + seconds (u - t) * lm_rate l)
     else balance l k u)"
proof (cases "k = j")
  case True
  then show ?thesis by (simp add: balance_def [of "snd (allow l t j)"] allow_items refill_tokens)
next
  case False
  then have "balance (snd (allow l t j)) k u = balance l k u"
    by (intro balance_same) (simp_all add: allow_items)
  with False show ?thesis by simp
qed

lemma same_limiter_step:
  assumes "same_limiter l m now" and "now \<le> ar_now a"
  shows "fst (admit l a) = fst (allow m (ar_now a) (ar_key a)) \<and>
    same_limiter (snd (admit l a)) (snd (allow m (ar_now a) (ar_key a))) (ar_now a)"
proof -
  let ?g = "gc l (ar_now a) (ar_sec a)" and ?t = "ar_now a" and ?j = "ar_key a"
  from assms(1) have ok: "limiter_ok l now" "limiter_ok m now" and r: "lm_rate l = lm_rate m" "lm_burst l = lm_burst m"
    and same: "\<And>k u. now \<le> u \<Longrightarrow> balance l k u = balance m k u"
    by (auto simp: same_limiter_def)
  have g: "limiter_ok ?g now" "\<And>k u. ?t \<le> u \<Longrightarrow> balance ?g k u = balance m k u"
    using limiter_ok_gc [OF ok(1)] balance_gc [OF ok(1)] same assms(2) by auto
  have "fst (allow ?g ?t ?j) = fst (allow m ?t ?j)"
    using allow_decision [OF g(1)] allow_decision [OF ok(2)] g(2) by simp
  moreover have "balance (snd (allow ?g ?t ?j)) k u = balance (snd (allow m ?t ?j)) k u" if "?t \<le> u" for k u
    using that g(2) r balance_after_allow [OF g(1) assms(2) that] balance_after_allow [OF ok(2) assms(2) that] by simp
  ultimately show ?thesis
    using limiter_ok_allow [OF g(1) assms(2)] limiter_ok_allow [OF ok(2) assms(2)] r
    by (simp add: admit_def same_limiter_def)
qed

fun admits_no_gc :: "limiter \<Rightarrow> arrival list \<Rightarrow> bool list" where
  "admits_no_gc l [] = []"
| "admits_no_gc l (a # as) =
     fst (allow l (ar_now a) (ar_key a)) # admits_no_gc (snd (allow l (ar_now a) (ar_key a))) as"

lemma same_limiter_run: "same_limiter l m now \<Longrightarrow> in_order now as \<Longrightarrow> admits l as = admits_no_gc m as"
proof (induction as arbitrary: l m now)
  case (Cons a as)
  then have "now \<le> ar_now a" "in_order (ar_now a) as" by (simp_all add: in_order_Cons)
  with Cons same_limiter_step show ?case by fastforce
qed simp

text \<open>C17: Collecting idle buckets is invisible: the limiter decides every sequence of requests as one
  that keeps its buckets for ever.\<close>

theorem gc_invisible:
  assumes "in_order start as"
  shows "admits authLimiter as = admits_no_gc authLimiter as"
  using same_limiter_run [OF _ assms] authLimiter_ok by (simp add: same_limiter_def)

end
