(* ===== verification/Schema.thy ===== *)
theory Schema
  imports Prelude
begin

text \<open>
  \<open>internal/db/db.go\<close>: the schema and its migrations. A schema is the tables with their columns,
  the indexes, and the rows of \<open>schema_migrations\<close> once that table exists. Each statement may
  fail, by the schedule \<open>fault\<close>; a migration runs in one transaction with the row that
  records it.
\<close>

section \<open>Schemas\<close>

datatype ddl =
    CreateTable string "string list"
  | CreateIndex string string
  | AddColumn string string

record schema =
  sc_tables :: "(string \<times> string list) list"
  sc_indexes :: "string list"
  sc_versions :: "(nat \<times> string) list option"

record migration =
  mi_version :: nat
  mi_name :: string
  mi_stmts :: "ddl list"

text \<open>The \<open>IF NOT EXISTS\<close> forms skip what is there; a column is added once, to a table that is there.\<close>

definition exec_ddl :: "ddl \<Rightarrow> schema \<Rightarrow> go_error + schema" where
  "exec_ddl st sc =
     (case st of
        CreateTable t cols \<Rightarrow>
          if map_of (sc_tables sc) t \<noteq> None then Inr sc
          else Inr (sc\<lparr>sc_tables := sc_tables sc @ [(t, cols)]\<rparr>)
      | CreateIndex i t \<Rightarrow>
          if i \<in> set (sc_indexes sc) then Inr sc
          else if map_of (sc_tables sc) t = None then Inl (Lib ''no such table'')
          else Inr (sc\<lparr>sc_indexes := sc_indexes sc @ [i]\<rparr>)
      | AddColumn t c \<Rightarrow>
          (case map_of (sc_tables sc) t of
             None \<Rightarrow> Inl (Lib ''no such table'')
           | Some cols \<Rightarrow>
               if c \<in> set cols then Inl (Lib ''duplicate column name'')
               else Inr (sc\<lparr>sc_tables := map (\<lambda>(n, cs). (n, if n = t then cs @ [c] else cs)) (sc_tables sc)\<rparr>)))"

definition migrations :: "migration list" where
  "migrations =
    [\<lparr>mi_version = 1, mi_name = ''initial'', mi_stmts =
       [CreateTable ''accounts'' [''did'', ''handle'', ''email'', ''password_hash'', ''recovery_key'', ''signing_key'',
          ''tid_clock'', ''created_at'', ''did_doc'', ''deactivated_at'', ''takedown_ref''],
        CreateIndex ''idx_accounts_handle'' ''accounts'',
        CreateTable ''auth_sessions'' [''token_hash'', ''did'', ''refresh_token'', ''created_at'', ''expires_at'', ''app_password''],
        CreateIndex ''idx_auth_sessions_did'' ''auth_sessions'',
        CreateTable ''repo_commits'' [''did'', ''rev'', ''cid'', ''prev_cid'', ''data_root'', ''sig'', ''created_at''],
        CreateIndex ''idx_repo_commits_did'' ''repo_commits'',
        CreateTable ''repo_blocks'' [''cid'', ''data'', ''size''],
        CreateTable ''repo_records'' [''did'', ''collection'', ''rkey'', ''record_cid'', ''value''],
        CreateIndex ''idx_repo_records_col'' ''repo_records'',
        CreateTable ''repo_block_revs'' [''did'', ''cid'', ''rev''],
        CreateTable ''blobs'' [''cid'', ''did'', ''size'', ''mime_type'', ''storage'', ''path'', ''data'', ''created_at''],
        CreateIndex ''idx_blobs_did'' ''blobs'',
        CreateTable ''firehose_events'' [''seq'', ''frame'']]\<rparr>,
     \<lparr>mi_version = 2, mi_name = ''account lifecycle'', mi_stmts =
       [AddColumn ''accounts'' ''email_confirmed_at'',
        CreateTable ''app_passwords'' [''did'', ''name'', ''password_hash'', ''created_at''],
        CreateTable ''invite_codes'' [''code'', ''created_by'', ''created_at'', ''used_by'', ''used_at'', ''disabled_at''],
        CreateTable ''email_tokens'' [''token'', ''did'', ''purpose'', ''email'', ''expires_at'', ''used_at'']]\<rparr>,
     \<lparr>mi_version = 3, mi_name = ''relay registry'', mi_stmts =
       [CreateTable ''relays'' [''hostname'', ''registered_at'']]\<rparr>,
     \<lparr>mi_version = 4, mi_name = ''settings'', mi_stmts =
       [CreateTable ''settings'' [''key'', ''value'']]\<rparr>,
     \<lparr>mi_version = 5, mi_name = ''appview preferences'', mi_stmts =
       [CreateTable ''app_preferences'' [''did'', ''prefs'']]\<rparr>,
     \<lparr>mi_version = 6, mi_name = ''appview mutes'', mi_stmts =
       [CreateTable ''mutes'' [''did'', ''subject'', ''created_at'']]\<rparr>,
     \<lparr>mi_version = 7, mi_name = ''bridge'', mi_stmts =
       [CreateTable ''bridge_config'' [''key'', ''value''],
        CreateTable ''bridge_sync'' [''direction'', ''source_cid'', ''local_uri'', ''remote_uri'', ''synced_at'']]\<rparr>]"

section \<open>Running migrations\<close>

text \<open>The state: how many statements have run, and the schema.\<close>

type_synonym store = "nat \<times> schema"

definition stmt :: "(nat \<Rightarrow> bool) \<Rightarrow> (schema \<Rightarrow> go_error + 'a \<times> schema) \<Rightarrow> (store, 'a) go" where
  "stmt fault f s =
     (case s of (n, sc) \<Rightarrow>
        if fault n then (Inl SqlFault, (Suc n, sc))
        else case f sc of Inl e \<Rightarrow> (Inl e, (Suc n, sc)) | Inr (x, sc') \<Rightarrow> (Inr x, (Suc n, sc')))"

definition exec :: "(nat \<Rightarrow> bool) \<Rightarrow> (schema \<Rightarrow> go_error + schema) \<Rightarrow> (store, unit) go" where
  "exec fault f = stmt fault (\<lambda>sc. case f sc of Inl e \<Rightarrow> Inl e | Inr sc' \<Rightarrow> Inr ((), sc'))"

definition record_version :: "nat \<Rightarrow> string \<Rightarrow> schema \<Rightarrow> go_error + schema" where
  "record_version v name sc =
     (case sc_versions sc of
        None \<Rightarrow> Inl (Lib ''no such table: schema_migrations'')
      | Some vs \<Rightarrow>
          if v \<in> fst ` set vs then Inl SqlConstraint
          else Inr (sc\<lparr>sc_versions := Some (vs @ [(v, name)])\<rparr>))"

text \<open>\<open>apply\<close>: a begin, the statements, the version row, a commit; rolled back on any failure.\<close>

definition apply_body :: "(nat \<Rightarrow> bool) \<Rightarrow> migration \<Rightarrow> (store, unit) go" where
  "apply_body fault m =
     go_bind (go_foreach (\<lambda>st. exec fault (exec_ddl st)) (mi_stmts m)) (\<lambda>_.
     go_bind (exec fault (record_version (mi_version m) (mi_name m))) (\<lambda>_.
     exec fault Inr))"

definition apply_migration :: "(nat \<Rightarrow> bool) \<Rightarrow> migration \<Rightarrow> (store, unit) go" where
  "apply_migration fault m =
     go_bind (exec fault Inr) (\<lambda>_ s.
       case apply_body fault m s of
         (Inl e, t) \<Rightarrow> (Inl e, (fst t, snd s))
       | (Inr x, t) \<Rightarrow> (Inr x, t))"

definition create_versions :: "schema \<Rightarrow> go_error + schema" where
  "create_versions sc = Inr (sc\<lparr>sc_versions := (case sc_versions sc of None \<Rightarrow> Some [] | v \<Rightarrow> v)\<rparr>)"

definition current_version :: "schema \<Rightarrow> go_error + nat \<times> schema" where
  "current_version sc =
     (case sc_versions sc of
        None \<Rightarrow> Inl (Lib ''no such table: schema_migrations'')
      | Some vs \<Rightarrow> Inr (foldr max (map fst vs) 0, sc))"

primrec run_migrations :: "(nat \<Rightarrow> bool) \<Rightarrow> nat \<Rightarrow> migration list \<Rightarrow> (store, unit) go" where
  "run_migrations fault current [] = go_ret ()"
| "run_migrations fault current (m # ms) =
     (if mi_version m \<le> current then run_migrations fault current ms
      else go_bind (go_wrap ''migration'' (apply_migration fault m)) (\<lambda>_. run_migrations fault current ms))"

definition migrate :: "(nat \<Rightarrow> bool) \<Rightarrow> (store, unit) go" where
  "migrate fault =
     go_bind (go_wrap ''create schema_migrations'' (exec fault create_versions)) (\<lambda>_.
     go_bind (go_wrap ''read schema version'' (stmt fault current_version)) (\<lambda>current.
     run_migrations fault current migrations))"

section \<open>The reference\<close>

text \<open>A migration as one pure step, and the schema after the first \<open>n\<close> of them.\<close>

fun exec_all :: "ddl list \<Rightarrow> schema \<Rightarrow> go_error + schema" where
  "exec_all [] sc = Inr sc"
| "exec_all (st # sts) sc = (case exec_ddl st sc of Inl e \<Rightarrow> Inl e | Inr sc' \<Rightarrow> exec_all sts sc')"

definition migrated :: "migration \<Rightarrow> schema \<Rightarrow> go_error + schema" where
  "migrated m sc =
     (case exec_all (mi_stmts m) sc of Inl e \<Rightarrow> Inl e | Inr sc' \<Rightarrow> record_version (mi_version m) (mi_name m) sc')"

definition empty_schema :: schema where
  "empty_schema = \<lparr>sc_tables = [], sc_indexes = [], sc_versions = Some []\<rparr>"

fun schema_at :: "nat \<Rightarrow> schema" where
  "schema_at 0 = empty_schema"
| "schema_at (Suc n) = (case migrated (migrations ! n) (schema_at n) of Inl e \<Rightarrow> schema_at n | Inr sc \<Rightarrow> sc)"

declare schema_at.simps [simp del]

section \<open>Atomicity\<close>

lemma stmt_snd: "snd (snd (stmt fault f (n, sc))) = sc \<or> (\<exists>x. f sc = Inr (x, snd (snd (stmt fault f (n, sc)))))"
  by (auto simp: stmt_def split: sum.splits prod.splits)

lemma exec_Inr [go_inv]: "exec fault f s = (Inr x, t) \<longleftrightarrow> \<not> fault (fst s) \<and> (\<exists>sc. f (snd s) = Inr sc \<and> t = (Suc (fst s), sc))"
  by (cases s) (auto simp: exec_def stmt_def split: sum.splits)

lemma exec_run: "\<not> fault n \<Longrightarrow> f sc = Inr sc' \<Longrightarrow> exec fault f (n, sc) = (Inr (), (Suc n, sc'))"
  by (simp add: exec_def stmt_def)

lemma exec_ddls_Inr:
  "go_foreach (\<lambda>st. exec fault (exec_ddl st)) sts s = (Inr x, t) \<Longrightarrow> exec_all sts (snd s) = Inr (snd t)"
  by (induction sts arbitrary: s) (auto simp: go_inv)

lemma exec_ddls_run:
  assumes "\<And>n. \<not> fault n"
  shows "exec_all sts sc = Inr sc' \<Longrightarrow> \<exists>k. go_foreach (\<lambda>st. exec fault (exec_ddl st)) sts (n, sc) = (Inr (), (k, sc'))"
proof (induction sts arbitrary: n sc)
  case Nil
  then show ?case by (simp add: go_defs)
next
  case (Cons st sts)
  then obtain sc1 where 1: "exec_ddl st sc = Inr sc1" "exec_all sts sc1 = Inr sc'" by (auto split: sum.splits)
  from Cons.IH [OF 1(2)] 1(1) assms show ?case by (auto simp: go_bind_def exec_run)
qed

lemma apply_migration_atomic:
  assumes "apply_migration fault m s = (r, t)"
  shows "isl r \<and> snd t = snd s \<or> r = Inr () \<and> migrated m (snd s) = Inr (snd t)"
proof -
  obtain a u where Pair: "exec fault Inr s = (a, u)" by (cases "exec fault Inr s")
  have u: "snd u = snd s" using Pair by (cases s) (auto simp: exec_def stmt_def split: if_splits)
  show ?thesis
  proof (cases a)
    case (Inl e)
    with Pair assms u show ?thesis by (auto simp: apply_migration_def go_bind_def)
  next
    case (Inr x)
    obtain b v where b: "apply_body fault m u = (b, v)" by (cases "apply_body fault m u")
    show ?thesis
    proof (cases b)
      case (Inl e)
      with b Inr Pair assms u show ?thesis by (auto simp: apply_migration_def go_bind_def)
    next
      case (Inr y)
      with b have "migrated m (snd u) = Inr (snd v)"
        by (auto simp: apply_body_def go_inv migrated_def dest!: exec_ddls_Inr)
      moreover have "r = Inr ()" "t = v" using \<open>a = Inr x\<close> Inr b Pair assms by (auto simp: apply_migration_def go_bind_def)
      ultimately show ?thesis using u by simp
    qed
  qed
qed

lemma apply_migration_runs:
  assumes "\<And>n. \<not> fault n" and "migrated m sc = Inr sc'"
  shows "\<exists>k. apply_migration fault m (n, sc) = (Inr (), (k, sc'))"
proof -
  from assms(2) obtain sc1 where 1: "exec_all (mi_stmts m) sc = Inr sc1"
    "record_version (mi_version m) (mi_name m) sc1 = Inr sc'"
    by (auto simp: migrated_def split: sum.splits)
  from exec_ddls_run [where fault = fault and n = "Suc n", OF assms(1) 1(1)] obtain k where
    "go_foreach (\<lambda>st. exec fault (exec_ddl st)) (mi_stmts m) (Suc n, sc) = (Inr (), (k, sc1))" by blast
  with 1(2) assms(1) show ?thesis
    by (simp add: apply_migration_def apply_body_def go_bind_def exec_run)
qed

section \<open>The migrations of the code\<close>

lemma migrations_len: "length migrations = 7"
  by (simp add: migrations_def)

lemma migrations_ok:
  "list_all (\<lambda>n. \<not> isl (migrated (migrations ! n) (schema_at n)) \<and> mi_version (migrations ! n) = Suc n) [0..<7]"
  by code_simp

lemma versions_ok: "list_all (\<lambda>n. map_option (\<lambda>vs. foldr max (map fst vs) 0) (sc_versions (schema_at n)) = Some n) [0..<8]"
  by code_simp

lemma migrations_step:
  assumes "n < 7"
  shows "migrated (migrations ! n) (schema_at n) = Inr (schema_at (Suc n))" "mi_version (migrations ! n) = Suc n"
proof -
  have "n \<in> set [0..<7]" using assms by simp
  then have "\<not> isl (migrated (migrations ! n) (schema_at n)) \<and> mi_version (migrations ! n) = Suc n"
    using migrations_ok unfolding list_all_iff by blast
  then show "migrated (migrations ! n) (schema_at n) = Inr (schema_at (Suc n))" "mi_version (migrations ! n) = Suc n"
    by (cases "migrated (migrations ! n) (schema_at n)"; simp add: schema_at.simps(2))+
qed

lemma versions_schema_at:
  assumes "n \<le> 7"
  obtains vs where "sc_versions (schema_at n) = Some vs" "foldr max (map fst vs) 0 = n"
proof -
  have "n \<in> set [0..<8]" using assms by simp
  then have "map_option (\<lambda>vs. foldr max (map fst vs) 0) (sc_versions (schema_at n)) = Some n"
    using versions_ok unfolding list_all_iff by blast
  with that show thesis by (cases "sc_versions (schema_at n)") auto
qed

lemma current_schema_at: "n \<le> 7 \<Longrightarrow> current_version (schema_at n) = Inr (n, schema_at n)"
  and create_schema_at: "n \<le> 7 \<Longrightarrow> create_versions (schema_at n) = Inr (schema_at n)"
  by (auto elim!: versions_schema_at simp: current_version_def create_versions_def)

lemma run_skips:
  "(\<And>m. m \<in> set xs \<Longrightarrow> mi_version m \<le> n) \<Longrightarrow> run_migrations fault n (xs @ ys) = run_migrations fault n ys"
  by (induction xs) auto

lemma run_from:
  assumes "n \<le> 7"
  shows "run_migrations fault n migrations = run_migrations fault n (drop n migrations)"
proof -
  have "mi_version m \<le> n" if "m \<in> set (take n migrations)" for m
    using that assms migrations_step(2) by (auto simp: in_set_conv_nth migrations_len)
  from run_skips [of "take n migrations" n fault "drop n migrations", OF this] show ?thesis by simp
qed

lemma run_to_latest:
  assumes "n \<le> k" and "k \<le> 7" and "run_migrations fault n (drop k migrations) (i, schema_at k) = (r, t)"
  shows "(r = Inr () \<longrightarrow> snd t = schema_at 7) \<and> (\<exists>j. k \<le> j \<and> j \<le> 7 \<and> snd t = schema_at j)"
  using assms
proof (induction "7 - k" arbitrary: k i)
  case 0
  then show ?case by (auto simp: migrations_len go_inv)
next
  case (Suc d)
  then have k: "k < 7" by simp
  then have d: "drop k migrations = migrations ! k # drop (Suc k) migrations"
    by (simp add: Cons_nth_drop_Suc migrations_len)
  obtain a u where a: "apply_migration fault (migrations ! k) (i, schema_at k) = (a, u)"
    by (cases "apply_migration fault (migrations ! k) (i, schema_at k)")
  from apply_migration_atomic [OF a] migrations_step(1) [OF k]
  consider e where "a = Inl e" "snd u = schema_at k" | "a = Inr ()" "snd u = schema_at (Suc k)"
    by (cases a) auto
  then show ?case
  proof cases
    case 1
    with Suc.prems a d k migrations_step(2) [OF k] show ?thesis
      by (auto simp: go_bind_def go_wrap_def)
  next
    case 2
    then have u: "u = (fst u, schema_at (Suc k))" by (metis prod.collapse)
    have "run_migrations fault n (drop (Suc k) migrations) u = (r, t)"
      using Suc.prems a d migrations_step(2) [OF k] 2 by (simp add: go_bind_def go_wrap_def)
    then have "run_migrations fault n (drop (Suc k) migrations) (fst u, schema_at (Suc k)) = (r, t)"
      by (simp only: u [symmetric])
    moreover have "d = 7 - Suc k" "n \<le> Suc k" "Suc k \<le> 7" using Suc.hyps(2) Suc.prems(1) k by auto
    ultimately have "(r = Inr () \<longrightarrow> snd t = schema_at 7) \<and> (\<exists>j. Suc k \<le> j \<and> j \<le> 7 \<and> snd t = schema_at j)"
      by (intro Suc.hyps(1))
    then show ?thesis using Suc_leD by blast
  qed
qed

lemma run_succeeds:
  assumes "\<And>n. \<not> fault n" and "n \<le> k" and "k \<le> 7"
  shows "fst (run_migrations fault n (drop k migrations) (i, schema_at k)) = Inr ()"
  using assms(2,3)
proof (induction "7 - k" arbitrary: k i)
  case 0
  then show ?case by (simp add: migrations_len go_defs)
next
  case (Suc d)
  then have k: "k < 7" by simp
  then have d: "drop k migrations = migrations ! k # drop (Suc k) migrations"
    by (simp add: Cons_nth_drop_Suc migrations_len)
  from apply_migration_runs [where fault = fault, OF assms(1) migrations_step(1) [OF k]] obtain j where
    "apply_migration fault (migrations ! k) (i, schema_at k) = (Inr (), (j, schema_at (Suc k)))" by blast
  moreover have "d = 7 - Suc k" "n \<le> Suc k" "Suc k \<le> 7" using Suc k by auto
  ultimately show ?case
    using Suc.hyps(1) [of "Suc k" j] d migrations_step(2) [OF k] Suc.prems(1) by (simp add: go_bind_def go_wrap_def)
qed

text \<open>C18: Opening a database of any earlier version brings it to the latest one or leaves it at a version:
  whichever statements fail, the schema after \<open>migrate\<close> is that of some version, never between
  two and never older than before; when \<open>migrate\<close> succeeds it is version seven, and it
  succeeds whenever no statement fails, so opening again after a failure goes on from there.\<close>

theorem migrate_reaches_latest:
  assumes "n \<le> 7" and "migrate fault (i, schema_at n) = (r, t)"
  shows "(\<exists>j. n \<le> j \<and> j \<le> 7 \<and> snd t = schema_at j) \<and> (r = Inr () \<longrightarrow> snd t = schema_at 7) \<and>
    ((\<forall>k. \<not> fault k) \<longrightarrow> r = Inr ())"
proof -
  have c: "create_versions (schema_at n) = Inr (schema_at n)" and v: "current_version (schema_at n) = Inr (n, schema_at n)"
    using assms(1) by (simp_all add: create_schema_at current_schema_at)
  consider "fault i" | "fault (Suc i)" "\<not> fault i" | "\<not> fault i" "\<not> fault (Suc i)" by blast
  then show ?thesis
  proof cases
    case 3
    then have "run_migrations fault n (drop n migrations) (Suc (Suc i), schema_at n) = (r, t)"
      using assms(2) c v by (simp add: migrate_def exec_def stmt_def go_bind_def go_wrap_def run_from [OF assms(1)])
    from run_to_latest [OF order_refl assms(1) this]
      run_succeeds [where fault = fault, of n n "Suc (Suc i)"] assms(1) this
    show ?thesis by auto
  qed (use assms c v in \<open>auto simp: migrate_def exec_def stmt_def go_bind_def go_wrap_def\<close>)
qed

end
