(* ===== verification/Frames.thy ===== *)
theory Frames
  imports "HOL-Library.Word" Json
begin

text \<open>
  The wire format of the event stream: \<open>writeHeader\<close> and \<open>MarshalFrame\<close> of
  \<open>internal/firehose/firehose.go\<close>, and the reader the operator console has for it,
  \<open>internal/admin/api_events.go\<close>. The CBOR heads and strings are cbor-gen's, the bodies are
  the generated code's: both are parameters.
\<close>

section \<open>CBOR\<close>

text \<open>\<open>ce_ops\<close> has \<open>None\<close> for a nil pointer in the list.\<close>

record commit_event =
  ce_seq :: int
  ce_repo :: string
  ce_rev :: string
  ce_time :: string
  ce_since :: "string option"
  ce_ops :: "(string \<times> string) option list"

record identity_event =
  ie_seq :: int
  ie_did :: string
  ie_handle :: "string option"
  ie_time :: string

record account_event =
  ae_seq :: int
  ae_did :: string
  ae_active :: bool
  ae_status :: "string option"
  ae_time :: string

record info_event =
  fe_name :: string
  fe_message :: "string option"

record cbor =
  cb_head :: "nat \<Rightarrow> nat \<Rightarrow> string"
  cb_read :: "string \<Rightarrow> go_error + nat \<times> nat \<times> string"
  cb_string :: "string \<Rightarrow> go_error + string \<times> string"
  cb_commit :: "string \<Rightarrow> go_error + commit_event"
  cb_identity :: "string \<Rightarrow> go_error + identity_event"
  cb_account :: "string \<Rightarrow> go_error + account_event"
  cb_info :: "string \<Rightarrow> go_error + info_event"

abbreviation (input) "MajUnsignedInt \<equiv> 0 :: nat"
abbreviation (input) "MajNegativeInt \<equiv> 1 :: nat"
abbreviation (input) "MajTextString \<equiv> 3 :: nat"
abbreviation (input) "MajMap \<equiv> 5 :: nat"

section \<open>Writing\<close>

definition write_string :: "cbor \<Rightarrow> string \<Rightarrow> string" where
  "write_string C s = cb_head C MajTextString (length s) @ s"

definition write_int64 :: "cbor \<Rightarrow> int \<Rightarrow> string" where
  "write_int64 C op =
     (if 0 \<le> op then cb_head C MajUnsignedInt (nat op) else cb_head C MajNegativeInt (nat (- op - 1)))"

definition writeHeader :: "cbor \<Rightarrow> int \<Rightarrow> string \<Rightarrow> string" where
  "writeHeader C op msgType =
     cb_head C MajMap (if msgType = [] then 1 else 2) @
     (if msgType \<noteq> [] then write_string C ''t'' @ write_string C msgType else []) @
     write_string C ''op'' @ write_int64 C op"

definition MarshalFrame :: "cbor \<Rightarrow> string \<Rightarrow> go_error + string \<Rightarrow> go_error + string" where
  "MarshalFrame C msgType body =
     (case body of Inl e \<Rightarrow> Inl e | Inr b \<Rightarrow> Inr (writeHeader C 1 msgType @ b))"

section \<open>Reading\<close>

text \<open>
  \<open>readInt64\<close>: the value as an int64. A negative integer is \<open>-1 - int64(val)\<close>, where the
  conversion of the 64-bit value wraps.
\<close>

definition readInt64 :: "cbor \<Rightarrow> string \<Rightarrow> go_error + int \<times> string" where
  "readInt64 C r =
     (case cb_read C r of
        Inl e \<Rightarrow> Inl e
      | Inr (maj, val, rest) \<Rightarrow>
          if maj = MajUnsignedInt then
            (if val > 2 ^ 63 - 1 then Inl (Failure ''integer overflow'') else Inr (int val, rest))
          else if maj = MajNegativeInt then Inr (sint (- 1 - (of_nat val :: 64 word)), rest)
          else Inl (Failure ''expected integer''))"

text \<open>The loop over the \<open>n\<close> entries of the map; the type and the kind read so far.\<close>

primrec header_entries :: "cbor \<Rightarrow> nat \<Rightarrow> string \<times> int \<Rightarrow> string \<Rightarrow> go_error + (string \<times> int) \<times> string" where
  "header_entries C 0 acc r = Inr (acc, r)"
| "header_entries C (Suc n) acc r =
     (case cb_string C r of
        Inl e \<Rightarrow> Inl e
      | Inr (key, r1) \<Rightarrow>
          if key = ''t'' then
            (case cb_string C r1 of Inl e \<Rightarrow> Inl e | Inr (t, r2) \<Rightarrow> header_entries C n (t, snd acc) r2)
          else if key = ''op'' then
            (case readInt64 C r1 of Inl e \<Rightarrow> Inl e | Inr (v, r2) \<Rightarrow> header_entries C n (fst acc, v) r2)
          else Inl (Failure ''unexpected event header key''))"

definition decodeHeader :: "cbor \<Rightarrow> string \<Rightarrow> go_error + (string \<times> int) \<times> string" where
  "decodeHeader C r =
     (case cb_read C r of
        Inl e \<Rightarrow> Inl e
      | Inr (maj, n, r1) \<Rightarrow>
          if maj \<noteq> MajMap then Inl (Failure ''expected map header'')
          else header_entries C n ([], 1) r1)"

definition opt_field :: "string \<Rightarrow> string option \<Rightarrow> (string \<times> json) list" where
  "opt_field k x = (case x of None \<Rightarrow> [] | Some s \<Rightarrow> [(k, JStr s)])"

definition commit_fields :: "commit_event \<Rightarrow> (string \<times> json) list" where
  "commit_fields v =
     (let ops = map (\<lambda>(a, p). JObj [(''action'', JStr a), (''path'', JStr p)]) (map the (filter (\<lambda>x. x \<noteq> None) (ce_ops v)))
      in [(''seq'', jint (ce_seq v)), (''did'', JStr (ce_repo v)), (''rev'', JStr (ce_rev v)), (''time'', JStr (ce_time v))] @
         opt_field ''since'' (ce_since v) @ [(''opCount'', jint (int (length ops))), (''ops'', JArr ops)])"

definition decodeEvent :: "cbor \<Rightarrow> string \<Rightarrow> go_error + json" where
  "decodeEvent C frame =
     (case decodeHeader C frame of
        Inl e \<Rightarrow> Inl e
      | Inr ((msgType, _), r) \<Rightarrow>
          let out = (\<lambda>kvs. Inr (JObj ((''type'', JStr msgType) # kvs))) in
          if msgType = ''#commit'' then
            (case cb_commit C r of Inl e \<Rightarrow> Inl e | Inr v \<Rightarrow> out (commit_fields v))
          else if msgType = ''#identity'' then
            (case cb_identity C r of Inl e \<Rightarrow> Inl e | Inr v \<Rightarrow>
               out ([(''seq'', jint (ie_seq v)), (''did'', JStr (ie_did v))] @ opt_field ''handle'' (ie_handle v) @
                 [(''time'', JStr (ie_time v))]))
          else if msgType = ''#account'' then
            (case cb_account C r of Inl e \<Rightarrow> Inl e | Inr v \<Rightarrow>
               out ([(''seq'', jint (ae_seq v)), (''did'', JStr (ae_did v)), (''active'', jbool (ae_active v))] @
                 opt_field ''status'' (ae_status v) @ [(''time'', JStr (ae_time v))]))
          else if msgType = ''#info'' then
            (case cb_info C r of Inl e \<Rightarrow> Inl e | Inr v \<Rightarrow>
               out ((''name'', JStr (fe_name v)) # opt_field ''message'' (fe_message v)))
          else out [])"

section \<open>Properties\<close>

text \<open>
  What cbor-gen documents of its heads and strings: a head of a major type and an argument
  below \<open>2^64\<close> reads back, and so does a text string of at most 8192 bytes (the reader's
  limit).
\<close>

definition cbor_reads :: "cbor \<Rightarrow> bool" where
  "cbor_reads C \<longleftrightarrow>
     (\<forall>m n r. m < 8 \<and> n < 2 ^ 64 \<longrightarrow> cb_read C (cb_head C m n @ r) = Inr (m, n, r)) \<and>
     (\<forall>s r. length s \<le> 8192 \<longrightarrow> cb_string C (write_string C s @ r) = Inr (s, r))"

lemma cbor_readsD:
  assumes "cbor_reads C"
  shows "m < 8 \<Longrightarrow> n < 2 ^ 64 \<Longrightarrow> cb_read C (cb_head C m n @ r) = Inr (m, n, r)"
    and "length s \<le> 8192 \<Longrightarrow> cb_string C (write_string C s @ r) = Inr (s, r)"
  using assms by (auto simp: cbor_reads_def)

lemma sint_in_range: "- (2 ^ 63) \<le> x \<Longrightarrow> x < 2 ^ 63 \<Longrightarrow> sint (of_int x :: 64 word) = x"
  by (simp add: int_word_sint)

lemma sint_neg:
  assumes "0 \<le> k" and "k < 2 ^ 63"
  shows "sint (- 1 - (of_int k :: 64 word)) = - 1 - k"
proof -
  have "- 1 - (of_int k :: 64 word) = of_int (- 1 - k)" by simp
  also have "sint \<dots> = - 1 - k" using assms by (intro sint_in_range) simp_all
  finally show ?thesis .
qed

lemma sint_wrapped:
  assumes "2 ^ 63 \<le> k" and "k < 2 ^ 64"
  shows "sint (- 1 - (of_int k :: 64 word)) = 2 ^ 64 - 1 - k"
proof -
  have "(of_int (2 ^ 64) :: 64 word) = 0" by simp
  then have "- 1 - (of_int k :: 64 word) = of_int (2 ^ 64 - 1 - k)" by simp
  also have "sint \<dots> = 2 ^ 64 - 1 - k" using assms by (intro sint_in_range) simp_all
  finally show ?thesis .
qed

lemma header_entries_2: "header_entries C 2 acc r = header_entries C (Suc (Suc 0)) acc r"
  and header_entries_1: "header_entries C 1 acc r = header_entries C (Suc 0) acc r"
  by (simp_all add: numeral_2_eq_2)

lemma readInt64_head:
  assumes "cbor_reads C" and "- (2 ^ 63) \<le> op" and "op < 2 ^ 63"
  shows "readInt64 C (write_int64 C op @ r) = Inr (op, r)"
proof (cases "0 \<le> op")
  case True
  then have "nat op < 2 ^ 64" "nat op \<le> 2 ^ 63 - 1" using assms(3) by simp_all
  with True show ?thesis by (simp add: readInt64_def write_int64_def cbor_readsD(1) [OF assms(1)])
next
  case False
  let ?k = "- op - 1"
  have k: "0 \<le> ?k" "?k < 2 ^ 63" and n: "nat ?k < 2 ^ 64" using False assms(2) by simp_all
  have "(of_nat (nat ?k) :: 64 word) = of_int ?k" using k(1) by simp
  with sint_neg [OF k] False show ?thesis
    by (simp add: readInt64_def write_int64_def cbor_readsD(1) [OF assms(1) _ n])
qed

text \<open>The console reads the headers the firehose writes: for every message type (up to the reader's
  string limit) and every int64 kind, \<open>decodeHeader\<close> gives back both and leaves the reader
  at the body.\<close>

theorem header_roundtrip:
  assumes "cbor_reads C" and "length msgType \<le> 8192" and "- (2 ^ 63) \<le> op" and "op < 2 ^ 63"
  shows "decodeHeader C (writeHeader C op msgType @ body) = Inr ((msgType, op), body)"
proof (cases "msgType = []")
  case True
  then show ?thesis
    using readInt64_head [OF assms(1,3,4), of body]
    by (simp add: writeHeader_def decodeHeader_def cbor_readsD [OF assms(1)])
next
  case False
  then show ?thesis
    using readInt64_head [OF assms(1,3,4), of body] assms(2)
    by (simp add: writeHeader_def decodeHeader_def cbor_readsD [OF assms(1)] header_entries_2)
qed

text \<open>Positive values out of range are refused, negative ones are not: the CBOR integer \<open>-1 - v\<close> with
  \<open>v\<close> at least \<open>2^63\<close> is read, without an error, as a number that is not negative.\<close>

theorem readInt64_negative_overflow:
  assumes "cbor_reads C" and "2 ^ 63 \<le> v" and "v < 2 ^ 64"
  shows "readInt64 C (cb_head C MajNegativeInt v @ r) = Inr (2 ^ 64 - 1 - int v, r) \<and> 0 \<le> 2 ^ 64 - 1 - int v \<and>
    readInt64 C (cb_head C MajUnsignedInt v @ r) = Inl (Failure ''integer overflow'')"
proof -
  have v: "2 ^ 63 \<le> int v" "int v < 2 ^ 64" using assms(2,3) by simp_all
  have "sint (- 1 - (of_nat v :: 64 word)) = 2 ^ 64 - 1 - int v" using sint_wrapped [OF v] by simp
  moreover have "v > 2 ^ 63 - 1" using assms(2) by simp
  ultimately show ?thesis
    using v by (simp add: readInt64_def cbor_readsD(1) [OF assms(1) _ assms(3)])
qed

end
