(* ===== verification/AppView.thy ===== *)
theory AppView
  imports RepoApi Accounts Config "HOL-Library.AList"
begin

text \<open>
  The AppView of the server, \<open>internal/api/appview.go\<close>, \<open>appview_viewer.go\<close> and the proxy of
  \<open>appview_search.go\<close>: profiles of local and remote accounts, preferences, and the viewer
  state, once by a query per item and once from a snapshot. A Go map with string keys is the
  list of its entries; a nil slice is \<open>None\<close>. Of two keys of an object that name the same
  field of a struct the last one counts.
\<close>

section \<open>Values of encoding/json\<close>

text \<open>\<open>m[k]\<close> of a \<open>map[string]any\<close>, also of a nil map, and \<open>m[k] = v\<close>.\<close>

definition member :: "string \<Rightarrow> json \<Rightarrow> json option" where
  "member k v = (case v of JObj m \<Rightarrow> map_of m k | _ \<Rightarrow> None)"

definition set_member :: "string \<Rightarrow> json \<Rightarrow> json \<Rightarrow> json" where
  "set_member k x v = (case v of JObj m \<Rightarrow> JObj (AList.update k x m) | _ \<Rightarrow> v)"

definition string_member :: "string \<Rightarrow> json \<Rightarrow> string" where
  "string_member k v = (case member k v of Some (JStr s) \<Rightarrow> s | _ \<Rightarrow> [])"

text \<open>A field of a struct: the entry whose key matches, ASCII letters in either case.\<close>

definition json_field :: "string \<Rightarrow> json \<Rightarrow> json" where
  "json_field k v =
     (case v of
        JObj m \<Rightarrow> (case filter (\<lambda>(x, y). nocase_eq x k) m of [] \<Rightarrow> jnull | es \<Rightarrow> snd (last es))
      | _ \<Rightarrow> jnull)"

definition string_field :: "string \<Rightarrow> json \<Rightarrow> string" where
  "string_field k v = (case json_field k v of JStr s \<Rightarrow> s | _ \<Rightarrow> [])"

text \<open>The value \<open>json.Unmarshal\<close> leaves in a fresh variable when its error is ignored.\<close>

definition read_or_null :: "'r env \<Rightarrow> bytes \<Rightarrow> json" where
  "read_or_null E b = (case json_read E b of Inl e \<Rightarrow> jnull | Inr v \<Rightarrow> v)"

definition is_map :: "json \<Rightarrow> bool" where
  "is_map v = (case v of JObj m \<Rightarrow> True | _ \<Rightarrow> v = jnull)"

text \<open>\<open>json.Unmarshal\<close> into a \<open>map[string]any\<close>: null leaves it nil.\<close>

definition read_map :: "'r env \<Rightarrow> bytes \<Rightarrow> go_error + json" where
  "read_map E b =
     (case json_read E b of
        Inl e \<Rightarrow> Inl e
      | Inr v \<Rightarrow> if is_map v then Inr v else Inl (Lib ''json: cannot unmarshal''))"

text \<open>A field of type \<open>[]map[string]any\<close>, of a value that is an object or null.\<close>

definition maps_field :: "string \<Rightarrow> json \<Rightarrow> go_error + json list option" where
  "maps_field k v =
     (if \<not> is_map v then Inl (Lib ''json: cannot unmarshal'')
      else case json_field k v of
        JArr xs \<Rightarrow> if list_all is_map xs then Inr (Some xs) else Inl (Lib ''json: cannot unmarshal'')
      | x \<Rightarrow> if x = jnull then Inr None else Inl (Lib ''json: cannot unmarshal''))"

definition slice_json :: "json list option \<Rightarrow> json" where
  "slice_json xs = (case xs of None \<Rightarrow> jnull | Some ys \<Rightarrow> JArr ys)"

definition slice_items :: "'a list option \<Rightarrow> 'a list" where
  "slice_items xs = (case xs of None \<Rightarrow> [] | Some ys \<Rightarrow> ys)"

definition slice_append :: "'a list option \<Rightarrow> 'a list \<Rightarrow> 'a list option" where
  "slice_append xs ys = (case xs of None \<Rightarrow> if ys = [] then None else Some ys | Some zs \<Rightarrow> Some (zs @ ys))"

text \<open>A loop that collects what the body yields.\<close>

primrec go_collect :: "('x \<Rightarrow> ('s, 'a list) go) \<Rightarrow> 'x list \<Rightarrow> ('s, 'a list) go" where
  "go_collect f [] = go_ret []"
| "go_collect f (x # xs) = go_bind (f x) (\<lambda>a. go_bind (go_collect f xs) (\<lambda>b. go_ret (a @ b)))"

section \<open>Text of net/url and of time\<close>

definition escape_char :: "char \<Rightarrow> string" where
  "escape_char c =
     (let n = of_char c :: nat in
      if is_digit c \<or> 65 \<le> n \<and> n \<le> 90 \<or> 97 \<le> n \<and> n \<le> 122 \<or> c \<in> set ''-_.~'' then [c]
      else if c = CHR '' '' then ''+''
      else [CHR ''%'', ''0123456789ABCDEF'' ! (n div 16), ''0123456789ABCDEF'' ! (n mod 16)])"

definition query_escape :: "string \<Rightarrow> string" where
  "query_escape s = concat (map escape_char s)"

definition trim_slashes :: "string \<Rightarrow> string" where
  "trim_slashes s = rev (dropWhile (\<lambda>c. c = CHR ''/'') (rev s))"

text \<open>The date of a day counted from 1 January 1970, and the text of an instant in UTC.\<close>

definition civil :: "int \<Rightarrow> int \<times> int \<times> int" where
  "civil days =
     (let z = days + 719468; era = z div 146097; doe = z mod 146097;
          yoe = (doe - doe div 1460 + doe div 36524 - doe div 146096) div 365;
          doy = doe - (365 * yoe + yoe div 4 - yoe div 100);
          mp = (5 * doy + 2) div 153; m = if mp < 10 then mp + 3 else mp - 9
      in (yoe + era * 400 + (if m \<le> 2 then 1 else 0), m, doy - (153 * mp + 2) div 5 + 1))"

definition padded :: "nat \<Rightarrow> int \<Rightarrow> string" where
  "padded w n = (let s = show_int n in replicate (w - length s) CHR ''0'' @ s)"

definition utc_seconds :: "int \<Rightarrow> string" where
  "utc_seconds t =
     (case civil (t div 86400) of (y, m, d) \<Rightarrow>
        padded 4 y @ ''-'' @ padded 2 m @ ''-'' @ padded 2 d @ ''T'' @ padded 2 (t mod 86400 div 3600) @ '':'' @
        padded 2 (t mod 3600 div 60) @ '':'' @ padded 2 (t mod 60))"

definition utc_rfc3339 :: "int \<Rightarrow> string" where
  "utc_rfc3339 t = utc_seconds t @ ''Z''"

definition utc_millis :: "int \<Rightarrow> string" where
  "utc_millis t = utc_seconds t @ ''.000Z''"

section \<open>The proxy\<close>

definition proxyXrpcGet :: "'r env \<Rightarrow> string \<Rightarrow> string \<Rightarrow> string \<Rightarrow> ('r pds, nat \<times> bytes) go" where
  "proxyXrpcGet E base nsid rawQuery =
     http_do E ''GET'' (trim_slashes base @ ''/xrpc/'' @ nsid @ (if rawQuery \<noteq> [] then CHR ''?'' # rawQuery else [])) []"

definition proxyXrpc :: "'r env \<Rightarrow> request \<Rightarrow> string \<Rightarrow> string \<Rightarrow> 'r handler" where
  "proxyXrpc E rq base nsid =
     on_error (proxyXrpcGet E base nsid (rq_raw_query rq))
       (\<lambda>_. XrpcError 502 ''UpstreamFailure'' (Text ''appview proxy unreachable'')) (\<lambda>(status, body).
     go_ret (Content status ''application/json'' body))"

text \<open>
  \<open>if err != nil || status != http.StatusOK\<close>, then a body that does not decode: both leave \<open>z\<close>.
\<close>

definition upstream_or :: "'a \<Rightarrow> 'r env \<Rightarrow> string \<Rightarrow> string \<Rightarrow> string \<Rightarrow> (bytes \<Rightarrow> go_error + 'a) \<Rightarrow> ('r pds, 'a) go" where
  "upstream_or z E base nsid rawQuery dec =
     go_bind (go_try (proxyXrpcGet E base nsid rawQuery)) (\<lambda>r.
     go_ret (case r of
        Inl e \<Rightarrow> z
      | Inr (status, body) \<Rightarrow> if status \<noteq> 200 then z else case dec body of Inl e \<Rightarrow> z | Inr x \<Rightarrow> x))"

section \<open>The viewer\<close>

definition optionalAuth :: "'r env \<Rightarrow> request \<Rightarrow> ('r pds, did) go" where
  "optionalAuth E rq =
     (case bearerToken rq of (token, ok) \<Rightarrow>
        if \<not> ok then go_ret [] else scan_or [] (parseAccessJWT E (mac_key E) token))"

text \<open>\<open>json_extract(value, path) = ?\<close> with a text, and \<open>json_extract(value, path)\<close> scanned into a string.\<close>

definition extract_is :: "'r env \<Rightarrow> string \<Rightarrow> string \<Rightarrow> record_row \<Rightarrow> bool" where
  "extract_is E path want r \<longleftrightarrow> json_extract E (rr_value r) path = SqlText want"

definition extract_text :: "'r env \<Rightarrow> string \<Rightarrow> record_row \<Rightarrow> string option" where
  "extract_text E path r =
     (case json_extract E (rr_value r) path of SqlNull \<Rightarrow> None | SqlText x \<Rightarrow> Some x | SqlNumber x \<Rightarrow> Some x)"

definition recordForSubject ::
  "'r env \<Rightarrow> did \<Rightarrow> string \<Rightarrow> string \<Rightarrow> string \<Rightarrow> ('r pds, string option) go" where
  "recordForSubject E did collection path want =
     scan_or None (sql E (q_rows (\<lambda>d. map_option rr_rkey (find (extract_is E path want) (records_in did collection d)))))"

definition likeURI :: "'r env \<Rightarrow> did \<Rightarrow> string \<Rightarrow> ('r pds, string option) go" where
  "likeURI E did postURI =
     go_bind (recordForSubject E did ''app.bsky.feed.like'' ''$.subject.uri'' postURI) (\<lambda>rkey.
     go_ret (map_option (\<lambda>k. ''at://'' @ did @ ''/app.bsky.feed.like/'' @ k) rkey))"

definition repostURI :: "'r env \<Rightarrow> did \<Rightarrow> string \<Rightarrow> ('r pds, string option) go" where
  "repostURI E did postURI =
     go_bind (recordForSubject E did ''app.bsky.feed.repost'' ''$.subject.uri'' postURI) (\<lambda>rkey.
     go_ret (map_option (\<lambda>k. ''at://'' @ did @ ''/app.bsky.feed.repost/'' @ k) rkey))"

definition blockURI :: "'r env \<Rightarrow> did \<Rightarrow> string \<Rightarrow> ('r pds, string option) go" where
  "blockURI E did subject =
     go_bind (recordForSubject E did ''app.bsky.graph.block'' ''$.subject'' subject) (\<lambda>rkey.
     go_ret (map_option (\<lambda>k. ''at://'' @ did @ ''/app.bsky.graph.block/'' @ k) rkey))"

definition hasFollow :: "'r env \<Rightarrow> did \<Rightarrow> string \<Rightarrow> ('r pds, bool) go" where
  "hasFollow E did subject =
     go_bind (recordForSubject E did ''app.bsky.graph.follow'' ''$.subject'' subject) (\<lambda>rkey. go_ret (rkey \<noteq> None))"

definition isMuted :: "'r env \<Rightarrow> did \<Rightarrow> string \<Rightarrow> ('r pds, bool) go" where
  "isMuted E did subject = scan_or False (sql E (q_rows (\<lambda>d. (did, subject) \<in> set (mutes d))))"

text \<open>An entry that is there or not.\<close>

definition entry :: "string \<Rightarrow> json option \<Rightarrow> (string \<times> json) list" where
  "entry k x = (case x of None \<Rightarrow> [] | Some v \<Rightarrow> [(k, v)])"

definition flag :: "bool \<Rightarrow> json \<Rightarrow> json option" where
  "flag b v = (if b then Some v else None)"

definition postViewer :: "'r env \<Rightarrow> did \<Rightarrow> string \<Rightarrow> ('r pds, json) go" where
  "postViewer E viewerDID postURI =
     (if viewerDID = [] then go_ret (JObj [])
      else
        go_bind (likeURI E viewerDID postURI) (\<lambda>like.
        go_bind (repostURI E viewerDID postURI) (\<lambda>repost.
        go_ret (JObj (entry ''like'' (map_option JStr like) @ entry ''repost'' (map_option JStr repost))))))"

definition profileViewer :: "'r env \<Rightarrow> did \<Rightarrow> did \<Rightarrow> ('r pds, json) go" where
  "profileViewer E viewerDID subjectDID =
     (if viewerDID = [] then go_ret (JObj [])
      else
        go_bind (hasFollow E viewerDID subjectDID) (\<lambda>following.
        go_bind (blockURI E viewerDID subjectDID) (\<lambda>blocking.
        go_bind (isMuted E viewerDID subjectDID) (\<lambda>muted.
        go_ret (JObj (entry ''following'' (flag following (JStr (''at://'' @ subjectDID))) @
          entry ''blocking'' (map_option JStr blocking) @ entry ''muted'' (flag muted (jbool True))))))))"

subsection \<open>The snapshot\<close>

record viewer_state =
  vs_likes :: "string \<rightharpoonup> string"
  vs_reposts :: "string \<rightharpoonup> string"
  vs_follows :: "string \<Rightarrow> bool"
  vs_blocks :: "string \<rightharpoonup> string"
  vs_mutes :: "string \<Rightarrow> bool"

definition no_viewer :: viewer_state where
  "no_viewer = \<lparr>vs_likes = Map.empty, vs_reposts = Map.empty, vs_follows = (\<lambda>x. False),
     vs_blocks = Map.empty, vs_mutes = (\<lambda>x. False)\<rparr>"

text \<open>The rows with a subject, and the map a loop over them fills: a later row overwrites an earlier one.\<close>

definition subject_rows :: "'r env \<Rightarrow> did \<Rightarrow> string \<Rightarrow> string \<Rightarrow> ('r pds, (string \<times> string) list) go" where
  "subject_rows E did collection path =
     scan_or [] (sql E (q_rows (\<lambda>d. List.map_filter
       (\<lambda>r. map_option (\<lambda>x. (rr_rkey r, x)) (extract_text E path r)) (records_in did collection d))))"

definition fill :: "string \<Rightarrow> (string \<times> string) list \<Rightarrow> string \<rightharpoonup> string" where
  "fill prefix rows = fold (\<lambda>(rkey, x) m. m(x \<mapsto> prefix @ rkey)) rows Map.empty"

definition mark :: "string list \<Rightarrow> string \<Rightarrow> bool" where
  "mark xs = fold (\<lambda>x m. m(x := True)) xs (\<lambda>x. False)"

definition muted_subjects :: "'r env \<Rightarrow> did \<Rightarrow> ('r pds, string list) go" where
  "muted_subjects E did = scan_or [] (sql E (q_rows (\<lambda>d. map snd (filter (\<lambda>r. fst r = did) (mutes d)))))"

definition loadViewerState :: "'r env \<Rightarrow> did \<Rightarrow> ('r pds, viewer_state) go" where
  "loadViewerState E did =
     (if did = [] then go_ret no_viewer
      else
        go_bind (subject_rows E did ''app.bsky.feed.like'' ''$.subject.uri'') (\<lambda>likes.
        go_bind (subject_rows E did ''app.bsky.feed.repost'' ''$.subject.uri'') (\<lambda>reposts.
        go_bind (subject_rows E did ''app.bsky.graph.follow'' ''$.subject'') (\<lambda>follows.
        go_bind (subject_rows E did ''app.bsky.graph.block'' ''$.subject'') (\<lambda>blocks.
        go_bind (muted_subjects E did) (\<lambda>muted.
        go_ret \<lparr>vs_likes = fill (''at://'' @ did @ ''/app.bsky.feed.like/'') likes,
          vs_reposts = fill (''at://'' @ did @ ''/app.bsky.feed.repost/'') reposts,
          vs_follows = mark (map snd follows),
          vs_blocks = fill (''at://'' @ did @ ''/app.bsky.graph.block/'') blocks,
          vs_mutes = mark muted\<rparr>))))))"

definition mergeViewer :: "json option \<Rightarrow> json" where
  "mergeViewer existing = (case existing of Some (JObj m) \<Rightarrow> JObj m | _ \<Rightarrow> JObj [])"

definition put_some :: "string \<Rightarrow> json option \<Rightarrow> json \<Rightarrow> json" where
  "put_some k x v = (case x of None \<Rightarrow> v | Some y \<Rightarrow> set_member k y v)"

definition injectPostViewer :: "viewer_state \<Rightarrow> json \<Rightarrow> json" where
  "injectPostViewer vs post =
     (let uri = string_member ''uri'' post in
      if uri = [] then post
      else set_member ''viewer''
        (put_some ''repost'' (map_option JStr (vs_reposts vs uri))
          (put_some ''like'' (map_option JStr (vs_likes vs uri)) (mergeViewer (member ''viewer'' post)))) post)"

definition injectProfileViewer :: "viewer_state \<Rightarrow> json \<Rightarrow> json" where
  "injectProfileViewer vs profile =
     (let did = string_member ''did'' profile in
      if did = [] then profile
      else set_member ''viewer''
        (put_some ''muted'' (flag (vs_mutes vs did) (jbool True))
          (put_some ''blocking'' (map_option JStr (vs_blocks vs did))
            (put_some ''following'' (flag (vs_follows vs did) (JStr (''at://'' @ did)))
              (mergeViewer (member ''viewer'' profile))))) profile)"

text \<open>\<open>if post, ok := item["post"].(map[string]any)\<close>.\<close>

definition inject_item :: "viewer_state \<Rightarrow> json \<Rightarrow> json" where
  "inject_item vs it =
     (case member ''post'' it of Some (JObj m) \<Rightarrow> set_member ''post'' (injectPostViewer vs (JObj m)) it | _ \<Rightarrow> it)"

definition injectFeed :: "viewer_state \<Rightarrow> json list option \<Rightarrow> json list option" where
  "injectFeed vs = map_option (map (inject_item vs))"

text \<open>The value of an entry is smaller than the object: the recursion into the replies ends.\<close>

lemma map_of_size: "map_of m k = Some v \<Longrightarrow> size v < Suc (size_list (size_prod (\<lambda>x. 0) size) m)"
  by (induction m) (auto split: if_splits)

lemma reply_size [termination_simp]:
  assumes "map_of m k = Some (JArr xs)" and "x \<in> set xs"
  shows "size x < size (JObj m)"
proof -
  have "size x < Suc (size_list size xs)" using assms(2) by (simp add: size_list_estimation' less_Suc_eq_le)
  then show ?thesis using map_of_size [OF assms(1)] by simp
qed

function injectThread :: "viewer_state \<Rightarrow> json \<Rightarrow> json" where
  "injectThread vs (JObj m) =
     (let t = inject_item vs (JObj m) in
      case map_of m ''replies'' of
        Some (JArr xs) \<Rightarrow> set_member ''replies'' (JArr (map (injectThread vs) xs)) t
      | _ \<Rightarrow> t)"
| "injectThread vs (JStruct m) = JStruct m"
| "injectThread vs (JArr xs) = JArr xs"
| "injectThread vs (JStr x) = JStr x"
| "injectThread vs (JScalar x) = JScalar x"
| "injectThread vs (JRaw x) = JRaw x"
| "injectThread vs (JDecoded x) = JDecoded x"
  by pat_completeness auto
termination
  by (relation "measure (size \<circ> snd)") (simp_all only: in_measure o_apply snd_conv reply_size wf_measure)

section \<open>Profiles\<close>

definition resolveActorDID :: "'r env \<Rightarrow> string \<Rightarrow> ('r pds, did \<times> bool) go" where
  "resolveActorDID E actor =
     (if actor = [] then go_raise (Failure ''actor is required'')
      else if has_prefix actor ''did:'' then
        go_bind (go_try (sql E (q_row (account_of actor)))) (\<lambda>r. go_ret (actor, \<not> isl r))
      else
        go_bind (go_try (sql E (q_row (find_account (\<lambda>a. acc_handle a = actor))))) (\<lambda>r.
        case r of
          Inr a \<Rightarrow> go_ret (acc_did a, True)
        | Inl e \<Rightarrow>
            (case syntax_handle E actor of
               Inl e \<Rightarrow> go_raise (Failure ''profile not found'')
             | Inr h \<Rightarrow>
                 go_bind (go_try (lookup_step E h)) (\<lambda>ident.
                 case ident of
                   Inl e \<Rightarrow> go_raise (Failure ''profile not found'')
                 | Inr did \<Rightarrow> go_ret (did, False)))))"

definition isLocal :: "'r env \<Rightarrow> did \<Rightarrow> ('r pds, bool) go" where
  "isLocal E did = go_bind (go_try (sql E (q_row (account_of did)))) (\<lambda>r. go_ret (\<not> isl r))"

definition parseLimit :: "request \<Rightarrow> nat \<Rightarrow> nat \<Rightarrow> nat" where
  "parseLimit rq def most =
     (let v = query_get rq ''limit'' in
      if v = [] then def
      else case parse_int64 v of
        Inl e \<Rightarrow> def
      | Inr n \<Rightarrow> if n \<le> 0 then def else if n > int most then most else nat n)"

definition blobURL :: "config \<Rightarrow> did \<Rightarrow> json \<Rightarrow> string" where
  "blobURL cfg did ref =
     (let link = string_field ''$link'' (json_field ''ref'' ref) in
      if link = [] then []
      else PublicURL cfg @ ''/xrpc/com.atproto.sync.getBlob?did='' @ query_escape did @ ''&cid='' @ query_escape link)"

record profile_record =
  pf_display_name :: string
  pf_description :: string
  pf_avatar :: string
  pf_banner :: string
  pf_pinned :: "json option"

definition no_profile :: profile_record where
  "no_profile = \<lparr>pf_display_name = [], pf_description = [], pf_avatar = [], pf_banner = [], pf_pinned = None\<rparr>"

definition profile_of :: "config \<Rightarrow> did \<Rightarrow> json \<Rightarrow> profile_record" where
  "profile_of cfg did p =
     (let pin = json_field ''pinnedPost'' p; uri = string_field ''uri'' pin in
      \<lparr>pf_display_name = string_field ''displayName'' p, pf_description = string_field ''description'' p,
       pf_avatar = blobURL cfg did (json_field ''avatar'' p), pf_banner = blobURL cfg did (json_field ''banner'' p),
       pf_pinned = (if uri = [] then None
         else Some (JObj [(''uri'', JStr uri), (''cid'', JStr (string_field ''cid'' pin))]))\<rparr>)"

definition profileRecord :: "'r env \<Rightarrow> config \<Rightarrow> did \<Rightarrow> ('r pds, profile_record) go" where
  "profileRecord E cfg did =
     go_bind (go_try (GetRecord E did ''app.bsky.actor.profile'' ''self'')) (\<lambda>r.
     go_ret (case r of Inl e \<Rightarrow> no_profile | Inr (c, value) \<Rightarrow> profile_of cfg did (read_or_null E value)))"

definition text_entry :: "string \<Rightarrow> string \<Rightarrow> (string \<times> json) list" where
  "text_entry k x = (if x = [] then [] else [(k, JStr x)])"

text \<open>\<open>None\<close> is a nil map.\<close>

definition profileBasic :: "'r env \<Rightarrow> config \<Rightarrow> did \<Rightarrow> did \<Rightarrow> ('r pds, json option) go" where
  "profileBasic E cfg did viewerDID =
     go_bind (go_try (sql E (q_row (account_of did)))) (\<lambda>r.
     case r of
       Inl e \<Rightarrow> go_ret None
     | Inr a \<Rightarrow>
         go_bind (profileRecord E cfg did) (\<lambda>p.
         go_bind (if viewerDID = [] then go_ret [] else
           go_bind (profileViewer E viewerDID did) (\<lambda>v. go_ret [(''viewer'', v)])) (\<lambda>viewer.
         go_ret (Some (JObj ([(''did'', JStr did), (''handle'', JStr (acc_handle a))] @
           text_entry ''displayName'' (pf_display_name p) @ text_entry ''avatar'' (pf_avatar p) @ viewer))))))"

definition countCollection :: "'r env \<Rightarrow> did \<Rightarrow> string \<Rightarrow> ('r pds, nat) go" where
  "countCollection E did collection = scan_or 0 (sql E (q_rows (\<lambda>d. length (records_in did collection d))))"

definition countFollowers :: "'r env \<Rightarrow> did \<Rightarrow> ('r pds, nat) go" where
  "countFollowers E did = scan_or 0 (sql E (q_rows (\<lambda>d. length (filter
     (\<lambda>r. rr_collection r = ''app.bsky.graph.follow'' \<and> extract_is E ''$.subject'' did r) (repo_records d)))))"

definition countMatches :: "'r env \<Rightarrow> did \<Rightarrow> string \<Rightarrow> string \<Rightarrow> string \<Rightarrow> ('r pds, nat) go" where
  "countMatches E did collection path want =
     scan_or 0 (sql E (q_rows (\<lambda>d. length (filter (extract_is E path want) (records_in did collection d)))))"

definition indexed_at :: "stamp \<Rightarrow> string" where
  "indexed_at st = (case st of Stamp t \<Rightarrow> utc_millis t | BadStamp x \<Rightarrow> x)"

definition profileDetailed :: "'r env \<Rightarrow> config \<Rightarrow> did \<Rightarrow> did \<Rightarrow> ('r pds, json option) go" where
  "profileDetailed E cfg did viewerDID =
     go_bind (go_try (sql E (q_row (account_of did)))) (\<lambda>r.
     case r of
       Inl e \<Rightarrow> go_ret None
     | Inr a \<Rightarrow>
         go_bind (profileRecord E cfg did) (\<lambda>p.
         go_bind (countCollection E did ''app.bsky.feed.post'') (\<lambda>posts.
         go_bind (countCollection E did ''app.bsky.graph.follow'') (\<lambda>follows.
         go_bind (countFollowers E did) (\<lambda>followers.
         go_bind (profileViewer E viewerDID did) (\<lambda>viewer.
         go_ret (Some (JObj ([(''did'', JStr did), (''handle'', JStr (acc_handle a)),
           (''followersCount'', jint (int followers)), (''followsCount'', jint (int follows)),
           (''postsCount'', jint (int posts)), (''indexedAt'', JStr (indexed_at (acc_created_at a))),
           (''viewer'', viewer), (''labels'', JArr [])] @
           text_entry ''displayName'' (pf_display_name p) @ text_entry ''description'' (pf_description p) @
           text_entry ''avatar'' (pf_avatar p) @ text_entry ''banner'' (pf_banner p) @
           entry ''pinnedPost'' (pf_pinned p))))))))))"

definition remoteProfile :: "'r env \<Rightarrow> config \<Rightarrow> did \<Rightarrow> ('r pds, json option) go" where
  "remoteProfile E cfg did =
     (if AppviewProxyURL cfg = [] then go_ret None
      else upstream_or None E (AppviewProxyURL cfg) ''app.bsky.actor.getProfile'' (''actor='' @ query_escape did)
        (\<lambda>body. case read_map E body of Inl e \<Rightarrow> Inl e | Inr v \<Rightarrow> Inr (Some v)))"

definition profile_not_found :: response where
  "profile_not_found = XrpcError 400 ''ProfileNotFound'' (Text ''profile not found'')"

definition writeAppviewError :: "go_error \<Rightarrow> response" where
  "writeAppviewError e =
     (if e = Failure ''actor is required'' then XrpcError 400 ''InvalidRequest'' (Text ''actor is required'')
      else profile_not_found)"

definition HandleAppBskyGetProfile :: "'r env \<Rightarrow> config \<Rightarrow> request \<Rightarrow> 'r handler" where
  "HandleAppBskyGetProfile E cfg rq =
     go_bind (optionalAuth E rq) (\<lambda>viewerDID.
     on_error (resolveActorDID E (query_get rq ''actor'')) writeAppviewError (\<lambda>(did, local).
     if local then
       go_bind (profileDetailed E cfg did viewerDID) (\<lambda>profile.
       case profile of None \<Rightarrow> go_ret profile_not_found | Some p \<Rightarrow> WriteJSON p)
     else
       go_bind (remoteProfile E cfg did) (\<lambda>profile.
       case profile of
         None \<Rightarrow> go_ret profile_not_found
       | Some p \<Rightarrow> go_bind (loadViewerState E viewerDID) (\<lambda>vs. WriteJSON (injectProfileViewer vs p)))))"

definition HandleAppBskyGetProfiles :: "'r env \<Rightarrow> config \<Rightarrow> request \<Rightarrow> 'r handler" where
  "HandleAppBskyGetProfiles E cfg rq =
     go_bind (optionalAuth E rq) (\<lambda>viewerDID.
     go_bind (loadViewerState E viewerDID) (\<lambda>vs.
     go_bind (go_collect (\<lambda>actor.
       go_bind (go_try (resolveActorDID E actor)) (\<lambda>r.
       case r of
         Inl e \<Rightarrow> go_ret []
       | Inr (did, local) \<Rightarrow>
           if local then go_bind (profileDetailed E cfg did viewerDID) (\<lambda>p. go_ret (case p of None \<Rightarrow> [] | Some x \<Rightarrow> [x]))
           else go_bind (remoteProfile E cfg did) (\<lambda>p.
             go_ret (case p of None \<Rightarrow> [] | Some x \<Rightarrow> [injectProfileViewer vs x]))))
       (str_split '','' (query_get rq ''actors''))) (\<lambda>profiles.
     WriteJSON (JObj [(''profiles'', JArr profiles)]))))"

section \<open>Preferences\<close>

definition loadPreferences :: "'r env \<Rightarrow> did \<Rightarrow> ('r pds, json) go" where
  "loadPreferences E did =
     go_bind (go_try (sql E (q_row (\<lambda>d. map_of (app_preferences d) did)))) (\<lambda>r.
     go_ret (case r of
        Inl e \<Rightarrow> JArr []
      | Inr raw \<Rightarrow> (case json_read E raw of
          Inl e \<Rightarrow> JArr []
        | Inr v \<Rightarrow> (case v of JArr xs \<Rightarrow> JArr xs | _ \<Rightarrow> if v = jnull then jnull else JArr []))))"

text \<open>The foreign key of \<open>app_preferences\<close> holds the account.\<close>

definition upsert_preferences :: "did \<Rightarrow> bytes \<Rightarrow> (database, unit) go" where
  "upsert_preferences did raw = q_try (\<lambda>d.
     if \<not> tbl_has acc_did did (accounts d) then Inl SqlConstraint
     else Inr (d\<lparr>app_preferences := tbl_upsert fst (did, raw) (app_preferences d)\<rparr>))"

definition savePreferences :: "'r env \<Rightarrow> did \<Rightarrow> bytes \<Rightarrow> ('r pds, unit) go" where
  "savePreferences E did raw = sql E (upsert_preferences did raw)"

definition HandleAppBskyGetPreferences :: "'r env \<Rightarrow> request \<Rightarrow> 'r handler" where
  "HandleAppBskyGetPreferences E rq =
     requireAuth E rq (\<lambda>did.
     go_bind (loadPreferences E did) (\<lambda>prefs.
     WriteJSON (JObj [(''preferences'', prefs)])))"

text \<open>\<open>in.Preferences\<close>, the bytes of the field; they are empty when the body has no such field.\<close>

definition HandleAppBskyPutPreferences :: "'r env \<Rightarrow> request \<Rightarrow> go_error + bytes \<Rightarrow> 'r handler" where
  "HandleAppBskyPutPreferences E rq body =
     requireAuth E rq (\<lambda>did.
     DecodeBody body (\<lambda>raw.
     case json_read E raw of
       Inr (JArr xs) \<Rightarrow>
         on_error (savePreferences E did raw) internal_error (\<lambda>_. WriteJSON (JObj []))
     | _ \<Rightarrow> WriteXRPCError 400 ''InvalidRequest'' (Text ''preferences must be an array'')))"

end
