(* ===== verification/Feed.thy ===== *)
theory Feed
  imports AppView
begin

text \<open>
  Posts and the graph of the AppView: \<open>internal/api/appview_feed.go\<close>, \<open>appview_graph.go\<close>,
  \<open>appview_misc.go\<close> and the search of \<open>appview_search.go\<close>. A thread of local posts is built to a
  depth of five replies.
\<close>

section \<open>Posts\<close>

definition postCollection :: string where
  "postCollection = ''app.bsky.feed.post''"

definition parsePostURI :: "string \<Rightarrow> (did \<times> string) option" where
  "parsePostURI uri =
     (case cut_prefix uri ''at://'' of (rest, found) \<Rightarrow>
        if \<not> found then None
        else case str_split ''/'' rest of
          [p0, p1, p2] \<Rightarrow> if p1 = postCollection then Some (p0, p2) else None
        | _ \<Rightarrow> None)"

definition post_uri :: "did \<Rightarrow> string \<Rightarrow> string" where
  "post_uri did rkey = ''at://'' @ did @ ''/'' @ postCollection @ ''/'' @ rkey"

definition post_record :: "'r env \<Rightarrow> bytes \<Rightarrow> json" where
  "post_record E value =
     (let v = (case read_map E value of Inr (JObj m) \<Rightarrow> JObj m | _ \<Rightarrow> JObj [])
      in if member ''$type'' v = None then set_member ''$type'' (JStr postCollection) v else v)"

definition postView :: "'r env \<Rightarrow> config \<Rightarrow> did \<Rightarrow> string \<Rightarrow> string \<Rightarrow> bytes \<Rightarrow> did \<Rightarrow> ('r pds, json option) go" where
  "postView E cfg did rkey cid value viewerDID =
     go_bind (profileBasic E cfg did viewerDID) (\<lambda>author.
     case author of
       None \<Rightarrow> go_ret None
     | Some a \<Rightarrow>
         (let uri = post_uri did rkey; rec = post_record E value; ca = string_member ''createdAt'' rec in
          go_bind (time_now E) (\<lambda>now.
          go_bind (countMatches E did postCollection ''$.reply.parent.uri'' uri) (\<lambda>replies.
          go_bind (countMatches E did ''app.bsky.feed.repost'' ''$.subject.uri'' uri) (\<lambda>reposts.
          go_bind (countMatches E did ''app.bsky.feed.like'' ''$.subject.uri'' uri) (\<lambda>likes.
          go_bind (postViewer E viewerDID uri) (\<lambda>viewer.
          go_ret (Some (JObj
            [(''uri'', JStr uri), (''cid'', JStr cid), (''author'', a), (''record'', rec),
             (''replyCount'', jint (int replies)), (''repostCount'', jint (int reposts)), (''likeCount'', jint (int likes)),
             (''indexedAt'', JStr (if ca = [] then utc_rfc3339 now else ca)), (''viewer'', viewer), (''labels'', JArr [])])))))))))"

definition postMatchesFilter :: "json \<Rightarrow> string \<Rightarrow> bool" where
  "postMatchesFilter rec flt =
     (if flt = ''posts_no_replies'' then member ''reply'' rec = None
      else if flt = ''posts_with_media'' then member ''embed'' rec \<noteq> None
      else True)"

text \<open>A nil map is null, and the list of none or one item an optional one adds to a slice.\<close>

definition map_json :: "json option \<Rightarrow> json" where
  "map_json x = (case x of None \<Rightarrow> jnull | Some v \<Rightarrow> v)"

definition some_items :: "'a option \<Rightarrow> 'a list" where
  "some_items x = (case x of None \<Rightarrow> [] | Some v \<Rightarrow> [v])"

section \<open>Feeds\<close>

definition feed_item ::
  "'r env \<Rightarrow> config \<Rightarrow> did \<Rightarrow> did \<Rightarrow> string \<Rightarrow> list_item \<Rightarrow> ('r pds, json list) go" where
  "feed_item E cfg did viewerDID flt it =
     (if \<not> postMatchesFilter (case read_map E (li_value it) of Inl e \<Rightarrow> jnull | Inr v \<Rightarrow> v) flt then go_ret []
      else
        go_bind (postView E cfg did (li_rkey it) (li_cid it) (li_value it) viewerDID) (\<lambda>pv.
        go_ret (map (\<lambda>v. JObj [(''post'', v)]) (some_items pv))))"

definition buildFeed ::
  "'r env \<Rightarrow> config \<Rightarrow> did \<Rightarrow> string \<Rightarrow> nat \<Rightarrow> did \<Rightarrow> string \<Rightarrow> ('r pds, json list option \<times> string option) go" where
  "buildFeed E cfg did cursor limit viewerDID flt =
     go_bind (go_try (ListRecordsDesc E did postCollection cursor limit)) (\<lambda>r.
     case r of
       Inl e \<Rightarrow> go_ret (None, None)
     | Inr (items, next) \<Rightarrow>
         go_bind (go_collect (feed_item E cfg did viewerDID flt) items) (\<lambda>feed. go_ret (Some feed, next)))"

definition writeFeed :: "json list option \<Rightarrow> string option \<Rightarrow> 'r handler" where
  "writeFeed feed cursor = WriteJSON (with_cursor [(''feed'', slice_json feed)] cursor)"

definition postCreatedAt :: "json \<Rightarrow> string" where
  "postCreatedAt it =
     (case member ''post'' it of
        None \<Rightarrow> []
      | Some p \<Rightarrow> (case member ''record'' p of None \<Rightarrow> [] | Some rec \<Rightarrow> string_member ''createdAt'' rec))"

definition followedDIDs :: "'r env \<Rightarrow> did \<Rightarrow> ('r pds, did list) go" where
  "followedDIDs E did =
     scan_or [] (sql E (q_rows (\<lambda>d. filter (\<lambda>x. x \<noteq> [])
       (map (\<lambda>r. string_field ''subject'' (read_or_null E (rr_value r)))
         (records_in did ''app.bsky.graph.follow'' d)))))"

definition read_feed :: "'r env \<Rightarrow> bytes \<Rightarrow> go_error + json list option" where
  "read_feed E body = (case json_read E body of Inl e \<Rightarrow> Inl e | Inr v \<Rightarrow> maps_field ''feed'' v)"

definition remoteAuthorFeed :: "'r env \<Rightarrow> config \<Rightarrow> did \<Rightarrow> nat \<Rightarrow> ('r pds, json list) go" where
  "remoteAuthorFeed E cfg did limit =
     (if AppviewProxyURL cfg = [] then go_ret []
      else go_bind (upstream_or None E (AppviewProxyURL cfg) ''app.bsky.feed.getAuthorFeed''
          (''actor='' @ query_escape did @ ''&limit='' @ show_nat limit) (read_feed E)) (\<lambda>feed.
        go_ret (slice_items feed)))"

text \<open>\<open>sort.SliceStable\<close> with \<open>>\<close> on a key.\<close>

definition stable_desc :: "('a \<Rightarrow> 'k :: linorder) \<Rightarrow> 'a list \<Rightarrow> 'a list" where
  "stable_desc key xs = rev (sort_key key (rev xs))"

definition timeline_page :: "string \<Rightarrow> nat \<Rightarrow> json list \<Rightarrow> go_error + (json list \<times> string option)" where
  "timeline_page cursor limit items =
     cut_page postCreatedAt limit (if cursor = [] then items else filter (\<lambda>it. postCreatedAt it < cursor) items)"

text \<open>Own posts, then those of the followed accounts, with the viewer state.\<close>

definition timeline_items :: "'r env \<Rightarrow> config \<Rightarrow> did \<Rightarrow> ('r pds, json list option) go" where
  "timeline_items E cfg did =
     go_bind (buildFeed E cfg did [] 50 did []) (\<lambda>(own, c).
     go_bind (followedDIDs E did) (\<lambda>follows.
     go_bind (go_collect (\<lambda>fd. remoteAuthorFeed E cfg fd 30) follows) (\<lambda>remote.
     go_bind (loadViewerState E did) (\<lambda>vs.
     go_ret (injectFeed vs (slice_append own remote))))))"

definition timeline ::
  "'r env \<Rightarrow> config \<Rightarrow> did \<Rightarrow> string \<Rightarrow> nat \<Rightarrow> ('r pds, json list option \<times> string option) go" where
  "timeline E cfg did cursor limit =
     go_bind (timeline_items E cfg did) (\<lambda>items.
     case items of
       None \<Rightarrow> go_ret (None, None)
     | Some its \<Rightarrow>
         go_bind (go_of (timeline_page cursor limit (stable_desc postCreatedAt its))) (\<lambda>(page, next).
         go_ret (Some page, next)))"

definition HandleAppBskyGetTimeline :: "'r env \<Rightarrow> config \<Rightarrow> request \<Rightarrow> 'r handler" where
  "HandleAppBskyGetTimeline E cfg rq =
     requireAuth E rq (\<lambda>did.
     go_bind (timeline E cfg did (query_get rq ''cursor'') (parseLimit rq 50 100)) (\<lambda>(feed, cursor).
     writeFeed feed cursor))"

text \<open>A page of the upstream: its feed and its cursor.\<close>

definition read_page :: "'r env \<Rightarrow> bytes \<Rightarrow> go_error + (json list option \<times> string option) option" where
  "read_page E body =
     (case json_read E body of
        Inl e \<Rightarrow> Inl e
      | Inr v \<Rightarrow>
          (case maps_field ''feed'' v of
             Inl e \<Rightarrow> Inl e
           | Inr feed \<Rightarrow>
               (case json_field ''cursor'' v of
                  JStr c \<Rightarrow> Inr (Some (feed, Some c))
                | x \<Rightarrow> if x = jnull then Inr (Some (feed, None)) else Inl (Lib ''json: cannot unmarshal''))))"

definition remote_page :: "'r env \<Rightarrow> config \<Rightarrow> request \<Rightarrow> did \<Rightarrow> string \<Rightarrow> 'r handler" where
  "remote_page E cfg rq viewerDID nsid =
     (if AppviewProxyURL cfg = [] then writeFeed (Some []) None
      else
        go_bind (upstream_or None E (AppviewProxyURL cfg) nsid (rq_raw_query rq) (read_page E)) (\<lambda>r.
        case r of
          None \<Rightarrow> writeFeed (Some []) None
        | Some (feed, cursor) \<Rightarrow> go_bind (loadViewerState E viewerDID) (\<lambda>vs. writeFeed (injectFeed vs feed) cursor)))"

definition HandleAppBskyGetAuthorFeed :: "'r env \<Rightarrow> config \<Rightarrow> request \<Rightarrow> 'r handler" where
  "HandleAppBskyGetAuthorFeed E cfg rq =
     go_bind (optionalAuth E rq) (\<lambda>viewerDID.
     on_error (resolveActorDID E (query_get rq ''actor'')) writeAppviewError (\<lambda>(did, local).
     if local then
       go_bind (buildFeed E cfg did (query_get rq ''cursor'') (parseLimit rq 50 100) viewerDID (query_get rq ''filter'')) (\<lambda>(feed, cursor).
       writeFeed feed cursor)
     else remote_page E cfg rq viewerDID ''app.bsky.feed.getAuthorFeed''))"

definition HandleAppBskyGetFeed :: "'r env \<Rightarrow> config \<Rightarrow> request \<Rightarrow> 'r handler" where
  "HandleAppBskyGetFeed E cfg rq =
     go_bind (optionalAuth E rq) (\<lambda>viewerDID. remote_page E cfg rq viewerDID ''app.bsky.feed.getFeed'')"

section \<open>Threads\<close>

definition notFoundPost :: "string \<Rightarrow> json" where
  "notFoundPost uri =
     JObj [(''$type'', JStr ''app.bsky.feed.defs#notFoundPost''), (''uri'', JStr uri), (''notFound'', jbool True)]"

definition reply_rkeys :: "'r env \<Rightarrow> did \<Rightarrow> string \<Rightarrow> ('r pds, string list) go" where
  "reply_rkeys E did parentURI = sql E (q_rows (\<lambda>d.
     map rr_rkey (order_asc rr_rkey (filter (extract_is E ''$.reply.parent.uri'' parentURI) (records_in did postCollection d)))))"

text \<open>\<open>threadView\<close> with the loop of \<open>replyThreads\<close> in it; the argument counts the depth down.\<close>

primrec threadView :: "'r env \<Rightarrow> config \<Rightarrow> did \<Rightarrow> did \<Rightarrow> nat \<Rightarrow> string \<Rightarrow> ('r pds, json) go" where
  "threadView E cfg did viewerDID 0 rkey =
     go_bind (go_try (GetRecord E did postCollection rkey)) (\<lambda>r.
     case r of
       Inl e \<Rightarrow> go_ret (notFoundPost (post_uri did rkey))
     | Inr (c, value) \<Rightarrow>
         go_bind (postView E cfg did rkey c value viewerDID) (\<lambda>pv. go_ret (JObj [(''post'', map_json pv)])))"
| "threadView E cfg did viewerDID (Suc depth) rkey =
     go_bind (go_try (GetRecord E did postCollection rkey)) (\<lambda>r.
     case r of
       Inl e \<Rightarrow> go_ret (notFoundPost (post_uri did rkey))
     | Inr (c, value) \<Rightarrow>
         go_bind (postView E cfg did rkey c value viewerDID) (\<lambda>pv.
         go_bind (go_try (reply_rkeys E did (post_uri did rkey))) (\<lambda>ks.
         case ks of
           Inl e \<Rightarrow> go_ret (JObj [(''post'', map_json pv), (''replies'', jnull)])
         | Inr rkeys \<Rightarrow>
             go_bind (go_collect (\<lambda>k. go_bind (threadView E cfg did viewerDID depth k) (\<lambda>t. go_ret [t])) rkeys) (\<lambda>ts.
             go_ret (JObj [(''post'', map_json pv), (''replies'', JArr ts)])))))"

definition HandleAppBskyGetPostThread :: "'r env \<Rightarrow> config \<Rightarrow> request \<Rightarrow> 'r handler" where
  "HandleAppBskyGetPostThread E cfg rq =
     go_bind (optionalAuth E rq) (\<lambda>viewerDID.
     let uri = query_get rq ''uri'' in
     case parsePostURI uri of
       None \<Rightarrow> WriteXRPCError 400 ''InvalidRequest'' (Text ''invalid uri'')
     | Some (did, rkey) \<Rightarrow>
         go_bind (isLocal E did) (\<lambda>local.
         if local then go_bind (threadView E cfg did viewerDID 5 rkey) (\<lambda>t. WriteJSON (JObj [(''thread'', t)]))
         else if AppviewProxyURL cfg = [] then WriteJSON (JObj [(''thread'', notFoundPost uri)])
         else
           go_bind (upstream_or None E (AppviewProxyURL cfg) ''app.bsky.feed.getPostThread'' (rq_raw_query rq)
             (\<lambda>body. case read_map E body of Inl e \<Rightarrow> Inl e | Inr v \<Rightarrow> Inr (Some v))) (\<lambda>r.
           case r of
             None \<Rightarrow> WriteJSON (JObj [(''thread'', notFoundPost uri)])
           | Some out \<Rightarrow>
               (case member ''thread'' out of
                  Some (JObj m) \<Rightarrow> go_bind (loadViewerState E viewerDID) (\<lambda>vs.
                    WriteJSON (set_member ''thread'' (injectThread vs (JObj m)) out))
                | _ \<Rightarrow> WriteJSON out))))"

section \<open>Posts, likes and follows\<close>

definition local_post :: "'r env \<Rightarrow> config \<Rightarrow> did \<Rightarrow> string \<Rightarrow> ('r pds, json list) go" where
  "local_post E cfg viewerDID uri =
     (case parsePostURI uri of
        None \<Rightarrow> go_ret []
      | Some (did, rkey) \<Rightarrow>
          go_bind (go_try (GetRecord E did postCollection rkey)) (\<lambda>r.
          case r of
            Inl e \<Rightarrow> go_ret []
          | Inr (c, value) \<Rightarrow>
              go_bind (postView E cfg did rkey c value viewerDID) (\<lambda>pv. go_ret (some_items pv))))"

text \<open>The URIs of local posts and of the others; what is no post URI is skipped.\<close>

definition split_uris :: "'r env \<Rightarrow> string list \<Rightarrow> ('r pds, (bool \<times> string) list) go" where
  "split_uris E = go_collect (\<lambda>uri.
     case parsePostURI uri of
       None \<Rightarrow> go_ret []
     | Some (did, rkey) \<Rightarrow> go_bind (isLocal E did) (\<lambda>b. go_ret [(b, uri)]))"

definition HandleAppBskyGetPosts :: "'r env \<Rightarrow> config \<Rightarrow> request \<Rightarrow> 'r handler" where
  "HandleAppBskyGetPosts E cfg rq =
     go_bind (optionalAuth E rq) (\<lambda>viewerDID.
     go_bind (split_uris E (str_split '','' (query_get rq ''uris''))) (\<lambda>us.
     let local = map snd (filter fst us); remote = map snd (filter (\<lambda>u. \<not> fst u) us) in
     go_bind (go_collect (local_post E cfg viewerDID) local) (\<lambda>posts.
     if remote = [] \<or> AppviewProxyURL cfg = [] then WriteJSON (JObj [(''posts'', JArr posts)])
     else
       go_bind (upstream_or None E (AppviewProxyURL cfg) ''app.bsky.feed.getPosts''
         (''uris='' @ query_escape (str_join '','' remote))
         (\<lambda>body. case json_read E body of
            Inl e \<Rightarrow> Inl e
          | Inr v \<Rightarrow> (case maps_field ''posts'' v of Inl e \<Rightarrow> Inl e | Inr xs \<Rightarrow> Inr (Some (slice_items xs))))) (\<lambda>r.
       case r of
         None \<Rightarrow> WriteJSON (JObj [(''posts'', JArr posts)])
       | Some found \<Rightarrow> go_bind (loadViewerState E viewerDID) (\<lambda>vs.
           WriteJSON (JObj [(''posts'', JArr (posts @ map (injectPostViewer vs) found))]))))))"

definition referring :: "'r env \<Rightarrow> string \<Rightarrow> string \<Rightarrow> database \<Rightarrow> record_row list" where
  "referring E collection uri d =
     order_desc rr_rkey (filter (\<lambda>r. rr_collection r = collection \<and> extract_is E ''$.subject.uri'' uri r) (repo_records d))"

text \<open>
  The pool has a single connection (\<open>SetMaxOpenConns(1)\<close> in \<open>db.Open\<close>), and \<open>rows\<close> holds it
  until it is closed. The profile of each actor is read inside the loop over \<open>rows\<close>, so that its
  first statement waits for the connection and ends only with the request's context, in an error:
  the statements of the body run in the environment in which every statement fails.
\<close>

definition while_open :: "'r env \<Rightarrow> 'r env" where
  "while_open E = E\<lparr>fault := \<lambda>n. True\<rparr>"

definition localLikes :: "'r env \<Rightarrow> config \<Rightarrow> string \<Rightarrow> ('r pds, json list) go" where
  "localLikes E cfg uri =
     go_bind (scan_or [] (sql E (q_rows (referring E ''app.bsky.feed.like'' uri)))) (\<lambda>rows.
     go_collect (\<lambda>r.
       go_bind (profileBasic (while_open E) cfg (rr_did r) []) (\<lambda>actor.
       let at = string_field ''createdAt'' (read_or_null E (rr_value r)) in
       go_ret (map (\<lambda>a. JObj [(''indexedAt'', JStr at), (''createdAt'', JStr at), (''actor'', a)]) (some_items actor)))) rows)"

definition localReposters :: "'r env \<Rightarrow> config \<Rightarrow> string \<Rightarrow> ('r pds, json list) go" where
  "localReposters E cfg uri =
     go_bind (scan_or [] (sql E (q_rows (referring E ''app.bsky.feed.repost'' uri)))) (\<lambda>rows.
     go_collect (\<lambda>r. go_bind (profileBasic (while_open E) cfg (rr_did r) []) (\<lambda>actor. go_ret (some_items actor))) rows)"

definition is_local_uri :: "'r env \<Rightarrow> string \<Rightarrow> ('r pds, bool) go" where
  "is_local_uri E uri = (case parsePostURI uri of None \<Rightarrow> go_ret False | Some (did, rkey) \<Rightarrow> isLocal E did)"

definition no_more :: "string \<times> json" where
  "no_more = (''cursor'', JStr [])"

definition HandleAppBskyGetLikes :: "'r env \<Rightarrow> config \<Rightarrow> request \<Rightarrow> 'r handler" where
  "HandleAppBskyGetLikes E cfg rq =
     (let uri = query_get rq ''uri'' in
      go_bind (is_local_uri E uri) (\<lambda>local.
      if local then
        go_bind (localLikes E cfg uri) (\<lambda>ls. WriteJSON (JObj [(''uri'', JStr uri), (''likes'', jnil ls), no_more]))
      else if AppviewProxyURL cfg = [] then WriteJSON (JObj [(''uri'', JStr uri), (''likes'', JArr []), no_more])
      else proxyXrpc E rq (AppviewProxyURL cfg) ''app.bsky.feed.getLikes''))"

definition HandleAppBskyGetRepostedBy :: "'r env \<Rightarrow> config \<Rightarrow> request \<Rightarrow> 'r handler" where
  "HandleAppBskyGetRepostedBy E cfg rq =
     (let uri = query_get rq ''uri'' in
      go_bind (is_local_uri E uri) (\<lambda>local.
      if local then
        go_bind (localReposters E cfg uri) (\<lambda>rs. WriteJSON (JObj [(''uri'', JStr uri), (''repostedBy'', jnil rs), no_more]))
      else if AppviewProxyURL cfg = [] then WriteJSON (JObj [(''uri'', JStr uri), (''repostedBy'', JArr []), no_more])
      else proxyXrpc E rq (AppviewProxyURL cfg) ''app.bsky.feed.getRepostedBy''))"

definition remote_profiles :: "'r env \<Rightarrow> config \<Rightarrow> viewer_state \<Rightarrow> did list \<Rightarrow> ('r pds, json list) go" where
  "remote_profiles E cfg vs = go_collect (\<lambda>fd.
     go_bind (remoteProfile E cfg fd) (\<lambda>p. go_ret (map (injectProfileViewer vs) (some_items p))))"

definition HandleAppBskyGetFollows :: "'r env \<Rightarrow> config \<Rightarrow> request \<Rightarrow> 'r handler" where
  "HandleAppBskyGetFollows E cfg rq =
     go_bind (optionalAuth E rq) (\<lambda>viewerDID.
     on_error (resolveActorDID E (query_get rq ''actor'')) writeAppviewError (\<lambda>(did, local).
     if local then
       go_bind (profileBasic E cfg did viewerDID) (\<lambda>subject.
       case subject of
         None \<Rightarrow> go_ret profile_not_found
       | Some sub \<Rightarrow>
           go_bind (loadViewerState E viewerDID) (\<lambda>vs.
           go_bind (followedDIDs E did) (\<lambda>dids.
           go_bind (remote_profiles E cfg vs dids) (\<lambda>follows.
           WriteJSON (JObj [(''subject'', sub), (''follows'', JArr follows), no_more])))))
     else if AppviewProxyURL cfg = [] then WriteJSON (JObj [(''follows'', JArr []), no_more])
     else proxyXrpc E rq (AppviewProxyURL cfg) ''app.bsky.graph.getFollows''))"

definition HandleAppBskyGetFollowers :: "'r env \<Rightarrow> config \<Rightarrow> request \<Rightarrow> 'r handler" where
  "HandleAppBskyGetFollowers E cfg rq =
     go_bind (optionalAuth E rq) (\<lambda>viewerDID.
     on_error (resolveActorDID E (query_get rq ''actor'')) writeAppviewError (\<lambda>(did, local).
     if local then
       go_bind (profileBasic E cfg did viewerDID) (\<lambda>subject.
       case subject of
         None \<Rightarrow> go_ret profile_not_found
       | Some sub \<Rightarrow> WriteJSON (JObj [(''subject'', sub), (''followers'', JArr []), no_more]))
     else if AppviewProxyURL cfg = [] then WriteJSON (JObj [(''followers'', JArr []), no_more])
     else proxyXrpc E rq (AppviewProxyURL cfg) ''app.bsky.graph.getFollowers''))"

section \<open>Mutes and blocks\<close>

definition subjectProfile :: "'r env \<Rightarrow> config \<Rightarrow> did \<Rightarrow> viewer_state \<Rightarrow> did \<Rightarrow> ('r pds, json list) go" where
  "subjectProfile E cfg viewerDID vs subject =
     go_bind (isLocal E subject) (\<lambda>local.
     if local then go_bind (profileDetailed E cfg subject viewerDID) (\<lambda>p. go_ret (some_items p))
     else go_bind (remoteProfile E cfg subject) (\<lambda>p.
       go_ret (filter (\<lambda>v. v \<noteq> jnull) (map (injectProfileViewer vs) (some_items p)))))"

definition subjectDIDs :: "'r env \<Rightarrow> did \<Rightarrow> string \<Rightarrow> ('r pds, string list) go" where
  "subjectDIDs E did collection =
     scan_or [] (sql E (q_rows (\<lambda>d. List.map_filter (extract_text E ''$.subject'') (records_in did collection d))))"

text \<open>\<open>created_at\<close> of a mute is never read; the foreign key holds the account.\<close>

definition insert_mute :: "did \<Rightarrow> string \<Rightarrow> (database, unit) go" where
  "insert_mute did subject = q_try (\<lambda>d.
     if (did, subject) \<in> set (mutes d) then Inr d
     else if \<not> tbl_has acc_did did (accounts d) then Inl SqlConstraint
     else Inr (d\<lparr>mutes := mutes d @ [(did, subject)]\<rparr>))"

definition delete_mute :: "did \<Rightarrow> string \<Rightarrow> (database, unit) go" where
  "delete_mute did subject = q_exec (\<lambda>d. d\<lparr>mutes := tbl_delete (\<lambda>r. r = (did, subject)) (mutes d)\<rparr>)"

definition HandleAppBskyMuteActor :: "'r env \<Rightarrow> request \<Rightarrow> go_error + string \<Rightarrow> 'r handler" where
  "HandleAppBskyMuteActor E rq body =
     requireAuth E rq (\<lambda>did.
     DecodeBody body (\<lambda>actor.
     on_error (resolveActorDID E actor) writeAppviewError (\<lambda>(subject, local).
     on_error (sql E (insert_mute did subject)) internal_error (\<lambda>_. WriteJSON (JObj [])))))"

definition HandleAppBskyUnmuteActor :: "'r env \<Rightarrow> request \<Rightarrow> go_error + string \<Rightarrow> 'r handler" where
  "HandleAppBskyUnmuteActor E rq body =
     requireAuth E rq (\<lambda>did.
     DecodeBody body (\<lambda>actor.
     on_error (resolveActorDID E actor) writeAppviewError (\<lambda>(subject, local).
     on_error (sql E (delete_mute did subject)) internal_error (\<lambda>_. WriteJSON (JObj [])))))"

definition HandleAppBskyGetBlocks :: "'r env \<Rightarrow> config \<Rightarrow> request \<Rightarrow> 'r handler" where
  "HandleAppBskyGetBlocks E cfg rq =
     requireAuth E rq (\<lambda>did.
     go_bind (loadViewerState E did) (\<lambda>vs.
     go_bind (subjectDIDs E did ''app.bsky.graph.block'') (\<lambda>subjects.
     go_bind (go_collect (subjectProfile E cfg did vs) subjects) (\<lambda>blocks.
     WriteJSON (JObj [(''blocks'', JArr blocks), no_more])))))"

definition HandleAppBskyGetMutes :: "'r env \<Rightarrow> config \<Rightarrow> request \<Rightarrow> 'r handler" where
  "HandleAppBskyGetMutes E cfg rq =
     requireAuth E rq (\<lambda>did.
     go_bind (loadViewerState E did) (\<lambda>vs.
     go_bind (muted_subjects E did) (\<lambda>subjects.
     go_bind (go_collect (subjectProfile E cfg did vs) subjects) (\<lambda>ms.
     WriteJSON (JObj [(''mutes'', JArr ms), no_more])))))"

section \<open>Empty answers and passed requests\<close>

definition passthroughAppview :: "'r env \<Rightarrow> config \<Rightarrow> request \<Rightarrow> json \<Rightarrow> 'r handler" where
  "passthroughAppview E cfg rq nothing =
     (if AppviewProxyURL cfg = [] then WriteJSON nothing
      else proxyXrpc E rq (AppviewProxyURL cfg) (trim_prefix (rq_path rq) ''/xrpc/''))"

definition search_reply :: "'r env \<Rightarrow> config \<Rightarrow> request \<Rightarrow> string \<Rightarrow> json \<Rightarrow> 'r handler" where
  "search_reply E cfg rq nsid nothing =
     requireAuth E rq (\<lambda>did.
     if AppviewProxyURL cfg = [] then WriteJSON nothing else proxyXrpc E rq (AppviewProxyURL cfg) nsid)"

definition HandleAppBskySearchActors :: "'r env \<Rightarrow> config \<Rightarrow> request \<Rightarrow> 'r handler" where
  "HandleAppBskySearchActors E cfg rq =
     search_reply E cfg rq ''app.bsky.actor.searchActors'' (JObj [(''actors'', JArr [])])"

definition HandleAppBskySearchPosts :: "'r env \<Rightarrow> config \<Rightarrow> request \<Rightarrow> 'r handler" where
  "HandleAppBskySearchPosts E cfg rq =
     search_reply E cfg rq ''app.bsky.feed.searchPosts'' (JObj [(''posts'', JArr [])])"

definition HandleAppBskyGetSuggestions :: "'r env \<Rightarrow> config \<Rightarrow> request \<Rightarrow> 'r handler" where
  "HandleAppBskyGetSuggestions E cfg rq =
     (if AppviewProxyURL cfg = [] then WriteJSON (JObj [(''actors'', JArr [])])
      else proxyXrpc E rq (AppviewProxyURL cfg) ''app.bsky.actor.getSuggestions'')"

definition HandleAppBskyListNotifications :: "'r env \<Rightarrow> request \<Rightarrow> 'r handler" where
  "HandleAppBskyListNotifications E rq = requireAuth E rq (\<lambda>did. WriteJSON (JObj [(''notifications'', JArr []), no_more]))"

definition HandleAppBskyGetLists :: "'r env \<Rightarrow> request \<Rightarrow> 'r handler" where
  "HandleAppBskyGetLists E rq = requireAuth E rq (\<lambda>did. WriteJSON (JObj [(''lists'', JArr []), no_more]))"

definition HandleAppBskyGetListBlocks :: "'r env \<Rightarrow> request \<Rightarrow> 'r handler" where
  "HandleAppBskyGetListBlocks E rq = requireAuth E rq (\<lambda>did. WriteJSON (JObj [(''blocks'', JArr []), no_more]))"

definition HandleAppBskyGetListMutes :: "'r env \<Rightarrow> request \<Rightarrow> 'r handler" where
  "HandleAppBskyGetListMutes E rq = requireAuth E rq (\<lambda>did. WriteJSON (JObj [(''mutes'', JArr []), no_more]))"

definition HandleAppBskySearchActorsTypeahead :: "'r env \<Rightarrow> request \<Rightarrow> 'r handler" where
  "HandleAppBskySearchActorsTypeahead E rq = requireAuth E rq (\<lambda>did. WriteJSON (JObj [(''actors'', JArr [])]))"

definition HandleAppBskyGetUnreadCount :: "'r env \<Rightarrow> request \<Rightarrow> 'r handler" where
  "HandleAppBskyGetUnreadCount E rq = requireAuth E rq (\<lambda>did. WriteJSON (JObj [(''count'', jint 0)]))"

definition HandleChatListConvos :: "'r env \<Rightarrow> request \<Rightarrow> 'r handler" where
  "HandleChatListConvos E rq = requireAuth E rq (\<lambda>did. WriteJSON (JObj [(''convos'', JArr []), no_more]))"

definition HandleAppBskyGetFeedGenerators :: "'r handler" where
  "HandleAppBskyGetFeedGenerators = WriteJSON (JObj [(''feeds'', JArr [])])"

text \<open>\<open>updateSeen\<close> and \<open>registerPush\<close> read a body and drop it.\<close>

definition HandleAppBskyUpdateSeen :: "'r env \<Rightarrow> request \<Rightarrow> go_error + unit \<Rightarrow> 'r handler" where
  "HandleAppBskyUpdateSeen E rq body = requireAuth E rq (\<lambda>did. DecodeBody body (\<lambda>_. WriteJSON (JObj [])))"

definition HandleAppBskyRegisterPush :: "'r env \<Rightarrow> request \<Rightarrow> go_error + unit \<Rightarrow> 'r handler" where
  "HandleAppBskyRegisterPush E rq body = requireAuth E rq (\<lambda>did. DecodeBody body (\<lambda>_. WriteJSON (JObj [])))"

section \<open>Routes\<close>

datatype (plugins only: code) app_call =
    ApGetProfile | ApGetProfiles | ApGetPreferences | ApPutPreferences "go_error + bytes"
  | ApGetTimeline | ApGetAuthorFeed | ApGetPostThread | ApGetPosts | ApGetLikes | ApGetRepostedBy
  | ApGetFollows | ApGetFollowers | ApGetBlocks | ApGetMutes | ApMuteActor "go_error + string" | ApUnmuteActor "go_error + string"
  | ApGetLists | ApGetListBlocks | ApGetListMutes | ApGetFeedGenerators | ApSearchActorsTypeahead | ApListNotifications
  | ApSearchActors | ApSearchPosts | ApGetSuggestions | ApGetFeed | ApGetFeedGenerator | ApGetSuggestedFeeds
  | ApGetPopularFeedGenerators | ApGetSuggestedFollowsByActor | ApLabelerGetServices | ApGetUnreadCount
  | ApUpdateSeen "go_error + unit" | ApRegisterPush "go_error + unit" | ApListConvos

definition appview :: "'r env \<Rightarrow> config \<Rightarrow> request \<Rightarrow> app_call \<Rightarrow> 'r handler" where
  "appview E cfg rq c =
     (case c of
        ApGetProfile \<Rightarrow> HandleAppBskyGetProfile E cfg rq
      | ApGetProfiles \<Rightarrow> HandleAppBskyGetProfiles E cfg rq
      | ApGetPreferences \<Rightarrow> HandleAppBskyGetPreferences E rq
      | ApPutPreferences b \<Rightarrow> HandleAppBskyPutPreferences E rq b
      | ApGetTimeline \<Rightarrow> HandleAppBskyGetTimeline E cfg rq
      | ApGetAuthorFeed \<Rightarrow> HandleAppBskyGetAuthorFeed E cfg rq
      | ApGetPostThread \<Rightarrow> HandleAppBskyGetPostThread E cfg rq
      | ApGetPosts \<Rightarrow> HandleAppBskyGetPosts E cfg rq
      | ApGetLikes \<Rightarrow> HandleAppBskyGetLikes E cfg rq
      | ApGetRepostedBy \<Rightarrow> HandleAppBskyGetRepostedBy E cfg rq
      | ApGetFollows \<Rightarrow> HandleAppBskyGetFollows E cfg rq
      | ApGetFollowers \<Rightarrow> HandleAppBskyGetFollowers E cfg rq
      | ApGetBlocks \<Rightarrow> HandleAppBskyGetBlocks E cfg rq
      | ApGetMutes \<Rightarrow> HandleAppBskyGetMutes E cfg rq
      | ApMuteActor b \<Rightarrow> HandleAppBskyMuteActor E rq b
      | ApUnmuteActor b \<Rightarrow> HandleAppBskyUnmuteActor E rq b
      | ApGetLists \<Rightarrow> HandleAppBskyGetLists E rq
      | ApGetListBlocks \<Rightarrow> HandleAppBskyGetListBlocks E rq
      | ApGetListMutes \<Rightarrow> HandleAppBskyGetListMutes E rq
      | ApGetFeedGenerators \<Rightarrow> HandleAppBskyGetFeedGenerators
      | ApSearchActorsTypeahead \<Rightarrow> HandleAppBskySearchActorsTypeahead E rq
      | ApListNotifications \<Rightarrow> HandleAppBskyListNotifications E rq
      | ApSearchActors \<Rightarrow> HandleAppBskySearchActors E cfg rq
      | ApSearchPosts \<Rightarrow> HandleAppBskySearchPosts E cfg rq
      | ApGetSuggestions \<Rightarrow> HandleAppBskyGetSuggestions E cfg rq
      | ApGetFeed \<Rightarrow> HandleAppBskyGetFeed E cfg rq
      | ApGetFeedGenerator \<Rightarrow> passthroughAppview E cfg rq (JObj [(''view'', jnull)])
      | ApGetSuggestedFeeds \<Rightarrow> passthroughAppview E cfg rq (JObj [(''feeds'', JArr [])])
      | ApGetPopularFeedGenerators \<Rightarrow> passthroughAppview E cfg rq (JObj [(''feeds'', JArr [])])
      | ApGetSuggestedFollowsByActor \<Rightarrow> passthroughAppview E cfg rq (JObj [(''suggestions'', JArr [])])
      | ApLabelerGetServices \<Rightarrow> passthroughAppview E cfg rq (JObj [(''views'', JArr [])])
      | ApGetUnreadCount \<Rightarrow> HandleAppBskyGetUnreadCount E rq
      | ApUpdateSeen b \<Rightarrow> HandleAppBskyUpdateSeen E rq b
      | ApRegisterPush b \<Rightarrow> HandleAppBskyRegisterPush E rq b
      | ApListConvos \<Rightarrow> HandleChatListConvos E rq)"

section \<open>Likes and reposts of a local post\<close>

text \<open>
  Since the profile of an actor is read while the rows of the records are open, no like and no
  repost of a local post ever reaches an answer.
\<close>

lemma profile_waits: "profileBasic (while_open E) cfg did v s = (Inr None, s\<lparr>tick := Suc (tick s)\<rparr>)"
  by (simp add: profileBasic_def while_open_def sql_def go_try_def go_bind_def go_ret_def Let_def)

lemma collect_nothing:
  "(\<And>x s. \<exists>u. f x s = (Inr [], u)) \<Longrightarrow> \<exists>u. go_collect f xs s = (Inr [], u)"
proof (induction xs arbitrary: s)
  case Nil
  then show ?case by (simp add: go_ret_def)
next
  case (Cons x xs)
  obtain u where "f x s = (Inr [], u)" using Cons.prems by blast
  moreover obtain w where "go_collect f xs u = (Inr [], w)" using Cons by blast
  ultimately show ?case by (simp add: go_bind_def go_ret_def)
qed

lemma scan_or_inr: "\<exists>x u. scan_or z m s = (Inr x, u)"
  by (cases "m s"; cases "fst (m s)") (auto simp: scan_or_def)

lemma local_likes_wait: "\<exists>u. localLikes E cfg uri s = (Inr [], u)"
proof -
  obtain rows u where "scan_or [] (sql E (q_rows (referring E ''app.bsky.feed.like'' uri))) s = (Inr rows, u)"
    using scan_or_inr [of "[]" "sql E (q_rows (referring E ''app.bsky.feed.like'' uri))" s] by blast
  then show ?thesis
    by (simp add: localLikes_def go_bind_def) (rule collect_nothing,
      simp add: go_bind_def profile_waits go_ret_def some_items_def Let_def)
qed

lemma local_reposters_wait: "\<exists>u. localReposters E cfg uri s = (Inr [], u)"
proof -
  obtain rows u where "scan_or [] (sql E (q_rows (referring E ''app.bsky.feed.repost'' uri))) s = (Inr rows, u)"
    using scan_or_inr [of "[]" "sql E (q_rows (referring E ''app.bsky.feed.repost'' uri))" s] by blast
  then show ?thesis
    by (simp add: localReposters_def go_bind_def) (rule collect_nothing,
      simp add: go_bind_def profile_waits go_ret_def some_items_def)
qed

end
