(* ===== verification/Remote.thy ===== *)
theory Remote
  imports AppView
begin

text \<open>
  The two clients of remote services: \<open>internal/bridge/bsky.go\<close>, of a PDS at \<open>bsky.social\<close>, and
  \<open>internal/cloudflare/cloudflare.go\<close>. What the services answer is the environment's
  \<open>http_call\<close>; every request that is sent is in \<open>outbox\<close>. A field of a reply is decoded as
  \<open>encoding/json\<close> does: null leaves the zero value, another type is an error.
\<close>

section \<open>Fields of a reply\<close>

definition bad_type :: "go_error + 'a" where
  "bad_type = Inl (Lib ''json: cannot unmarshal'')"

definition text_field :: "string \<Rightarrow> json \<Rightarrow> go_error + string" where
  "text_field k v =
     (case json_field k v of JStr s \<Rightarrow> Inr s | x \<Rightarrow> if x = jnull then Inr [] else bad_type)"

definition text_pointer :: "string \<Rightarrow> json \<Rightarrow> go_error + string option" where
  "text_pointer k v =
     (case json_field k v of JStr s \<Rightarrow> Inr (Some s) | x \<Rightarrow> if x = jnull then Inr None else bad_type)"

definition bool_field :: "string \<Rightarrow> json \<Rightarrow> go_error + bool" where
  "bool_field k v =
     (let x = json_field k v in
      if x = jbool True then Inr True else if x = jbool False \<or> x = jnull then Inr False else bad_type)"

definition int_field :: "string \<Rightarrow> json \<Rightarrow> go_error + int" where
  "int_field k v =
     (case json_field k v of JScalar s \<Rightarrow> if s = ''null'' then Inr 0 else parse_int64 s | _ \<Rightarrow> bad_type)"

text \<open>A field that is a struct, a slice of structs, or raw JSON (\<open>None\<close> when there is no such key).\<close>

definition struct_field :: "string \<Rightarrow> json \<Rightarrow> go_error + json" where
  "struct_field k v = (let x = json_field k v in if is_map x then Inr x else bad_type)"

definition structs_of :: "json \<Rightarrow> go_error + json list" where
  "structs_of x =
     (case x of JArr xs \<Rightarrow> if list_all is_map xs then Inr xs else bad_type | _ \<Rightarrow> if x = jnull then Inr [] else bad_type)"

definition raw_field :: "string \<Rightarrow> json \<Rightarrow> json option" where
  "raw_field k v =
     (case v of
        JObj m \<Rightarrow> (case filter (\<lambda>(x, y). nocase_eq x k) m of [] \<Rightarrow> None | es \<Rightarrow> Some (snd (last es)))
      | _ \<Rightarrow> None)"

definition read_struct :: "'r env \<Rightarrow> bytes \<Rightarrow> go_error + json" where
  "read_struct E b =
     (case json_read E b of Inl e \<Rightarrow> Inl e | Inr v \<Rightarrow> if is_map v then Inr v else bad_type)"

text \<open>The first error of a decoding, else its result.\<close>

definition and_then :: "go_error + 'a \<Rightarrow> ('a \<Rightarrow> go_error + 'b) \<Rightarrow> go_error + 'b" where
  "and_then r f = (case r of Inl e \<Rightarrow> Inl e | Inr x \<Rightarrow> f x)"

text \<open>The verb \<open>%q\<close> of \<open>fmt\<close>; bytes above ASCII are copied, as for printable UTF-8.\<close>

definition quote_char :: "char \<Rightarrow> string" where
  "quote_char c =
     (if c = CHR 0x22 \<or> c = CHR 0x5C then [CHR 0x5C, c]
      else case map_of (zip [CHR 0x07, CHR 0x08, CHR 0x0C, CHR 0x0A, CHR 0x0D, CHR 0x09, CHR 0x0B] ''abfnrtv'') c of
        Some x \<Rightarrow> [CHR 0x5C, x]
      | None \<Rightarrow>
          if c < CHR 0x20 \<or> c = CHR 0x7F
          then [CHR 0x5C, CHR ''x'', hex_digit (of_char c div 16), hex_digit (of_char c mod 16)]
          else [c])"

definition go_quote :: "string \<Rightarrow> string" where
  "go_quote s = CHR 0x22 # concat (map quote_char s) @ [CHR 0x22]"

section \<open>The client of bsky.social\<close>

definition bskyPDS :: string where
  "bskyPDS = ''https://bsky.social''"

definition truncate :: "bytes \<Rightarrow> string" where
  "truncate b = (if length b > 300 then take 300 b @ ''...'' else b)"

text \<open>\<open>fmt.Errorf("bsky %s: %s: %s", ...)\<close> for a reply that is not 200.\<close>

definition refused :: "string \<Rightarrow> http_reply \<Rightarrow> go_error" where
  "refused what r = Failure (''bsky '' @ what @ '': '' @ hr_line r @ '': '' @ truncate (hr_body r))"

definition accepted :: "string \<Rightarrow> http_reply \<Rightarrow> ('s, bytes) go" where
  "accepted what r = (if hr_status r \<noteq> 200 then go_raise (refused what r) else go_ret (hr_body r))"

text \<open>\<open>createSession\<close> returns the token it leaves in the client; its caller drops the DID.\<close>

definition bsky_createSession :: "'r env \<Rightarrow> string \<Rightarrow> string \<Rightarrow> ('r pds, string) go" where
  "bsky_createSession E ident password =
     go_bind (http_send E
       \<lparr>hq_method = ''POST'', hq_url = bskyPDS @ ''/xrpc/com.atproto.server.createSession'', hq_type = ''application/json'',
        hq_auth = [], hq_body = json_marshal (JObj [(''identifier'', JStr ident), (''password'', JStr password)])\<rparr>) (\<lambda>r.
     go_bind (accepted ''createSession'' r) (\<lambda>b.
     go_of (and_then (read_struct E b) (\<lambda>v. and_then (text_field ''accessJwt'' v) (\<lambda>tok.
       and_then (text_field ''did'' v) (\<lambda>did. Inr tok))))))"

text \<open>\<open>do\<close>, up to the decoding of the reply.\<close>

definition bsky_do :: "'r env \<Rightarrow> string \<Rightarrow> string \<Rightarrow> string \<Rightarrow> json option \<Rightarrow> string \<Rightarrow> ('r pds, bytes) go" where
  "bsky_do E tok verb nsid body query =
     go_bind (http_send E
       \<lparr>hq_method = verb, hq_url = bskyPDS @ ''/xrpc/'' @ nsid @ (if query \<noteq> [] then CHR ''?'' # query else []),
        hq_type = (if body = None then [] else ''application/json''),
        hq_auth = (if tok \<noteq> [] then ''Bearer '' @ tok else []),
        hq_body = (case body of None \<Rightarrow> [] | Some v \<Rightarrow> json_marshal v)\<rparr>) (accepted nsid)"

definition uri_of :: "'r env \<Rightarrow> bytes \<Rightarrow> go_error + string" where
  "uri_of E b = and_then (read_struct E b) (text_field ''uri'')"

definition bsky_createRecord :: "'r env \<Rightarrow> string \<Rightarrow> string \<Rightarrow> string \<Rightarrow> json \<Rightarrow> ('r pds, string) go" where
  "bsky_createRecord E tok repo collection rec =
     go_bind (bsky_do E tok ''POST'' ''com.atproto.repo.createRecord''
       (Some (JObj [(''repo'', JStr repo), (''collection'', JStr collection), (''record'', rec)])) []) (\<lambda>b.
     go_of (uri_of E b))"

definition bsky_putRecord :: "'r env \<Rightarrow> string \<Rightarrow> string \<Rightarrow> string \<Rightarrow> string \<Rightarrow> json \<Rightarrow> ('r pds, string) go" where
  "bsky_putRecord E tok repo collection rkey rec =
     go_bind (bsky_do E tok ''POST'' ''com.atproto.repo.putRecord''
       (Some (JObj [(''repo'', JStr repo), (''collection'', JStr collection), (''rkey'', JStr rkey), (''record'', rec)])) []) (\<lambda>b.
     go_of (uri_of E b))"

definition bsky_uploadBlob :: "'r env \<Rightarrow> string \<Rightarrow> string \<Rightarrow> bytes \<Rightarrow> ('r pds, string) go" where
  "bsky_uploadBlob E tok mime data =
     go_bind (http_send E
       \<lparr>hq_method = ''POST'', hq_url = bskyPDS @ ''/xrpc/com.atproto.repo.uploadBlob'', hq_type = mime,
        hq_auth = ''Bearer '' @ tok, hq_body = data\<rparr>) (\<lambda>r.
     go_bind (accepted ''uploadBlob'' r) (\<lambda>b.
     go_of (and_then (read_struct E b) (\<lambda>v. and_then (struct_field ''blob'' v) (\<lambda>bl. and_then (struct_field ''ref'' bl) (text_field ''$link''))))))"

record remote_record =
  rm_uri :: string
  rm_cid :: string
  rm_value :: "json option"

definition remote_record_of :: "json \<Rightarrow> go_error + remote_record" where
  "remote_record_of v =
     and_then (text_field ''uri'' v) (\<lambda>u. and_then (text_field ''cid'' v) (\<lambda>c.
       Inr \<lparr>rm_uri = u, rm_cid = c, rm_value = raw_field ''value'' v\<rparr>))"

text \<open>\<open>url.Values.Encode\<close> sorts the keys.\<close>

definition list_query :: "string \<Rightarrow> string \<Rightarrow> string \<Rightarrow> nat \<Rightarrow> string" where
  "list_query repo collection cursor limit =
     ''collection='' @ query_escape collection @ (if cursor \<noteq> [] then ''&cursor='' @ query_escape cursor else []) @
     ''&limit='' @ show_nat limit @ ''&repo='' @ query_escape repo"

definition bsky_listRecords ::
  "'r env \<Rightarrow> string \<Rightarrow> string \<Rightarrow> string \<Rightarrow> string \<Rightarrow> nat \<Rightarrow> ('r pds, remote_record list \<times> string option) go" where
  "bsky_listRecords E tok repo collection cursor limit =
     go_bind (bsky_do E tok ''GET'' ''com.atproto.repo.listRecords'' None (list_query repo collection cursor limit)) (\<lambda>b.
     go_of (and_then (read_struct E b) (\<lambda>v. and_then (structs_of (json_field ''records'' v)) (\<lambda>rs.
       and_then (scan_all remote_record_of rs) (\<lambda>recs. and_then (text_pointer ''cursor'' v) (\<lambda>next. Inr (recs, next)))))))"

definition bsky_getRecord :: "'r env \<Rightarrow> string \<Rightarrow> string \<Rightarrow> string \<Rightarrow> string \<Rightarrow> ('r pds, json option \<times> string) go" where
  "bsky_getRecord E tok repo collection rkey =
     go_bind (bsky_do E tok ''GET'' ''com.atproto.repo.getRecord'' None
       (''collection='' @ query_escape collection @ ''&repo='' @ query_escape repo @ ''&rkey='' @ query_escape rkey)) (\<lambda>b.
     go_of (and_then (read_struct E b) (\<lambda>v. and_then (text_field ''cid'' v) (\<lambda>c. Inr (raw_field ''value'' v, c)))))"

definition bsky_getBlob :: "'r env \<Rightarrow> did \<Rightarrow> string \<Rightarrow> ('r pds, bytes \<times> string) go" where
  "bsky_getBlob E did cidStr =
     go_bind (http_send E
       \<lparr>hq_method = ''GET'',
        hq_url = bskyPDS @ ''/xrpc/com.atproto.sync.getBlob?cid='' @ query_escape cidStr @ ''&did='' @ query_escape did,
        hq_type = [], hq_auth = [], hq_body = []\<rparr>) (\<lambda>r.
     go_bind (accepted ''getBlob'' r) (\<lambda>b. go_ret (b, hr_type r)))"

section \<open>The client of Cloudflare\<close>

definition apiBase :: string where
  "apiBase = ''https://api.cloudflare.com/client/v4''"

text \<open>The envelope of every reply: the result, or the first error.\<close>

definition cf_errors :: "json \<Rightarrow> go_error + (string \<times> int) list" where
  "cf_errors v =
     and_then (structs_of (json_field ''errors'' v)) (scan_all (\<lambda>x.
       and_then (int_field ''code'' x) (\<lambda>c. and_then (text_field ''message'' x) (\<lambda>m. Inr (m, c)))))"

definition cf_envelope :: "json \<Rightarrow> go_error + bool \<times> (string \<times> int) list \<times> json option" where
  "cf_envelope v =
     and_then (bool_field ''success'' v) (\<lambda>ok. and_then (cf_errors v) (\<lambda>es. Inr (ok, es, raw_field ''result'' v)))"

definition cf_do :: "'r env \<Rightarrow> string \<Rightarrow> string \<Rightarrow> string \<Rightarrow> json option \<Rightarrow> ('r pds, json option) go" where
  "cf_do E token verb path body =
     go_bind (http_send E
       \<lparr>hq_method = verb, hq_url = apiBase @ path, hq_type = ''application/json'', hq_auth = ''Bearer '' @ token,
        hq_body = (case body of None \<Rightarrow> [] | Some v \<Rightarrow> json_marshal v)\<rparr>) (\<lambda>r.
     case and_then (read_struct E (hr_body r)) cf_envelope of
       Inl e \<Rightarrow> go_raise (Failure (''cloudflare: unexpected response: '' @ hr_body r))
     | Inr (ok, errors, result) \<Rightarrow>
         if ok then go_ret result
         else (case errors of
             [] \<Rightarrow> go_raise (Failure ''cloudflare: request failed'')
           | (m, c) # _ \<Rightarrow> go_raise (Failure (''cloudflare: '' @ m @ '' (code '' @ show_int c @ '')''))))"

text \<open>\<open>json.Unmarshal(env.Result, out)\<close>; there is no result to decode when the key is missing.\<close>

definition cf_decode :: "(json \<Rightarrow> go_error + 'a) \<Rightarrow> json option \<Rightarrow> go_error + 'a" where
  "cf_decode dec result =
     (case (case result of None \<Rightarrow> Inl (Lib ''unexpected end of JSON input'') | Some v \<Rightarrow> dec v) of
        Inl e \<Rightarrow> Inl (Wrap ''cloudflare: decode result'' e)
      | Inr x \<Rightarrow> Inr x)"

record zone =
  zo_id :: string
  zo_name :: string
  zo_account :: string

definition zone_of :: "json \<Rightarrow> go_error + zone" where
  "zone_of v =
     and_then (text_field ''id'' v) (\<lambda>i. and_then (text_field ''name'' v) (\<lambda>n.
       and_then (struct_field ''account'' v) (\<lambda>a. and_then (text_field ''id'' a) (\<lambda>ai.
         Inr \<lparr>zo_id = i, zo_name = n, zo_account = ai\<rparr>))))"

definition ZoneInfo :: "'r env \<Rightarrow> string \<Rightarrow> string \<Rightarrow> ('r pds, string \<times> string) go" where
  "ZoneInfo E token name =
     go_bind (cf_do E token ''GET'' (''/zones?name='' @ name) None) (\<lambda>result.
     go_bind (go_of (cf_decode (\<lambda>v. and_then (structs_of v) (scan_all zone_of)) result)) (\<lambda>zones.
     case find (\<lambda>z. zo_name z = name) zones of
       Some z \<Rightarrow> go_ret (zo_id z, zo_account z)
     | None \<Rightarrow> go_raise (Failure (''cloudflare: zone '' @ go_quote name @ '' not found''))))"

definition ZoneID :: "'r env \<Rightarrow> string \<Rightarrow> string \<Rightarrow> ('r pds, string) go" where
  "ZoneID E token name = go_bind (ZoneInfo E token name) (\<lambda>(i, a). go_ret i)"

record tunnel_credentials =
  tc_account :: string
  tc_id :: string
  tc_name :: string
  tc_secret :: string

definition credentials_of :: "json \<Rightarrow> go_error + tunnel_credentials" where
  "credentials_of v =
     and_then (text_field ''AccountTag'' v) (\<lambda>a. and_then (text_field ''TunnelID'' v) (\<lambda>i.
       and_then (text_field ''TunnelName'' v) (\<lambda>n. and_then (text_field ''TunnelSecret'' v) (\<lambda>s.
         Inr \<lparr>tc_account = a, tc_id = i, tc_name = n, tc_secret = s\<rparr>))))"

definition tunnel_of :: "json \<Rightarrow> go_error + tunnel_credentials" where
  "tunnel_of v =
     (if \<not> is_map v then bad_type
      else and_then (text_field ''id'' v) (\<lambda>i. and_then (text_field ''name'' v) (\<lambda>n.
        and_then (struct_field ''credentials_file'' v) credentials_of)))"

definition CreateTunnel :: "'r env \<Rightarrow> string \<Rightarrow> string \<Rightarrow> string \<Rightarrow> ('r pds, tunnel_credentials) go" where
  "CreateTunnel E token accountID name =
     go_bind (cf_do E token ''POST'' (''/accounts/'' @ accountID @ ''/cfd_tunnel'')
       (Some (JObj [(''name'', JStr name), (''config_src'', JStr ''local'')]))) (\<lambda>result.
     go_of (cf_decode tunnel_of result))"

definition dns_record_id :: "json \<Rightarrow> go_error + string" where
  "dns_record_id v =
     and_then (text_field ''id'' v) (\<lambda>i. and_then (text_field ''type'' v) (\<lambda>t. and_then (text_field ''name'' v) (\<lambda>n.
       and_then (text_field ''content'' v) (\<lambda>c. and_then (bool_field ''proxied'' v) (\<lambda>p. Inr i)))))"

definition UpsertDNS :: "'r env \<Rightarrow> string \<Rightarrow> string \<Rightarrow> string \<Rightarrow> string \<Rightarrow> string \<Rightarrow> bool \<Rightarrow> ('r pds, unit) go" where
  "UpsertDNS E token zoneID typ name content proxied =
     go_bind (cf_do E token ''GET'' (''/zones/'' @ zoneID @ ''/dns_records?type='' @ typ @ ''&name='' @ name) None) (\<lambda>result.
     go_bind (go_of (cf_decode (\<lambda>v. and_then (structs_of v) (scan_all dns_record_id)) result)) (\<lambda>existing.
     let rec = JObj [(''type'', JStr typ), (''name'', JStr name), (''content'', JStr content),
           (''ttl'', jint 1), (''proxied'', jbool proxied)] in
     case existing of
       i # _ \<Rightarrow> go_bind (cf_do E token ''PUT'' (''/zones/'' @ zoneID @ ''/dns_records/'' @ i) (Some rec)) (\<lambda>_. go_ret ())
     | [] \<Rightarrow> go_bind (cf_do E token ''POST'' (''/zones/'' @ zoneID @ ''/dns_records'') (Some rec)) (\<lambda>_. go_ret ())))"

text \<open>\<open>DetectPublicIP\<close>: the line \<open>ip=\<close> of the trace, else the whole body of the second service.\<close>

definition trace_ip :: "string \<Rightarrow> string option" where
  "trace_ip body =
     map_option (\<lambda>l. trim_prefix l ''ip='') (find (\<lambda>l. has_prefix l ''ip='') (str_split ([CHR 0x0A]) body))"

definition DetectPublicIP :: "'r env \<Rightarrow> ('r pds, string) go" where
  "DetectPublicIP E =
     go_bind (go_try (http_do E ''GET'' ''https://1.1.1.1/cdn-cgi/trace'' [])) (\<lambda>r1.
     case (case r1 of Inl e \<Rightarrow> None | Inr (status, body) \<Rightarrow> trace_ip body) of
       Some ip \<Rightarrow> go_ret ip
     | None \<Rightarrow>
         go_bind (go_try (http_do E ''GET'' ''https://api.ipify.org'' [])) (\<lambda>r2.
         case (case r2 of Inl e \<Rightarrow> [] | Inr (status, body) \<Rightarrow> trim_space body) of
           [] \<Rightarrow> go_raise (Failure ''could not determine public IP'')
         | c # cs \<Rightarrow> go_ret (c # cs)))"

end
