(* ===== verification/Bridge.thy ===== *)
theory Bridge
  imports Remote Listing Blob Feed
begin

text \<open>
  The bridge to an account at \<open>bsky.social\<close>: \<open>internal/bridge/record.go\<close>, \<open>bridge.go\<close> and the
  pages of \<open>internal/admin/api_bridge.go\<close>. \<open>Sync\<close> publishes the posts and the profile of the local
  account, then archives those of the remote one. What was carried over is remembered in
  \<open>bridge_sync\<close> under the direction and the CID at the source.

  A range over a Go map visits its entries in an order of the runtime's choice: \<open>rank m k\<close> is
  the place of the key \<open>k\<close> of the map \<open>m\<close>.
\<close>

section \<open>Records\<close>

type_synonym visiting = "(string \<times> json) list \<Rightarrow> string \<Rightarrow> nat"

text \<open>\<open>parseRecord\<close> of the stored bytes, and of the raw JSON in a reply.\<close>

definition parsed :: "json \<Rightarrow> go_error + json" where
  "parsed v = (if v = jnull then Inr (JObj []) else if is_map v then Inr v else bad_type)"

definition parseRecord :: "'r env \<Rightarrow> bytes \<Rightarrow> go_error + json" where
  "parseRecord E value = and_then (json_read E value) parsed"

definition parse_raw :: "json option \<Rightarrow> go_error + json" where
  "parse_raw value =
     (case value of None \<Rightarrow> Inl (Lib ''unexpected end of JSON input'') | Some v \<Rightarrow> parsed v)"

fun rewriteURIsPrefix :: "string \<Rightarrow> string \<Rightarrow> json \<Rightarrow> json" where
  "rewriteURIsPrefix old new (JObj m) = JObj (map (\<lambda>(k, v). (k,
     case v of
       JStr s \<Rightarrow> if has_prefix s old then JStr (replace_first old new s) else v
     | _ \<Rightarrow> rewriteURIsPrefix old new v)) m)"
| "rewriteURIsPrefix old new (JArr xs) = JArr (map (rewriteURIsPrefix old new) xs)"
| "rewriteURIsPrefix old new v = v"

definition uri_prefix :: "did \<Rightarrow> string" where
  "uri_prefix did = ''at://'' @ did @ ''/''"

definition rewriteURIs :: "json \<Rightarrow> did \<Rightarrow> did \<Rightarrow> json" where
  "rewriteURIs node fromDID toDID = rewriteURIsPrefix (uri_prefix fromDID) (uri_prefix toDID) node"

text \<open>
  \<open>walkBlobs\<close>: \<open>fn\<close> on every blob object, until the first error. \<open>fn\<close> returns the object as it
  leaves it.
\<close>

definition visit_map :: "visiting \<Rightarrow> (string \<times> json) list \<Rightarrow> (string \<times> json) list" where
  "visit_map rank m = sort_key (\<lambda>e. rank m (fst e)) m"

lemma size_list_insort_key: "size_list g (insort_key f x xs) = Suc (g x + size_list g xs)"
  by (induction xs) auto

lemma size_list_sort_key: "size_list g (sort_key f xs) = size_list g xs"
  by (induction xs) (simp_all add: size_list_insort_key)

lemma size_visit [termination_simp]: "size_list g (visit_map rank m) = size_list g m"
  by (simp add: visit_map_def size_list_sort_key)

fun walkBlobs :: "visiting \<Rightarrow> (json \<Rightarrow> ('s, json) go) \<Rightarrow> json \<Rightarrow> ('s, json) go"
  and walk_entries :: "visiting \<Rightarrow> (json \<Rightarrow> ('s, json) go) \<Rightarrow> (string \<times> json) list \<Rightarrow> ('s, (string \<times> json) list) go"
  and walk_items :: "visiting \<Rightarrow> (json \<Rightarrow> ('s, json) go) \<Rightarrow> json list \<Rightarrow> ('s, json list) go" where
  "walkBlobs rank fn (JObj m) =
     (if string_member ''$type'' (JObj m) = ''blob'' then fn (JObj m)
      else go_bind (walk_entries rank fn (visit_map rank m)) (\<lambda>es. go_ret (JObj es)))"
| "walkBlobs rank fn (JArr xs) = go_bind (walk_items rank fn xs) (\<lambda>ys. go_ret (JArr ys))"
| "walkBlobs rank fn v = go_ret v"
| "walk_entries rank fn [] = go_ret []"
| "walk_entries rank fn ((k, v) # es) =
     go_bind (walkBlobs rank fn v) (\<lambda>w. go_bind (walk_entries rank fn es) (\<lambda>ws. go_ret ((k, w) # ws)))"
| "walk_items rank fn [] = go_ret []"
| "walk_items rank fn (v # vs) =
     go_bind (walkBlobs rank fn v) (\<lambda>w. go_bind (walk_items rank fn vs) (\<lambda>ws. go_ret (w # ws)))"

definition blobLink :: "json \<Rightarrow> string" where
  "blobLink b = (case member ''ref'' b of None \<Rightarrow> [] | Some r \<Rightarrow> string_member ''$link'' r)"

definition setBlobLink :: "json \<Rightarrow> string \<Rightarrow> json" where
  "setBlobLink b link =
     (case member ''ref'' b of
        Some (JObj r) \<Rightarrow> set_member ''ref'' (set_member ''$link'' (JStr link) (JObj r)) b
      | _ \<Rightarrow> b)"

section \<open>Configuration\<close>

definition put_bridge_config :: "string \<Rightarrow> string \<Rightarrow> (database, unit) go" where
  "put_bridge_config k v = q_exec (\<lambda>d. d\<lparr>bridge_config := tbl_upsert fst (k, v) (bridge_config d)\<rparr>)"

definition bridge_value :: "string \<Rightarrow> database \<Rightarrow> string option" where
  "bridge_value k d = map_option snd (tbl_get fst k (bridge_config d))"

definition SetHandle :: "'r env \<Rightarrow> string \<Rightarrow> ('r pds, unit) go" where
  "SetHandle E handle =
     (let h = trim_space handle in
      if h = [] then go_raise (Failure ''handle is required'') else sql E (put_bridge_config ''handle'' h))"

definition SetPassword :: "'r env \<Rightarrow> string \<Rightarrow> ('r pds, unit) go" where
  "SetPassword E appPassword =
     (if appPassword = [] then go_raise (Failure ''app password is required'')
      else go_bind (Encrypt E appPassword) (\<lambda>enc. sql E (put_bridge_config ''app_password'' enc)))"

definition SetConfig :: "'r env \<Rightarrow> string \<Rightarrow> string \<Rightarrow> ('r pds, unit) go" where
  "SetConfig E handle appPassword =
     (let h = trim_space handle in
      go_bind (if h \<noteq> [] then SetHandle E h else go_ret ()) (\<lambda>_.
      go_bind (if appPassword \<noteq> [] then SetPassword E appPassword else go_ret ()) (\<lambda>_.
      if h = [] \<and> appPassword = [] then go_raise (Failure ''nothing to set'') else go_ret ())))"

text \<open>\<open>Config\<close> and \<open>password\<close>.\<close>

definition bridge_Config :: "'r env \<Rightarrow> ('r pds, string \<times> bool) go" where
  "bridge_Config E =
     go_bind (scan_or [] (sql E (q_row (bridge_value ''handle'')))) (\<lambda>handle.
     go_bind (scan_or [] (sql E (q_row (bridge_value ''app_password'')))) (\<lambda>enc.
     go_ret (handle, enc \<noteq> [])))"

definition bridge_password :: "'r env \<Rightarrow> ('r pds, string) go" where
  "bridge_password E =
     go_bind (go_try (sql E (q_row (bridge_value ''app_password'')))) (\<lambda>r.
     case r of
       Inl e \<Rightarrow> go_raise (Failure ''bridge not configured'')
     | Inr enc \<Rightarrow> go_of (Decrypt E enc))"

section \<open>What was carried over\<close>

definition sync_key :: "sync_row \<Rightarrow> string \<times> string" where
  "sync_key r = (sy_direction r, sy_source_cid r)"

definition insert_sync :: "sync_row \<Rightarrow> (database, unit) go" where
  "insert_sync r = q_exec (\<lambda>d. d\<lparr>bridge_sync := tbl_ignore sync_key r (bridge_sync d)\<rparr>)"

definition synced :: "'r env \<Rightarrow> string \<Rightarrow> string \<Rightarrow> ('r pds, bool) go" where
  "synced E direction sourceCID =
     go_bind (go_try (sql E (q_row (\<lambda>d. tbl_get sync_key (direction, sourceCID) (bridge_sync d))))) (\<lambda>r.
     go_ret (case r of Inl e \<Rightarrow> False | Inr row \<Rightarrow> True))"

definition markSynced :: "'r env \<Rightarrow> string \<Rightarrow> string \<Rightarrow> string \<Rightarrow> string \<Rightarrow> ('r pds, unit) go" where
  "markSynced E direction sourceCID localURI remoteURI =
     go_bind (time_now E) (\<lambda>now.
     ignoring (sql E (insert_sync \<lparr>sy_direction = direction, sy_source_cid = sourceCID, sy_local_uri = localURI,
       sy_remote_uri = remoteURI, sy_synced_at = Stamp now\<rparr>)))"

section \<open>Blobs\<close>

text \<open>\<open>if err := m; err != nil\<close>, when the error becomes a line of the report; a panic is not an error.\<close>

definition attempt :: "('s, 'a) go \<Rightarrow> ('s, go_error + 'a) go" where
  "attempt m s =
     (case m s of
        (Inl e, t) \<Rightarrow> if panics e then (Inl e, t) else (Inr (Inl e), t)
      | (Inr x, t) \<Rightarrow> (Inr (Inr x), t))"

definition publish_blob :: "'r env \<Rightarrow> string \<Rightarrow> did \<Rightarrow> json \<Rightarrow> ('r pds, json) go" where
  "publish_blob E tok localDID b =
     (let link = blobLink b in
      if link = [] then go_ret b
      else
        go_bind (go_of (cid_decode E link)) (\<lambda>c.
        go_bind (go_wrap (''blob '' @ link @ '' not in local store'') (blob_open E localDID c)) (\<lambda>(data, mime, n).
        go_bind (bsky_uploadBlob E tok mime data) (\<lambda>newLink.
        go_ret (if newLink \<noteq> [] \<and> newLink \<noteq> link then setBlobLink b newLink else b)))))"

definition publishBlobs :: "'r env \<Rightarrow> visiting \<Rightarrow> string \<Rightarrow> did \<Rightarrow> json \<Rightarrow> ('r pds, json) go" where
  "publishBlobs E rank tok localDID rec = walkBlobs rank (publish_blob E tok localDID) rec"

definition archive_blob :: "'r env \<Rightarrow> string \<Rightarrow> did \<Rightarrow> did \<Rightarrow> json \<Rightarrow> ('r pds, json) go" where
  "archive_blob E dir remoteDID localDID b =
     (let link = blobLink b in
      if link = [] then go_ret b
      else
        go_bind (bsky_getBlob E remoteDID link) (\<lambda>(data, mime).
        go_bind (blob_put E dir localDID (if mime = [] then ''application/octet-stream'' else mime) (Inr data)) (\<lambda>_.
        go_ret b)))"

definition archiveBlobs :: "'r env \<Rightarrow> string \<Rightarrow> visiting \<Rightarrow> did \<Rightarrow> did \<Rightarrow> json \<Rightarrow> ('r pds, json) go" where
  "archiveBlobs E dir rank remoteDID localDID rec = walkBlobs rank (archive_blob E dir remoteDID localDID) rec"

section \<open>Publishing\<close>

definition profileCollection :: string where
  "profileCollection = ''app.bsky.actor.profile''"

text \<open>A record of the repo with its collection, and what a run did: a count and lines of errors.\<close>

record local_item =
  lo_collection :: string
  lo_rkey :: string
  lo_cid :: string
  lo_value :: bytes

type_synonym outcome = "nat \<times> string list"

primrec tally :: "('x \<Rightarrow> ('s, outcome) go) \<Rightarrow> 'x list \<Rightarrow> ('s, outcome) go" where
  "tally f [] = go_ret (0, [])"
| "tally f (x # xs) =
     go_bind (f x) (\<lambda>(n, es). go_bind (tally f xs) (\<lambda>(m, fs). go_ret (n + m, es @ fs)))"

definition failed :: "'r env \<Rightarrow> string \<Rightarrow> go_error \<Rightarrow> ('s, outcome) go" where
  "failed E what e = go_ret (0, [what @ '': '' @ error_text E e])"

text \<open>
  A profile is first created under a new key and then put under its own: the outcome of the
  second request replaces that of the first.
\<close>

definition publish_record :: "'r env \<Rightarrow> string \<Rightarrow> did \<Rightarrow> string \<Rightarrow> json \<Rightarrow> ('r pds, go_error + string) go" where
  "publish_record E tok remoteDID collection rec =
     go_bind (attempt (bsky_createRecord E tok remoteDID collection rec)) (\<lambda>r.
     if collection = profileCollection
     then attempt (bsky_putRecord E tok remoteDID collection ''self'' rec)
     else go_ret r)"

definition publish_item :: "'r env \<Rightarrow> visiting \<Rightarrow> string \<Rightarrow> did \<Rightarrow> did \<Rightarrow> local_item \<Rightarrow> ('r pds, outcome) go" where
  "publish_item E rank tok localDID remoteDID it =
     (let name = lo_collection it @ ''/'' @ lo_rkey it in
      go_bind (synced E ''publish'' (lo_cid it)) (\<lambda>known.
      if known then go_ret (0, [])
      else case parseRecord E (lo_value it) of
        Inl e \<Rightarrow> failed E (''parse '' @ name) e
      | Inr rec \<Rightarrow>
          go_bind (attempt (publishBlobs E rank tok localDID (rewriteURIs rec localDID remoteDID))) (\<lambda>b.
          case b of
            Inl e \<Rightarrow> failed E (''blobs '' @ name) e
          | Inr rec' \<Rightarrow>
              go_bind (publish_record E tok remoteDID (lo_collection it) rec') (\<lambda>r.
              case r of
                Inl e \<Rightarrow> failed E (''publish '' @ name) e
              | Inr uri \<Rightarrow>
                  go_bind (markSynced E ''publish'' (lo_cid it) (uri_prefix localDID @ name) uri) (\<lambda>_.
                  go_ret (1, []))))))"

definition post_item :: "list_item \<Rightarrow> local_item" where
  "post_item it = \<lparr>lo_collection = postCollection, lo_rkey = li_rkey it, lo_cid = li_cid it, lo_value = li_value it\<rparr>"

definition profile_items :: "go_error + string \<times> bytes \<Rightarrow> local_item list" where
  "profile_items r =
     (case r of
        Inl e \<Rightarrow> []
      | Inr (pcid, pval) \<Rightarrow>
          if pcid = [] then []
          else [\<lparr>lo_collection = profileCollection, lo_rkey = ''self'', lo_cid = pcid, lo_value = pval\<rparr>])"

definition publish_items :: "'r env \<Rightarrow> visiting \<Rightarrow> string \<Rightarrow> did \<Rightarrow> did \<Rightarrow> ('r pds, outcome) go" where
  "publish_items E rank tok localDID remoteDID =
     go_bind (attempt (ListRecords E localDID postCollection [] 100000)) (\<lambda>r.
     case r of
       Inl e \<Rightarrow> failed E ''list local posts'' e
     | Inr (items, c) \<Rightarrow>
         go_bind (attempt (GetRecord E localDID profileCollection ''self'')) (\<lambda>p.
         tally (publish_item E rank tok localDID remoteDID) (map post_item items @ profile_items p)))"

section \<open>Archiving\<close>

definition archive_write :: "'r env \<Rightarrow> string \<Rightarrow> visiting \<Rightarrow> did \<Rightarrow> did \<Rightarrow> string \<Rightarrow> string \<Rightarrow> json \<Rightarrow>
    ('r pds, (string \<times> go_error) + unit) go" where
  "archive_write E dir rank remoteDID localDID collection rkey rec =
     (let rec' = rewriteURIs rec remoteDID localDID; recordJSON = json_marshal rec' in
      go_bind (attempt (archiveBlobs E dir rank remoteDID localDID rec')) (\<lambda>b.
      case b of
        Inl e \<Rightarrow> go_ret (Inl (''blobs'', e))
      | Inr _ \<Rightarrow>
          (case recordMarshaler E recordJSON None of
             Inl e \<Rightarrow> go_ret (Inl (''marshal'', e))
           | Inr marsh \<Rightarrow>
               go_bind (attempt (PutRecord E localDID collection rkey marsh recordJSON)) (\<lambda>w.
               case w of Inl e \<Rightarrow> go_ret (Inl (''archive'', e)) | Inr _ \<Rightarrow> go_ret (Inr ())))))"

definition archive_record :: "'r env \<Rightarrow> string \<Rightarrow> visiting \<Rightarrow> did \<Rightarrow> did \<Rightarrow> remote_record \<Rightarrow> ('r pds, outcome) go" where
  "archive_record E dir rank localDID remoteDID r =
     go_bind (synced E ''archive'' (rm_cid r)) (\<lambda>known.
     if known then go_ret (0, [])
     else case parse_raw (rm_value r) of
       Inl e \<Rightarrow> go_ret (0, [])
     | Inr rec \<Rightarrow>
         let rkey = trim_prefix (rm_uri r) (uri_prefix remoteDID @ postCollection @ ''/'') in
         go_bind (archive_write E dir rank remoteDID localDID postCollection rkey rec) (\<lambda>w.
         case w of
           Inl (what, e) \<Rightarrow> failed E (what @ '' '' @ rm_uri r) e
         | Inr _ \<Rightarrow>
             go_bind (markSynced E ''archive'' (rm_cid r) (uri_prefix localDID @ postCollection @ ''/'' @ rkey) (rm_uri r)) (\<lambda>_.
             go_ret (1, []))))"

text \<open>
  The loop over the pages ends when a page has no cursor or a request fails; a client that goes
  away ends it as well, since its requests fail from then on. \<open>n\<close> is the number of pages read
  until then.
\<close>

primrec archive_pages :: "'r env \<Rightarrow> string \<Rightarrow> visiting \<Rightarrow> string \<Rightarrow> did \<Rightarrow> did \<Rightarrow> nat \<Rightarrow> string \<Rightarrow> ('r pds, outcome) go" where
  "archive_pages E dir rank tok localDID remoteDID 0 cursor = failed E ''list bsky posts'' (Lib ''context canceled'')"
| "archive_pages E dir rank tok localDID remoteDID (Suc n) cursor =
     go_bind (attempt (bsky_listRecords E tok remoteDID postCollection cursor 100)) (\<lambda>r.
     case r of
       Inl e \<Rightarrow> failed E ''list bsky posts'' e
     | Inr (recs, next) \<Rightarrow>
         go_bind (tally (archive_record E dir rank localDID remoteDID) recs) (\<lambda>(k, es).
         case next of
           None \<Rightarrow> go_ret (k, es)
         | Some c \<Rightarrow>
             go_bind (archive_pages E dir rank tok localDID remoteDID n c) (\<lambda>(m, fs). go_ret (k + m, es @ fs))))"

definition archive_profile :: "'r env \<Rightarrow> string \<Rightarrow> visiting \<Rightarrow> string \<Rightarrow> did \<Rightarrow> did \<Rightarrow> ('r pds, nat) go" where
  "archive_profile E dir rank tok localDID remoteDID =
     go_bind (attempt (bsky_getRecord E tok remoteDID profileCollection ''self'')) (\<lambda>r.
     case r of
       Inl e \<Rightarrow> go_ret 0
     | Inr (pval, pcid) \<Rightarrow>
         if pcid = [] then go_ret 0
         else
           go_bind (synced E ''archive'' pcid) (\<lambda>known.
           if known then go_ret 0
           else case parse_raw pval of
             Inl e \<Rightarrow> go_ret 0
           | Inr rec \<Rightarrow>
               go_bind (archive_write E dir rank remoteDID localDID profileCollection ''self'' rec) (\<lambda>w.
               case w of
                 Inl e \<Rightarrow> go_ret 0
               | Inr _ \<Rightarrow>
                   go_bind (markSynced E ''archive'' pcid (uri_prefix localDID @ profileCollection @ ''/self'')
                     (uri_prefix remoteDID @ profileCollection @ ''/self'')) (\<lambda>_.
                   go_ret 1))))"

definition archive :: "'r env \<Rightarrow> string \<Rightarrow> visiting \<Rightarrow> string \<Rightarrow> did \<Rightarrow> did \<Rightarrow> nat \<Rightarrow> ('r pds, outcome) go" where
  "archive E dir rank tok localDID remoteDID pages =
     go_bind (archive_pages E dir rank tok localDID remoteDID pages []) (\<lambda>(n, errs).
     go_bind (archive_profile E dir rank tok localDID remoteDID) (\<lambda>k.
     go_ret (n + k, errs)))"

section \<open>Sync\<close>

record bridge_report =
  rp_published :: nat
  rp_archived :: nat
  rp_errors :: "string list"

definition bridge_localDID :: "'r env \<Rightarrow> ('r pds, did) go" where
  "bridge_localDID E = sql E (q_row (\<lambda>d.
     case order_asc (stamp_text E \<circ> acc_created_at) (accounts d) of [] \<Rightarrow> None | a # _ \<Rightarrow> Some (acc_did a)))"

definition bridge_resolveHandle :: "'r env \<Rightarrow> string \<Rightarrow> ('r pds, did) go" where
  "bridge_resolveHandle E handle =
     go_bind (http_do E ''GET''
       (''https://public.api.bsky.app/xrpc/com.atproto.identity.resolveHandle?handle='' @ query_escape handle) []) (\<lambda>(status, b).
     go_bind (go_of (and_then (read_struct E b) (text_field ''did''))) (\<lambda>did.
     if did = [] then go_raise (Failure (''no DID for handle '' @ go_quote handle)) else go_ret did))"

definition Sync :: "'r env \<Rightarrow> string \<Rightarrow> visiting \<Rightarrow> nat \<Rightarrow> ('r pds, bridge_report) go" where
  "Sync E dir rank pages =
     go_bind (go_wrap ''no local account'' (bridge_localDID E)) (\<lambda>did.
     go_bind (bridge_Config E) (\<lambda>(handle, passwordSet).
     if handle = [] \<or> \<not> passwordSet
     then go_raise (Failure ''bridge not configured (set handle + app password)'')
     else
       go_bind (bridge_password E) (\<lambda>password.
       go_bind (go_wrap ''bsky.social login failed'' (bsky_createSession E handle password)) (\<lambda>tok.
       go_bind (go_wrap ''resolve bsky handle'' (bridge_resolveHandle E handle)) (\<lambda>remoteDID.
       go_bind (publish_items E rank tok did remoteDID) (\<lambda>(published, errs).
       go_bind (archive E dir rank tok did remoteDID pages) (\<lambda>(archived, archErrs).
       go_ret \<lparr>rp_published = published, rp_archived = archived, rp_errors = errs @ archErrs\<rparr>)))))))"

section \<open>The pages of the console\<close>

definition bridgeGet :: "'r env \<Rightarrow> 'r handler" where
  "bridgeGet E =
     on_error (bridge_Config E) (plain_error 500) (\<lambda>(handle, passwordSet).
     WriteJSON (JObj [(''handle'', JStr handle), (''passwordSet'', jbool passwordSet),
       (''configured'', jbool (handle \<noteq> [] \<and> passwordSet))]))"

definition bridgePut :: "'r env \<Rightarrow> go_error + string \<times> string \<Rightarrow> 'r handler" where
  "bridgePut E body =
     DecodeBody body (\<lambda>(handle, appPassword).
     on_error (SetConfig E (trim_space handle) appPassword) (plain_error 400) (\<lambda>_.
     WriteJSON (JObj [(''ok'', jbool True)])))"

definition bridgeSync :: "'r env \<Rightarrow> string \<Rightarrow> visiting \<Rightarrow> nat \<Rightarrow> 'r handler" where
  "bridgeSync E dir rank pages =
     on_error (Sync E dir rank pages) (plain_error 400) (\<lambda>rep.
     WriteJSON (JStruct [(''published'', jint (int (rp_published rep))), (''archived'', jint (int (rp_archived rep))),
       (''errors'', jnil (map JStr (rp_errors rep)))]))"

record dns_input =
  di_apiToken :: string
  di_zone :: string
  di_domain :: string
  di_did :: string

definition bridgeDNS :: "'r env \<Rightarrow> go_error + dns_input \<Rightarrow> 'r handler" where
  "bridgeDNS E body =
     DecodeBody body (\<lambda>i.
     let token = trim_space (di_apiToken i); z = ascii_lower (trim_space (di_zone i));
         domain = ascii_lower (trim_space (di_domain i)); did = trim_space (di_did i) in
     if token = [] \<or> z = [] \<or> domain = [] \<or> did = []
     then HttpError 400 (Text ''apiToken, zone, domain and did are required'')
     else
       on_error (ZoneInfo E token z) (plain_error 502) (\<lambda>(zone_id, account).
       on_error (UpsertDNS E token zone_id ''TXT'' (''_atproto.'' @ domain) (''did='' @ did) False) (plain_error 502) (\<lambda>_.
       WriteJSON (JObj [(''ok'', jbool True), (''txtRecord'', JStr (''_atproto.'' @ domain)),
         (''txtContent'', JStr (''did='' @ did))]))))"

end
