(* ===== verification/Tunnel.thy ===== *)
theory Tunnel
  imports Remote RateLimit
begin

text \<open>
  \<open>internal/tunnel/tunnel.go\<close>: the files of the Cloudflare tunnel and the log of its process, and
  \<open>internal/admin/api_cloudflare.go\<close>, which provisions DNS and the tunnel. The process itself is
  in \<open>Supervisor\<close>.
\<close>

section \<open>Files\<close>

text \<open>
  \<open>Manager\<close>, as far as the pages see it: its configuration directory, the path of the binary, and
  whether the process is up.
\<close>

record tunnels =
  tu_dir :: string
  tu_bin :: string
  tu_running :: bool

definition configPath :: "tunnels \<Rightarrow> string" where
  "configPath m = tu_dir m @ ''/config.yml''"

definition credsPath :: "tunnels \<Rightarrow> string" where
  "credsPath m = tu_dir m @ ''/credentials.json''"

definition read_file :: "'r env \<Rightarrow> string \<Rightarrow> ('r pds, bytes) go" where
  "read_file E p = os_call E ''read'' (\<lambda>s. case files s p of
     None \<Rightarrow> (Inl (Failure ''file does not exist''), s) | Some b \<Rightarrow> (Inr b, s))"

definition write_file :: "'r env \<Rightarrow> string \<Rightarrow> bytes \<Rightarrow> ('r pds, unit) go" where
  "write_file E p b = os_call E ''write'' (go_modify (\<lambda>s. s\<lparr>files := (files s)(p \<mapsto> b)\<rparr>))"

text \<open>\<open>os.Stat\<close> succeeds.\<close>

definition stat_ok :: "'r env \<Rightarrow> string \<Rightarrow> ('r pds, bool) go" where
  "stat_ok E p = go_bind (go_try (read_file E p)) (\<lambda>r. go_ret (case r of Inl e \<Rightarrow> False | Inr b \<Rightarrow> True))"

definition Installed :: "'r env \<Rightarrow> tunnels \<Rightarrow> ('r pds, bool) go" where
  "Installed E m = stat_ok E (tu_bin m)"

definition Ready :: "'r env \<Rightarrow> tunnels \<Rightarrow> ('r pds, bool) go" where
  "Ready E m =
     go_bind (stat_ok E (configPath m)) (\<lambda>c. if \<not> c then go_ret False else stat_ok E (tu_bin m))"

definition LoadCredentials :: "'r env \<Rightarrow> tunnels \<Rightarrow> ('r pds, tunnel_credentials option) go" where
  "LoadCredentials E m =
     go_bind (go_try (read_file E (credsPath m))) (\<lambda>r.
     go_ret (case r of
       Inl e \<Rightarrow> None
     | Inr b \<Rightarrow> (case and_then (read_struct E b) credentials_of of Inl e \<Rightarrow> None | Inr c \<Rightarrow> Some c)))"

text \<open>\<open>json.MarshalIndent\<close> of the credentials, and the configuration as YAML.\<close>

definition newline :: string where
  "newline = [CHR 0x0A]"

definition credentials_text :: "tunnel_credentials \<Rightarrow> bytes" where
  "credentials_text c =
     ''{'' @ newline @
     str_join ('','' @ newline) (map (\<lambda>(k, v). ''  '' @ json_string k @ '': '' @ json_string v)
       [(''AccountTag'', tc_account c), (''TunnelID'', tc_id c), (''TunnelName'', tc_name c), (''TunnelSecret'', tc_secret c)]) @
     newline @ ''}''"

definition config_text :: "tunnels \<Rightarrow> tunnel_credentials \<Rightarrow> string \<Rightarrow> int \<Rightarrow> bytes" where
  "config_text m c hostname port =
     ''tunnel: '' @ tc_id c @ newline @
     ''credentials-file: '' @ credsPath m @ newline @
     ''protocol: http2'' @ newline @
     ''ingress:'' @ newline @
     ''  - hostname: '' @ hostname @ newline @
     ''    service: http://127.0.0.1:'' @ show_int port @ newline @
     ''  - service: http_status:404'' @ newline"

definition Provision :: "'r env \<Rightarrow> tunnels \<Rightarrow> tunnel_credentials \<Rightarrow> string \<Rightarrow> int \<Rightarrow> ('r pds, unit) go" where
  "Provision E m creds hostname port =
     go_bind (os_call E ''mkdir'' (go_ret ())) (\<lambda>_.
     go_bind (write_file E (credsPath m) (credentials_text creds)) (\<lambda>_.
     write_file E (configPath m) (config_text m creds hostname port)))"

section \<open>The log of the process\<close>

text \<open>
  \<open>lineWriter.Write\<close> appends to what is left of the last write and logs every line that is
  complete and not empty: the lines, and what is left.
\<close>

function complete_lines :: "bytes \<Rightarrow> string list \<times> bytes" where
  "complete_lines buf =
     (case str_cut newline buf of
        None \<Rightarrow> ([], buf)
      | Some (line, after) \<Rightarrow>
          (case complete_lines after of (ls, rest) \<Rightarrow> (if line \<noteq> [] then line # ls else ls, rest)))"
  by pat_completeness auto
termination
  by (relation "measure length") (auto dest: str_cut_shorter simp: newline_def)

declare complete_lines.simps [simp del]

definition line_write :: "bytes \<Rightarrow> bytes \<Rightarrow> string list \<times> bytes" where
  "line_write rest p = complete_lines (rest @ p)"

primrec line_writes :: "bytes \<Rightarrow> bytes list \<Rightarrow> string list \<times> bytes" where
  "line_writes rest [] = ([], rest)"
| "line_writes rest (p # ps) =
     (case line_write rest p of (ls, rest1) \<Rightarrow> case line_writes rest1 ps of (ms, rest2) \<Rightarrow> (ls @ ms, rest2))"

section \<open>The page of the console\<close>

text \<open>The port of the listen address; an address without one, or with a name for it, gives 3000.\<close>

definition ingressPort :: "string \<Rightarrow> int" where
  "ingressPort addr =
     (case SplitHostPort addr of
        None \<Rightarrow> 3000
      | Some (h, port) \<Rightarrow> (case parse_int64 port of Inl e \<Rightarrow> 3000 | Inr p \<Rightarrow> p))"

record apply_input =
  ai_apiToken :: string
  ai_zone :: string
  ai_hostname :: string

text \<open>The credentials on disk, or those of a new tunnel.\<close>

definition apply_credentials :: "'r env \<Rightarrow> tunnels \<Rightarrow> string \<Rightarrow> string \<Rightarrow> string \<Rightarrow> ('r pds, tunnel_credentials) go" where
  "apply_credentials E m token account hostname =
     go_bind (LoadCredentials E m) (\<lambda>c.
     case c of
       Some creds \<Rightarrow> go_ret creds
     | None \<Rightarrow> CreateTunnel E token account (replace_all ''.'' ''-'' hostname))"

definition Restart :: "('r pds, unit) go" where
  "Restart = go_modify (\<lambda>s. s\<lparr>outbox := outbox s @ [TunnelRestart]\<rparr>)"

definition cloudflareApply :: "'r env \<Rightarrow> config \<Rightarrow> tunnels option \<Rightarrow> go_error + apply_input \<Rightarrow> 'r handler" where
  "cloudflareApply E cfg tm body =
     DecodeBody body (\<lambda>i.
     let token = trim_space (ai_apiToken i); z = ascii_lower (trim_space (ai_zone i));
         hostname = ascii_lower (trim_space (ai_hostname i)) in
     if token = [] \<or> z = [] \<or> hostname = []
     then HttpError 400 (Text ''apiToken, zone and hostname are required'')
     else if \<not> str_contains hostname ''.'' then HttpError 400 (Text ''hostname must be a fully-qualified domain'')
     else case tm of
       None \<Rightarrow> HttpError 500 (Text ''tunnel manager unavailable'')
     | Some m \<Rightarrow>
         on_error (ZoneInfo E token z) (plain_error 502) (\<lambda>(zone_id, account).
         if account = []
         then HttpError 502 (Text ''cloudflare: could not determine account ID (token needs account access)'')
         else
           on_error (apply_credentials E m token account hostname) (plain_error 502) (\<lambda>creds.
           on_error (UpsertDNS E token zone_id ''CNAME'' hostname (tc_id creds @ ''.cfargotunnel.com'') True)
             (plain_error 502) (\<lambda>_.
           on_error (UpsertDNS E token zone_id ''TXT'' (''_atproto.'' @ hostname) (''did=did:web:'' @ hostname) False)
             (plain_error 502) (\<lambda>_.
           on_error (Provision E m creds hostname (ingressPort (ListenAddr cfg))) (plain_error 500) (\<lambda>_.
           go_bind Restart (\<lambda>_.
           on_error (SetSetting E SettingPublicURL (''https://'' @ hostname)) (plain_error 500) (\<lambda>_.
           on_error (SetSetting E SettingDIDMethod ''web'') (plain_error 500) (\<lambda>_.
           go_bind (Ready E m) (\<lambda>ready.
           WriteJSON (JObj ([(''ok'', jbool True), (''tunnelId'', JStr (tc_id creds)), (''cname'', JStr hostname),
             (''txtRecord'', JStr (''_atproto.'' @ hostname)), (''txtContent'', JStr (''did=did:web:'' @ hostname)),
             (''tunnelRunning'', jbool (tu_running m))] @
             (if ready then [] else [(''bootstrapCommand'', JStr ''sudo pocketpds tunnel install'')])))))))))))))"

end
