(* ===== verification/Console.thy ===== *)
theory Console
  imports SyncApi Email Config RateLimit Frames Bridge Tunnel
begin

text \<open>
  The operator console: \<open>internal/admin/admin.go\<close> and its \<open>api_*.go\<close>, apart from the re-exec of the
  process; the pages of the bridge are in \<open>Bridge\<close>, that of Cloudflare in \<open>Tunnel\<close>. Every route of
  the API is behind \<open>auth\<close>; the login has a limiter of its own. The path value \<open>{did}\<close> is an
  argument of the handlers that read it.
\<close>

section \<open>The login limiter\<close>

text \<open>\<open>hits\<close> has no entry or an empty list for a key never seen.\<close>

record login_limiter =
  ll_limit :: int
  ll_window :: int
  ll_hits :: "string \<Rightarrow> int list"

definition new_login_limiter :: "int \<Rightarrow> int \<Rightarrow> login_limiter" where
  "new_login_limiter limit window = \<lparr>ll_limit = limit, ll_window = window, ll_hits = (\<lambda>k. [])\<rparr>"

text \<open>\<open>newRateLimiter(5, 15*time.Second)\<close>, in nanoseconds.\<close>

definition loginLimiter :: login_limiter where
  "loginLimiter = new_login_limiter 5 (15 * 1000000000)"

definition recent :: "login_limiter \<Rightarrow> int \<Rightarrow> string \<Rightarrow> int list" where
  "recent l now key = filter (\<lambda>t. t > now - ll_window l) (ll_hits l key)"

definition login_allow :: "login_limiter \<Rightarrow> int \<Rightarrow> string \<Rightarrow> bool \<times> login_limiter" where
  "login_allow l now key =
     (let keep = recent l now key
      in if int (length keep) \<ge> ll_limit l then (False, l\<lparr>ll_hits := (ll_hits l)(key := keep)\<rparr>)
         else (True, l\<lparr>ll_hits := (ll_hits l)(key := keep @ [now])\<rparr>))"

text \<open>The whole header when there is one; else the address up to its last colon.\<close>

definition console_client :: "request \<Rightarrow> string" where
  "console_client rq =
     (let xf = rq_header rq ''X-Forwarded-For'' in
      if xf \<noteq> [] then xf
      else case last_colon (rq_remote rq) of
        None \<Rightarrow> rq_remote rq
      | Some (before, port) \<Rightarrow> if before \<noteq> [] then before else rq_remote rq)"

section \<open>Sessions of the console\<close>

definition tokenEqual :: "'r env \<Rightarrow> string \<Rightarrow> string \<Rightarrow> bool" where
  "tokenEqual E a b \<longleftrightarrow> sha256 E a = sha256 E b"

definition cookieName :: string where
  "cookieName = ''pocketpds_admin''"

definition authenticated :: "'r env \<Rightarrow> string \<Rightarrow> request \<Rightarrow> bool" where
  "authenticated E token rq \<longleftrightarrow>
     (if token = [] then False
      else if (case rq_cookie rq cookieName of None \<Rightarrow> False | Some v \<Rightarrow> tokenEqual E v token) then True
      else case cut_prefix (rq_header rq ''Authorization'') ''Bearer '' of (tok, ok) \<Rightarrow> ok \<and> tokenEqual E tok token)"

definition sameOrigin :: "'r env \<Rightarrow> request \<Rightarrow> bool" where
  "sameOrigin E rq \<longleftrightarrow>
     (let origin = rq_header rq ''Origin'' in
      if origin = [] then True
      else case url_parse E origin of Inl e \<Rightarrow> False | Inr u \<Rightarrow> url_host u = rq_host rq)"

definition console_auth :: "'r env \<Rightarrow> string \<Rightarrow> request \<Rightarrow> 'r handler \<Rightarrow> 'r handler" where
  "console_auth E token rq next =
     (if \<not> authenticated E token rq then HttpError 401 (Text ''unauthorized'')
      else if rq_method rq \<noteq> ''GET'' \<and> rq_method rq \<noteq> ''HEAD'' \<and> \<not> sameOrigin E rq then HttpError 403 (Text ''forbidden'')
      else next)"

text \<open>\<open>setSessionCookie\<close>: what varies of the cookie; it is always \<open>HttpOnly\<close> and \<open>SameSite=Strict\<close>.\<close>

record session_cookie =
  ck_value :: string
  ck_max_age :: int
  ck_secure :: bool

definition setSessionCookie :: "config \<Rightarrow> string \<Rightarrow> int \<Rightarrow> session_cookie" where
  "setSessionCookie cfg value maxAge =
     \<lparr>ck_value = value, ck_max_age = maxAge, ck_secure = has_prefix (PublicURL cfg) ''https://''\<rparr>"

definition reply_ok :: response where
  "reply_ok = Json (JObj [(''ok'', jbool True)])"

text \<open>The reply to a login, the cookie it sets, and the limiter after it.\<close>

definition console_login ::
  "'r env \<Rightarrow> config \<Rightarrow> int \<Rightarrow> request \<Rightarrow> go_error + string \<Rightarrow> login_limiter \<Rightarrow> (response \<times> session_cookie option) \<times> login_limiter" where
  "console_login E cfg now rq body l =
     (case body of
        Inl e \<Rightarrow> ((invalid_request e, None), l)
      | Inr tok \<Rightarrow>
          if tok = [] then ((PlainError 400 (Text ''token required''), None), l)
          else case login_allow l now (console_client rq) of (ok, l') \<Rightarrow>
            if \<not> ok then ((PlainError 429 (Text ''too many attempts''), None), l')
            else if AdminToken cfg = [] \<or> \<not> tokenEqual E tok (AdminToken cfg)
            then ((PlainError 401 (Text ''invalid token''), None), l')
            else ((reply_ok, Some (setSessionCookie cfg (AdminToken cfg) (7 * 24 * 3600))), l'))"

definition console_logout :: "config \<Rightarrow> response \<times> session_cookie" where
  "console_logout cfg = (reply_ok, setSessionCookie cfg [] (-1))"

definition console_version :: string where
  "console_version = ''0.1.0''"

definition console_me :: "'r env \<Rightarrow> string \<Rightarrow> request \<Rightarrow> 'r handler" where
  "console_me E token rq =
     (if \<not> authenticated E token rq then HttpError 401 (Text ''unauthorized'')
      else WriteJSON (JObj [(''ok'', jbool True), (''version'', JStr console_version)]))"

section \<open>Accounts\<close>

definition ok_json :: json where
  "ok_json = JObj [(''ok'', jbool True)]"

text \<open>\<open>ORDER BY created_at DESC\<close>; rows of the same second are newest first.\<close>

definition newest_first :: "'r env \<Rightarrow> ('x \<Rightarrow> stamp) \<Rightarrow> 'x list \<Rightarrow> 'x list" where
  "newest_first E col t = order_desc (stamp_text E \<circ> col) t"

definition account_view :: "'r env \<Rightarrow> database \<Rightarrow> account \<Rightarrow> json" where
  "account_view E d a = JStruct
     [(''did'', JStr (acc_did a)), (''handle'', JStr (acc_handle a)), (''email'', jopt (acc_email a)),
      (''active'', jbool (acc_deactivated_at a = None)), (''createdAt'', JStr (stamp_text E (acc_created_at a))),
      (''recordCount'', jint (int (length (filter (\<lambda>r. rr_did r = acc_did a) (repo_records d))))),
      (''blobCount'', jint (int (length (filter (\<lambda>r. bl_did r = acc_did a) (blobs d)))))]"

definition console_accounts :: "'r env \<Rightarrow> 'r handler" where
  "console_accounts E =
     on_error (sql E (q_rows (\<lambda>d. map (account_view E d) (newest_first E acc_created_at (accounts d))))) (plain_error 500) (\<lambda>rows.
     WriteJSON (JObj [(''accounts'', JArr rows)]))"

definition console_deactivate :: "'r env \<Rightarrow> did \<Rightarrow> 'r handler" where
  "console_deactivate E did =
     go_bind (time_now E) (\<lambda>now.
     on_error (sql E (set_deactivated did (Some (Stamp now)))) (plain_error 500) (\<lambda>_.
     go_bind (ignoring (EmitAccount E did False (Some ''deactivated''))) (\<lambda>_.
     WriteJSON ok_json)))"

definition console_activate :: "'r env \<Rightarrow> did \<Rightarrow> 'r handler" where
  "console_activate E did =
     on_error (sql E (set_deactivated did None)) (plain_error 500) (\<lambda>_.
     go_bind (ignoring (EmitAccount E did True None)) (\<lambda>_.
     WriteJSON ok_json))"

definition console_delete :: "'r env \<Rightarrow> did \<Rightarrow> 'r handler" where
  "console_delete E did =
     on_error (DeleteAccount E did) (plain_error 500) (\<lambda>_.
     on_error (sql E (delete_account_row did)) (plain_error 500) (\<lambda>_.
     go_bind (ignoring (EmitAccount E did False (Some ''deleted''))) (\<lambda>_.
     WriteJSON ok_json)))"

text \<open>\<open>GROUP BY collection ORDER BY collection\<close>.\<close>

definition collection_counts :: "did \<Rightarrow> database \<Rightarrow> (string \<times> nat) list" where
  "collection_counts did d =
     (let mine = map rr_collection (filter (\<lambda>r. rr_did r = did) (repo_records d))
      in map (\<lambda>c. (c, length (filter (\<lambda>x. x = c) mine))) (sort (remdups mine)))"

definition blob_stats :: "(blob_row \<Rightarrow> bool) \<Rightarrow> database \<Rightarrow> nat \<times> nat" where
  "blob_stats p d = (let t = filter p (blobs d) in (length t, sum_list (map bl_size t)))"

definition stats_json :: "nat \<times> nat \<Rightarrow> json" where
  "stats_json n = JObj [(''count'', jint (int (fst n))), (''bytes'', jint (int (snd n)))]"

definition console_account :: "'r env \<Rightarrow> did \<Rightarrow> 'r handler" where
  "console_account E did =
     on_error (sql E (q_row (\<lambda>d. Option.bind (account_of did d) (\<lambda>a. map_option (Pair a) (acc_did_doc a)))))
       (\<lambda>_. PlainError 404 (Text ''account not found'')) (\<lambda>(a, doc).
     go_bind (go_try (Head E did)) (\<lambda>head.
     go_bind (scan_or [] (sql E (q_rows (collection_counts did)))) (\<lambda>collections.
     go_bind (scan_or (0, 0) (sql E (q_rows (blob_stats (\<lambda>r. bl_did r = did))))) (\<lambda>stats.
     go_bind (scan_or 0 (sql E (q_rows (\<lambda>d. length (filter (\<lambda>r. ses_did r = did) (auth_sessions d)))))) (\<lambda>sessions.
     go_bind (scan_or 0 (sql E (q_rows (\<lambda>d. length (filter (\<lambda>r. ap_did r = did) (app_passwords d)))))) (\<lambda>appPasswords.
     WriteJSON (JObj
       [(''did'', JStr did), (''handle'', JStr (acc_handle a)), (''email'', jopt (acc_email a)),
        (''emailConfirmed'', jbool (acc_email_confirmed_at a \<noteq> None)), (''active'', jbool (acc_deactivated_at a = None)),
        (''createdAt'', JStr (stamp_text E (acc_created_at a))), (''didDoc'', JDecoded doc),
        (''head'', JObj (case head of
            Inl e \<Rightarrow> [(''cid'', JStr []), (''rev'', JStr [])]
          | Inr (c, rv) \<Rightarrow> [(''cid'', JStr (cid_string E c)), (''rev'', JStr rv)])),
        (''collections'', JArr (map (\<lambda>(c, n). JStruct [(''collection'', JStr c), (''count'', jint (int n))]) collections)),
        (''blobs'', stats_json stats), (''sessions'', jint (int sessions)), (''appPasswords'', jint (int appPasswords))])))))))"

definition console_records :: "'r env \<Rightarrow> request \<Rightarrow> did \<Rightarrow> 'r handler" where
  "console_records E rq did =
     (let collection = query_get rq ''collection'' in
      if collection = [] then HttpError 400 (Text ''collection is required'')
      else
        on_error (ListRecords E did collection (query_get rq ''cursor'') (limit_lax 50 100 rq)) (plain_error 500) (\<lambda>(items, next).
        WriteJSON (with_cursor [(''records'', JArr (map (\<lambda>it. JObj
           [(''rkey'', JStr (li_rkey it)), (''cid'', JStr (li_cid it)),
            (''uri'', JStr (''at://'' @ did @ ''/'' @ collection @ ''/'' @ li_rkey it)),
            (''value'', JDecoded (li_value it))]) items))] next)))"

definition cidString :: "'r env \<Rightarrow> bytes \<Rightarrow> string" where
  "cidString E b = (case cid_cast E b of Inl e \<Rightarrow> [] | Inr c \<Rightarrow> cid_string E c)"

definition nullableCid :: "'r env \<Rightarrow> cid option \<Rightarrow> string" where
  "nullableCid E x = (case x of None \<Rightarrow> [] | Some b \<Rightarrow> if b = [] then [] else cidString E b)"

definition commit_view :: "'r env \<Rightarrow> commit_row \<Rightarrow> json" where
  "commit_view E r = JObj
     [(''rev'', JStr (cm_rev r)), (''cid'', JStr (cidString E (cm_cid r))), (''prevCid'', JStr (nullableCid E (cm_prev r))),
      (''dataRoot'', JStr (cidString E (cm_data r))), (''createdAt'', JStr (stamp_text E (cm_created_at r)))]"

definition console_commits :: "'r env \<Rightarrow> request \<Rightarrow> did \<Rightarrow> 'r handler" where
  "console_commits E rq did =
     on_error (sql E (q_rows (\<lambda>d. take (limit_lax 100 500 rq) (order_desc cm_rev (commits_of d did))))) (plain_error 500) (\<lambda>rows.
     WriteJSON (JObj [(''commits'', JArr (map (commit_view E) rows))]))"

definition console_sessions :: "'r env \<Rightarrow> did \<Rightarrow> 'r handler" where
  "console_sessions E did =
     on_error (sql E (q_rows (\<lambda>d. newest_first E ses_created_at (filter (\<lambda>r. ses_did r = did) (auth_sessions d))))) (plain_error 500) (\<lambda>rows.
     WriteJSON (JObj [(''sessions'', JArr (map (\<lambda>r. JObj
       [(''createdAt'', JStr (stamp_text E (ses_created_at r))), (''expiresAt'', JStr (stamp_text E (ses_expires_at r))),
        (''appPassword'', jopt (ses_app_password r))]) rows))]))"

section \<open>Blobs, codes and relays\<close>

text \<open>
  \<open>writeBlobs\<close>: an empty \<open>did\<close> stands for all accounts; \<open>lastCreated\<close> is the timestamp of the last
  row read, which the cut drops.
\<close>

definition console_blob_rows :: "did \<Rightarrow> string \<Rightarrow> nat \<Rightarrow> database \<Rightarrow> blob_row list" where
  "console_blob_rows did cursor limit d =
     take (limit + 1) (order_desc bl_created_at (filter (\<lambda>r. (did = [] \<or> bl_did r = did) \<and>
        (cursor = [] \<or> bl_created_at r < cursor)) (blobs d)))"

definition blob_view :: "'r env \<Rightarrow> blob_row \<Rightarrow> json" where
  "blob_view E r = JObj
     [(''cid'', JStr (cidString E (bl_cid r))), (''did'', JStr (bl_did r)), (''size'', jint (int (bl_size r))),
      (''mimeType'', jopt (bl_mime r)), (''createdAt'', JStr (bl_created_at r))]"

definition writeBlobs :: "'r env \<Rightarrow> request \<Rightarrow> did \<Rightarrow> 'r handler" where
  "writeBlobs E rq did =
     (let limit = limit_lax 100 500 rq in
      on_error (sql E (q_rows (console_blob_rows did (query_get rq ''cursor'') limit))) (plain_error 500) (\<lambda>rows.
      WriteJSON (with_cursor [(''blobs'', JArr (map (blob_view E) (take limit rows)))]
        (if length rows > limit then Some (bl_created_at (last rows)) else None))))"

definition console_invites :: "'r env \<Rightarrow> 'r handler" where
  "console_invites E =
     on_error (sql E (q_rows (\<lambda>d. newest_first E iv_created_at (invite_codes d)))) (plain_error 500) (\<lambda>rows.
     WriteJSON (JObj [(''codes'', JArr (map (\<lambda>r. JObj
       [(''code'', JStr (iv_code r)), (''createdBy'', JStr (iv_created_by r)),
        (''createdAt'', JStr (stamp_text E (iv_created_at r))),
        (''available'', jbool (iv_used_by r = None \<and> iv_disabled_at r = None))]) rows))]))"

definition randomHex :: "'r env \<Rightarrow> nat \<Rightarrow> ('r pds, string) go" where
  "randomHex E n = go_bind (rand_read E n) (\<lambda>b. go_ret (take n (hex_encode b)))"

text \<open>The count \<open>Decode\<close> leaves: its error is dropped, and zero is out of range.\<close>

definition console_create_invites :: "'r env \<Rightarrow> int \<Rightarrow> 'r handler" where
  "console_create_invites E count =
     (if count < 1 \<or> count > 100 then HttpError 400 (Text ''count must be 1-100'')
      else
        go_bind (time_now E) (\<lambda>now.
        on_error (make_invites E (go_bind (randomHex E 8) (\<lambda>h. go_ret (''pocketpds-'' @ h))) ''admin'' now (nat count))
          (plain_error 500) (\<lambda>codes.
        WriteJSON (JObj [(''codes'', JArr (map JStr codes))]))))"

definition console_app_passwords :: "'r env \<Rightarrow> did \<Rightarrow> 'r handler" where
  "console_app_passwords E did =
     on_error (sql E (q_rows (app_passwords_of E did))) (plain_error 500) (\<lambda>rows.
     WriteJSON (JObj [(''passwords'', JArr (map (app_password_json E) rows))]))"

definition console_random_password :: "'r env \<Rightarrow> ('r pds, string) go" where
  "console_random_password E = go_bind (rand_read E 8) (\<lambda>b. go_ret (dashed (hex_encode b)))"

definition console_create_password :: "'r env \<Rightarrow> did \<Rightarrow> go_error + string \<Rightarrow> 'r handler" where
  "console_create_password E did body =
     DecodeBody body (\<lambda>name.
     if name = [] then HttpError 400 (Text ''name is required'')
     else
       go_bind (console_random_password E) (\<lambda>password.
       on_error (HashPassword E password) (plain_error 500) (\<lambda>hash.
       go_bind (time_now E) (\<lambda>now.
       on_error (sql E (insert_app_password \<lparr>ap_did = did, ap_name = name, ap_hash = hash, ap_created_at = Stamp now\<rparr>))
         (\<lambda>_. PlainError 409 (Text ''app password name already in use'')) (\<lambda>_.
       WriteJSON (JObj [(''name'', JStr name), (''password'', JStr password)]))))))"

definition console_revoke_password :: "'r env \<Rightarrow> did \<Rightarrow> go_error + string \<Rightarrow> 'r handler" where
  "console_revoke_password E did body =
     DecodeBody body (\<lambda>name.
     if name = [] then HttpError 400 (Text ''name is required'')
     else on_error (sql E (delete_app_password did name)) (plain_error 500) (\<lambda>_. WriteJSON ok_json))"

definition token_status :: "'r env \<Rightarrow> email_token \<Rightarrow> ('r pds, string) go" where
  "token_status E r =
     (if et_used_at r \<noteq> None then go_ret ''used''
      else case parse_rfc3339 (et_expires_at r) of
        Inl e \<Rightarrow> go_ret ''expired''
      | Inr until \<Rightarrow> go_bind (now_after E until) (\<lambda>late. go_ret (if late then ''expired'' else ''pending'')))"

primrec token_views :: "'r env \<Rightarrow> email_token list \<Rightarrow> ('r pds, json list) go" where
  "token_views E [] = go_ret []"
| "token_views E (r # rs) =
     go_bind (token_status E r) (\<lambda>status.
     go_bind (token_views E rs) (\<lambda>vs.
     go_ret (JObj
       [(''did'', JStr (et_did r)), (''purpose'', JStr (et_purpose r)), (''email'', JStr (et_email r)),
        (''expiresAt'', JStr (stamp_text E (et_expires_at r))), (''usedAt'', jopt (map_option (stamp_text E) (et_used_at r))),
        (''status'', JStr status)] # vs)))"

definition console_email_tokens :: "'r env \<Rightarrow> 'r handler" where
  "console_email_tokens E =
     on_error (sql E (q_rows (\<lambda>d. newest_first E et_expires_at (email_tokens d)))) (plain_error 500) (\<lambda>rows.
     go_bind (token_views E rows) (\<lambda>vs. WriteJSON (JObj [(''tokens'', JArr vs)])))"

definition console_relays :: "'r env \<Rightarrow> 'r handler" where
  "console_relays E =
     on_error (sql E (q_rows (\<lambda>d. newest_first E snd (relays d)))) (plain_error 500) (\<lambda>rows.
     WriteJSON (JObj [(''relays'', JArr (map (\<lambda>(h, st). JObj
       [(''hostname'', JStr h), (''registeredAt'', JStr (stamp_text E st))]) rows))]))"

definition console_crawl :: "'r env \<Rightarrow> 'r handler" where
  "console_crawl E = go_bind (ignoring (notifyRelays E)) (\<lambda>_. WriteJSON ok_json)"

section \<open>Overview and events\<close>

text \<open>\<open>db_bytes\<close> is the answer to \<open>PRAGMA page_count\<close> times that to \<open>PRAGMA page_size\<close>.\<close>

definition count_of :: "'r env \<Rightarrow> (database \<Rightarrow> 'x list) \<Rightarrow> ('r pds, nat) go" where
  "count_of E f = scan_or 0 (sql E (q_rows (\<lambda>d. length (f d))))"

definition console_overview :: "'r env \<Rightarrow> config \<Rightarrow> int \<Rightarrow> 'r handler" where
  "console_overview E cfg db_bytes =
     go_bind (count_of E accounts) (\<lambda>total.
     go_bind (count_of E (\<lambda>d. filter (\<lambda>a. acc_deactivated_at a = None) (accounts d))) (\<lambda>active.
     go_bind (count_of E repo_records) (\<lambda>records.
     go_bind (scan_or (0, 0) (sql E (q_rows (blob_stats (\<lambda>r. True))))) (\<lambda>blobStats.
     go_bind (scan_or (0, 0) (sql E (q_rows (\<lambda>d. (length (repo_blocks d), sum_list (map blk_size (repo_blocks d))))))) (\<lambda>blockStats.
     go_bind (count_of E relays) (\<lambda>relayCount.
     go_bind (count_of E firehose_events) (\<lambda>events.
     WriteJSON (JObj
       [(''version'', JStr console_version), (''serviceDid'', JStr (EffectiveServiceDID E cfg)), (''didMethod'', JStr (DIDMethod cfg)),
        (''publicUrl'', JStr (PublicURL cfg)), (''listenAddr'', JStr (ListenAddr cfg)), (''dbPath'', JStr (DatabasePath cfg)),
        (''dataDir'', JStr (DataDir cfg)), (''inviteRequired'', jbool (InviteRequired cfg)), (''secretSet'', jbool (Secret cfg \<noteq> [])),
        (''accounts'', JObj [(''total'', jint (int total)), (''active'', jint (int active))]), (''records'', jint (int records)),
        (''blobs'', stats_json blobStats), (''blocks'', stats_json blockStats), (''dbSizeBytes'', jint db_bytes),
        (''relays'', jint (int relayCount)), (''firehoseEvents'', jint (int events))]))))))))"

text \<open>The three flags are those of the tunnel manager.\<close>

definition console_diagnostics :: "'r env \<Rightarrow> config \<Rightarrow> bool \<times> bool \<times> bool \<Rightarrow> 'r handler" where
  "console_diagnostics E cfg tunnel =
     go_bind (go_try (sql E (q_rows (\<lambda>d. 1 :: nat)))) (\<lambda>one.
     go_bind (count_of E accounts) (\<lambda>n.
     case tunnel of (installed, ready, running) \<Rightarrow>
     WriteJSON (JObj
       [(''version'', JStr console_version), (''publicUrl'', JStr (PublicURL cfg)),
        (''publicUrlHttps'', jbool (has_prefix (PublicURL cfg) ''https'')), (''secretSet'', jbool (Secret cfg \<noteq> [])),
        (''serviceDidSet'', jbool (EffectiveServiceDID E cfg \<noteq> [])), (''didMethod'', JStr (DIDMethod cfg)),
        (''inviteRequired'', jbool (InviteRequired cfg)), (''dbOk'', jbool (\<not> isl one)), (''accountCount'', jint (int n)),
        (''tunnelInstalled'', jbool installed), (''tunnelReady'', jbool ready), (''tunnelRunning'', jbool running)])))"

text \<open>
  \<open>eventsStream\<close> up to its loop: the check of the writer and the cursor it subscribes from. The loop writes a line for every
  frame that decodes and skips the others.
\<close>

definition events_cursor :: "request \<Rightarrow> int \<Rightarrow> int" where
  "events_cursor rq maxSeq = max (maxSeq - int (limit_lax 50 500 rq)) 0"

definition eventsStream :: "response_writer \<Rightarrow> 'r env \<Rightarrow> request \<Rightarrow> 'r handler" where
  "eventsStream w E rq =
     (if \<not> flusher w then HttpError 500 (Text ''streaming unsupported'')
      else go_bind (scan_or 0 (sql E (q_rows (\<lambda>d. max_seq (firehose_events d))))) (\<lambda>maxSeq.
     go_bind subscribe (\<lambda>sid. go_ret (Content 200 ''text/event-stream'' []))))"

definition event_line :: "cbor \<Rightarrow> bytes \<Rightarrow> bytes" where
  "event_line C frame =
     (case decodeEvent C frame of
        Inl e \<Rightarrow> []
      | Inr v \<Rightarrow> ''data: '' @ json_marshal v @ [CHR 0x0A, CHR 0x0A])"

section \<open>Routes\<close>

text \<open>
  The routes behind \<open>auth\<close>, with their path value, their body, and what they read of the host;
  \<open>CoSettingsPut\<close> and \<open>CoBridgeSync\<close> also with the order in which the runtime visits the entries of
  a map, \<open>CoBridgeSync\<close> with the number of pages it has time for, \<open>CoRestart\<close> with whether there
  is a tunnel manager. \<open>dir\<close> is the directory of blobs.
\<close>

datatype (plugins only: code) console_call =
    CoOverview int | CoDiagnostics "bool \<times> bool \<times> bool" | CoSettingsGet | CoSettingsPut "(string \<times> string) list \<Rightarrow> (string \<times> string) list" "go_error + settings_payload" | CoRestart bool
  | CoAccounts | CoAccount did | CoRecords did | CoCommits did | CoAccountBlobs did | CoSessions did
  | CoAppPasswords did | CoCreateAppPassword did "go_error + string" | CoRevokeAppPassword did "go_error + string"
  | CoDeactivate did | CoActivate did | CoDelete did
  | CoBlobs | CoRelays | CoCrawl | CoInvites | CoCreateInvites int | CoEmailTokens | CoEvents
  | CoBridgeGet | CoBridgePut "go_error + string \<times> string" | CoBridgeSync visiting nat | CoBridgeDNS "go_error + dns_input"
  | CoCloudflareApply "tunnels option" "go_error + apply_input"

definition console_route :: "'r env \<Rightarrow> config \<Rightarrow> string \<Rightarrow> request \<Rightarrow> response_writer \<Rightarrow> console_call \<Rightarrow> 'r handler" where
  "console_route E cfg dir rq w c =
     (case c of
        CoOverview db_bytes \<Rightarrow> console_overview E cfg db_bytes
      | CoDiagnostics tunnel \<Rightarrow> console_diagnostics E cfg tunnel
      | CoSettingsGet \<Rightarrow> settingsGet E cfg
      | CoSettingsPut visit b \<Rightarrow> settingsPut E visit b
      | CoRestart tunnelled \<Rightarrow> settings_restart E tunnelled
      | CoAccounts \<Rightarrow> console_accounts E
      | CoAccount did \<Rightarrow> console_account E did
      | CoRecords did \<Rightarrow> console_records E rq did
      | CoCommits did \<Rightarrow> console_commits E rq did
      | CoAccountBlobs did \<Rightarrow> writeBlobs E rq did
      | CoSessions did \<Rightarrow> console_sessions E did
      | CoAppPasswords did \<Rightarrow> console_app_passwords E did
      | CoCreateAppPassword did b \<Rightarrow> console_create_password E did b
      | CoRevokeAppPassword did b \<Rightarrow> console_revoke_password E did b
      | CoDeactivate did \<Rightarrow> console_deactivate E did
      | CoActivate did \<Rightarrow> console_activate E did
      | CoDelete did \<Rightarrow> console_delete E did
      | CoBlobs \<Rightarrow> writeBlobs E rq []
      | CoRelays \<Rightarrow> console_relays E
      | CoCrawl \<Rightarrow> console_crawl E
      | CoInvites \<Rightarrow> console_invites E
      | CoCreateInvites n \<Rightarrow> console_create_invites E n
      | CoEmailTokens \<Rightarrow> console_email_tokens E
      | CoEvents \<Rightarrow> eventsStream w E rq
      | CoBridgeGet \<Rightarrow> bridgeGet E
      | CoBridgePut b \<Rightarrow> bridgePut E b
      | CoBridgeSync rank pages \<Rightarrow> bridgeSync E dir rank pages
      | CoBridgeDNS b \<Rightarrow> bridgeDNS E b
      | CoCloudflareApply tm b \<Rightarrow> cloudflareApply E cfg tm b)"

definition console :: "'r env \<Rightarrow> config \<Rightarrow> string \<Rightarrow> request \<Rightarrow> response_writer \<Rightarrow> console_call \<Rightarrow> 'r handler" where
  "console E cfg dir rq w c = console_auth E (AdminToken cfg) rq (console_route E cfg dir rq w c)"

end
