(* ===== verification/Contract.thy ===== *)
theory Contract
  imports SyncApi Email Feed Bridge Tunnel
begin

text \<open>
  \<open>table_invariant\<close> is the contract of a property of the database with the statements of the
  program: what every statement keeps. Its lemmas, with the rules of \<open>safe\<close>, climb from the
  statements to the operations of every component.
\<close>

section \<open>The contract with the statements\<close>

locale table_invariant =
  fixes P :: "database \<Rightarrow> bool"
  assumes put_block: "P d \<Longrightarrow> P (d\<lparr>repo_blocks := tbl_ignore blk_cid b (repo_blocks d)\<rparr>)"
    and add_commit: "P d \<Longrightarrow> tbl_insert commit_key c (repo_commits d) = Inr cs \<Longrightarrow> P (d\<lparr>repo_commits := cs\<rparr>)"
    and cut_commits: "P d \<Longrightarrow> P (d\<lparr>repo_commits := tbl_delete p1 (repo_commits d)\<rparr>)"
    and put_block_rev: "P d \<Longrightarrow> P (d\<lparr>repo_block_revs := tbl_upsert block_rev_key v (repo_block_revs d)\<rparr>)"
    and cut_block_revs: "P d \<Longrightarrow> P (d\<lparr>repo_block_revs := tbl_delete p2 (repo_block_revs d)\<rparr>)"
    and put_record: "P d \<Longrightarrow> P (d\<lparr>repo_records := tbl_upsert record_key r (repo_records d)\<rparr>)"
    and add_record: "P d \<Longrightarrow> tbl_insert record_key r (repo_records d) = Inr rs \<Longrightarrow> P (d\<lparr>repo_records := rs\<rparr>)"
    and cut_records: "P d \<Longrightarrow> P (d\<lparr>repo_records := tbl_delete p3 (repo_records d)\<rparr>)"
    and add_event: "P d \<Longrightarrow> tbl_insert fst e (firehose_events d) = Inr es \<Longrightarrow> P (d\<lparr>firehose_events := es\<rparr>)"
    and add_session: "P d \<Longrightarrow> insert_session n d = (Inr (), d') \<Longrightarrow> P d'"
    and cut_sessions: "P d \<Longrightarrow> P (d\<lparr>auth_sessions := tbl_delete p4 (auth_sessions d)\<rparr>)"
    and add_account: "P d \<Longrightarrow> insert_account a d = (Inr (), d') \<Longrightarrow> P d'"
    and set_account: "P d \<Longrightarrow> (\<And>a. acc_did (f a) = acc_did a) \<Longrightarrow> (\<And>a. acc_handle (f a) = acc_handle a) \<Longrightarrow>
      P (d\<lparr>accounts := tbl_update p5 f (accounts d)\<rparr>)"
    and set_handle: "P d \<Longrightarrow> update_handle did h d = (Inr (), d') \<Longrightarrow> P d'"
    and cut_account: "P d \<Longrightarrow> P (cascade_delete did d)"
    and add_app_password: "P d \<Longrightarrow> insert_app_password w d = (Inr (), d') \<Longrightarrow> P d'"
    and cut_app_passwords: "P d \<Longrightarrow> P (d\<lparr>app_passwords := tbl_delete p6 (app_passwords d)\<rparr>)"
    and add_invite: "P d \<Longrightarrow> tbl_insert iv_code i (invite_codes d) = Inr is \<Longrightarrow> P (d\<lparr>invite_codes := is\<rparr>)"
    and use_invite: "P d \<Longrightarrow> P (d\<lparr>invite_codes := tbl_update (\<lambda>r. iv_code r = code)
      (\<lambda>r. r\<lparr>iv_used_by := Some did, iv_used_at := Some st\<rparr>) (invite_codes d)\<rparr>)"
    and add_email_token: "P d \<Longrightarrow> tbl_insert et_token t (email_tokens d) = Inr ts \<Longrightarrow> P (d\<lparr>email_tokens := ts\<rparr>)"
    and use_email_token: "P d \<Longrightarrow> P (d\<lparr>email_tokens := tbl_update (\<lambda>r. et_token r = tok)
      (\<lambda>r. r\<lparr>et_used_at := Some st\<rparr>) (email_tokens d)\<rparr>)"
    and add_relay: "P d \<Longrightarrow> P (d\<lparr>relays := tbl_ignore fst rl (relays d)\<rparr>)"
    and add_blob: "P d \<Longrightarrow> insert_blob bl d = (Inr (), d') \<Longrightarrow> P d'"
    and cut_blobs: "P d \<Longrightarrow> P (d\<lparr>blobs := tbl_delete p7 (blobs d)\<rparr>)"
    and put_setting: "P d \<Longrightarrow> P (d\<lparr>settings := tbl_upsert fst kv (settings d)\<rparr>)"
    and put_preferences: "P d \<Longrightarrow> upsert_preferences did raw d = (Inr (), d') \<Longrightarrow> P d'"
    and add_mute: "P d \<Longrightarrow> insert_mute did subject d = (Inr (), d') \<Longrightarrow> P d'"
    and cut_mutes: "P d \<Longrightarrow> P (d\<lparr>mutes := tbl_delete p8 (mutes d)\<rparr>)"
    and put_bridge: "P d \<Longrightarrow> P (d\<lparr>bridge_config := tbl_upsert fst kv (bridge_config d)\<rparr>)"
    and add_sync: "P d \<Longrightarrow> P (d\<lparr>bridge_sync := tbl_ignore sync_key sr (bridge_sync d)\<rparr>)"

section \<open>Rules for the constructs\<close>

text \<open>\<open>safe P m\<close>: \<open>m\<close> keeps the property \<open>P\<close> of the tables, whatever its outcome.\<close>

definition safe :: "(database \<Rightarrow> bool) \<Rightarrow> ('r pds, 'a) go \<Rightarrow> bool" where
  "safe P m \<longleftrightarrow> preserves (\<lambda>s. P (db s)) m"

definition w_safe :: "(database \<Rightarrow> bool) \<Rightarrow> ('r pds, 'a) writer \<Rightarrow> bool" where
  "w_safe P m \<longleftrightarrow> preserves (\<lambda>(s, w). P (db s)) m"

named_theorems safe_intro \<open>operations that keep a property of the tables\<close>

lemma safe_pure [safe_intro]:
  "safe P (go_ret x1)" "safe P (go_raise e)" "safe P (go_reads g)" "safe P (go_of r)" "safe P (time_now E)"
  "safe P (now_after E t)" "safe P (rand_read E k)" "safe P (generate_key E)" "safe P (http_do E verb u body)"
  "safe P (sql E (q_rows h1))" "safe P (sql E (q_row h2))" "safe P (WriteJSON v)" "safe P (WriteXRPCError n x m)"
  unfolding safe_def by (intro preserves_intro)+

lemma safe_constructs [safe_intro]:
  "safe P m \<Longrightarrow> (\<And>x. safe P (k x)) \<Longrightarrow> safe P (go_bind m k)"
  "safe P m \<Longrightarrow> safe P (go_wrap w m)" "safe P m \<Longrightarrow> safe P (go_try m)"
  "(\<And>x. safe P (b x)) \<Longrightarrow> safe P (go_foreach b xs)"
  "safe P m \<Longrightarrow> (\<And>x. safe P (h x)) \<Longrightarrow> safe P (on_error m g h)"
  "safe P m \<Longrightarrow> safe P (ignoring m)" "safe P m \<Longrightarrow> safe P (scan_or z m)" "safe P m \<Longrightarrow> safe P (or_no_rows m)"
  "(\<And>x. safe P (d x)) \<Longrightarrow> safe P (DecodeBody by d)"
  "(\<And>x. safe P (q x)) \<Longrightarrow> safe P (requireAuth E rq q)"
  unfolding safe_def by (intro preserves_intro; assumption?)+

lemma safe_cases [safe_intro]:
  "safe P m \<Longrightarrow> safe P n \<Longrightarrow> safe P (if b then m else n)"
  "safe P m \<Longrightarrow> (\<And>x. safe P (k x)) \<Longrightarrow> safe P (case o1 of None \<Rightarrow> m | Some x \<Rightarrow> k x)"
  "(\<And>x. safe P (l x)) \<Longrightarrow> (\<And>x. safe P (k x)) \<Longrightarrow> safe P (case s1 of Inl x \<Rightarrow> l x | Inr x \<Rightarrow> k x)"
  "(\<And>x y. safe P (c x y)) \<Longrightarrow> safe P (case p of (x, y) \<Rightarrow> c x y)"
  "safe P m \<Longrightarrow> (\<And>x xs. safe P (c2 x xs)) \<Longrightarrow> safe P (case ys of [] \<Rightarrow> m | x # xs \<Rightarrow> c2 x xs)"
  by (auto split: option.split sum.split prod.split list.split)

lemma safe_limit_strict [safe_intro]: "(\<And>n. safe P (k n)) \<Longrightarrow> safe P (limit_strict d m x rq k)"
  unfolding limit_strict_def Let_def by (intro safe_intro)

lemma safe_modify: "(\<And>s. db (g s) = db s) \<Longrightarrow> safe P (go_modify g)"
  by (simp add: safe_def preserves_modify)

lemma safe_sql: "(\<And>x d d'. P d \<Longrightarrow> q d = (Inr x, d') \<Longrightarrow> P d') \<Longrightarrow> safe P (sql E q)"
  by (simp add: safe_def preserves_sql)

lemma safe_exec: "(\<And>d. P d \<Longrightarrow> P (f d)) \<Longrightarrow> safe P (sql E (q_exec f))"
  by (rule safe_sql) (auto simp: go_inv)

lemma safe_os_call [safe_intro]: "safe P m \<Longrightarrow> safe P (os_call E msg m)"
  by (simp add: safe_def preserves_os_call)

lemma safe_tx:
  assumes "safe P body"
  shows "safe P (sql_tx E body)"
  unfolding safe_def
proof (rule preservesI)
  fix s r t
  assume P: "P (db s)" and run: "sql_tx E body s = (r, t)"
  have "P (db u)" if "body (s\<lparr>tick := n\<rparr>) = (x, u)" for n x u
    using preservesD [OF assms [unfolded safe_def] _ that] P by simp
  with sql_tx_cases [OF run] P show "P (db t)" by auto
qed

lemma safe_run_blk:
  "(\<And>c. safe P (get c)) \<Longrightarrow> (\<And>c d. safe P (put c d)) \<Longrightarrow> safe P (run_blk get put p)"
  by (induction p) (auto intro!: safe_intro)

lemma w_safe_intros [safe_intro]:
  "w_safe P (go_ret x)" "w_safe P (go_raise e)"
  "w_safe P m \<Longrightarrow> (\<And>x. w_safe P (k x)) \<Longrightarrow> w_safe P (go_bind m k)"
  "(\<And>x. w_safe P (b x)) \<Longrightarrow> w_safe P (go_foreach b xs)"
  "(\<And>x. w_safe P (l x)) \<Longrightarrow> (\<And>x. w_safe P (k x)) \<Longrightarrow> w_safe P (case s1 of Inl x \<Rightarrow> l x | Inr x \<Rightarrow> k x)"
  "(\<And>x y. w_safe P (c x y)) \<Longrightarrow> w_safe P (case p of (x, y) \<Rightarrow> c x y)"
  unfolding w_safe_def by (intro preserves_intro; assumption?)+

lemma w_safe_lift [safe_intro]: "safe P m \<Longrightarrow> w_safe P (w_lift m)"
  unfolding safe_def w_safe_def
  by (rule preservesI) (auto simp: w_lift_def split: prod.splits dest: preservesD)

lemma w_safe_emit [safe_intro]: "w_safe P (w_emit bs)"
  by (auto simp: w_safe_def preserves_def w_emit_def)

lemma w_safeD: "w_safe P m \<Longrightarrow> P (db s) \<Longrightarrow> m (s, w) = (r, (t, w')) \<Longrightarrow> P (db t)"
  unfolding w_safe_def by (auto dest: preservesD)

lemma safe_w_buffer [safe_intro]: "w_safe P m \<Longrightarrow> safe P (w_buffer m)"
  unfolding safe_def
  by (rule preservesI) (auto simp: w_buffer_def split: prod.splits sum.splits dest: w_safeD)

lemma safe_stream_car [safe_intro]: "w_safe P m \<Longrightarrow> safe P (stream_car m)"
  unfolding safe_def
  by (rule preservesI) (auto simp: stream_car_def split: prod.splits dest: w_safeD)

section \<open>Operations that only read\<close>

lemma safe_bs_get [safe_intro]: "safe P (bs_get E c)"
  unfolding safe_def by (rule preservesI) (auto dest: bs_get_state)

lemma safe_recording [safe_intro]: "safe P (rec_get E c)" "safe P rec_begin" "safe P rec_drain"
  unfolding rec_get_def rec_begin_def rec_drain_def by (intro safe_intro safe_modify; simp)+

lemma safe_reads [safe_intro]:
  "safe P (headCID E did)" "safe P (Head E did)" "safe P (recordCID E did c k)" "safe P (batchRecordCID E cur did c k)"
  "safe P (GetRecord E did c k)" "safe P (RecordBlock E did c k)" "safe P (RepoCids E did since)"
  "safe P (ListRecords E did c cursor limit)" "safe P (Collections E did)" "safe P (ListRepos E cursor limit)"
  "safe P (ListReposByCollection E c cursor limit)" "safe P (signed_of E did)" "safe P (signingKey E did)"
  unfolding headCID_def Head_def recordCID_def batchRecordCID_def GetRecord_def RecordBlock_def RepoCids_def
    ListRecords_def Collections_def ListRepos_def ListReposByCollection_def signed_of_def signingKey_def Let_def
  by (intro safe_intro)+

lemma safe_cars [safe_intro]:
  "w_safe P (writeCarHeader E roots)" "w_safe P (writeCarBlock c data)" "w_safe P (write_blocks E w cids)"
  "w_safe P (WriteRepoCAR E did since)" "w_safe P (WriteRecordCAR E did col k)" "w_safe P (WriteBlocksCAR E cids)"
  unfolding writeCarHeader_def writeCarBlock_def write_blocks_def WriteRepoCAR_def WriteRecordCAR_def WriteBlocksCAR_def
  by (intro safe_intro)+

lemma safe_password_ok [safe_intro]: "safe P (password_ok E hash pw)"
  unfolding password_ok_def by (intro safe_intro)

lemma safe_lookups [safe_intro]:
  "safe P (check_refresh E token)" "safe P (lookupAccount E i)" "safe P (resolveLocalDid E name)"
  "safe P (verifyAppPassword E did pw)"
proof -
  show "safe P (check_refresh E token)" "safe P (lookupAccount E i)" "safe P (resolveLocalDid E name)"
    unfolding check_refresh_def lookupAccount_def resolveLocalDid_def by (intro safe_intro)+
  have "safe P (matching_app_password E pw rs)" for rs
    by (induction E pw rs rule: matching_app_password.induct) (auto intro!: safe_intro)
  then show "safe P (verifyAppPassword E did pw)"
    unfolding verifyAppPassword_def by (intro safe_intro)
qed

lemma safe_secrets [safe_intro]:
  "safe P (HashPassword E pw)" "safe P (Encrypt E m)" "safe P (stored_key E did col)"
  "safe P (randomAppPassword E)" "safe P (randomInviteCode E)"
  unfolding HashPassword_def Encrypt_def stored_key_def randomAppPassword_def randomInviteCode_def
  by (intro safe_intro)+

lemma safe_identity [safe_intro]:
  "safe P (plc_submit E base did op)" "safe P (plc_create E base sk rk h u)" "safe P (ResolveDidDoc E base did)"
  "safe P (LatestCID E base did)" "safe P (CreateDidWeb E h u)"
proof -
  show "safe P (plc_submit E base did op)" for did op
    unfolding plc_submit_def by (intro safe_intro)
  then show "safe P (plc_create E base sk rk h u)"
    unfolding plc_create_def by (intro safe_intro)
  show "safe P (ResolveDidDoc E base did)" "safe P (LatestCID E base did)" "safe P (CreateDidWeb E h u)"
    unfolding ResolveDidDoc_def LatestCID_def CreateDidWeb_def Let_def by (intro safe_intro)+
qed

lemma safe_mail [safe_intro]: "safe P (Send E sn to subject body)" "safe P (findEmailToken E token purpose)"
  unfolding Send_def findEmailToken_def Let_def by (intro safe_intro safe_modify; simp)+

lemma safe_blob_reads [safe_intro]: "safe P (blob_open E did c)" "safe P (blob_list E did since cursor limit)"
  unfolding blob_open_def blob_list_def
  by (intro safe_intro; auto simp: safe_def preserves_def split: option.splits)+

lemma safe_account_reads [safe_intro]:
  "safe P (HandleGetSession E rq)" "safe P (HandleCheckAccountStatus E rq)" "safe P (HandleListAppPasswords E rq)"
  "safe P (HandleGetAccountInviteCodes E rq)"
  unfolding HandleGetSession_def HandleCheckAccountStatus_def HandleListAppPasswords_def HandleGetAccountInviteCodes_def
  by (intro safe_intro)+

lemma safe_steps [safe_intro]: "safe P (lookup_step E h)" "safe P (resolve_step E did)" "safe P subscribe"
  by (simp_all add: safe_def preserves_def lookup_step_def resolve_step_def subscribe_def go_defs)

lemma safe_reading_endpoints [safe_intro]:
  "safe P (HandleGetRecord E rq)" "safe P (HandleListRecords E rq)" "safe P (HandleDescribeRepo E rq)"
  "safe P (HandleGetLatestCommit E rq)" "safe P (HandleGetRepo E rq)"
  "safe P (HandleGetCheckout E rq)" "safe P (HandleSyncGetRecord E rq)" "safe P (HandleGetBlocks E rq)"
  "safe P (HandleListRepos E rq)" "safe P HandleListMissingBlobs" "safe P (HandleListReposByCollection E rq)"
  "safe P HandleRequestCrawl" "safe P (HandleGetHostStatus E rq)"
  "safe P (HandleGetRepoStatus E rq)" "safe P (HandleSubscribeRepos w h rq)"
  unfolding HandleGetRecord_def HandleListRecords_def HandleDescribeRepo_def handle_is_correct_def
    HandleGetLatestCommit_def HandleGetRepo_def HandleGetCheckout_def HandleSyncGetRecord_def HandleGetBlocks_def
    HandleListRepos_def HandleListMissingBlobs_def HandleListReposByCollection_def
    HandleRequestCrawl_def HandleGetHostStatus_def HandleGetRepoStatus_def HandleSubscribeRepos_def
  by (intro safe_intro)+

lemma safe_other_endpoints [safe_intro]:
  "safe P (HandleGetBlob E rq)" "safe P (HandleListBlobs E rq)"
  "safe P (serveDidDoc E h)" "safe P (HandleAtprotoDid E rq)" "safe P (HandleResolveHandle E rq)"
  "safe P (HandleResolveDid E rq)" "safe P (HandleHealth E)" "safe P (HandleDescribeServer E cfg)"
  unfolding HandleGetBlob_def HandleListBlobs_def serveDidDoc_def HandleAtprotoDid_def
    HandleResolveHandle_def HandleResolveDid_def HandleHealth_def HandleDescribeServer_def Let_def
  by (intro safe_intro)+

lemma safe_did_endpoints [safe_intro]: "safe P (HandleDidWebWellKnown E rq)" "safe P (HandleDidWebPath E rq)"
  unfolding HandleDidWebWellKnown_def HandleDidWebPath_def Let_def by (intro safe_intro)+

section \<open>From the statements to the endpoints\<close>

context table_invariant begin

text \<open>The repo manager.\<close>

lemma safe_bs_put [safe_intro]: "safe P (bs_put E c data)"
  unfolding bs_put_def by (rule safe_exec) (rule put_block)

lemma safe_rec_put [safe_intro]: "safe P (rec_put E c data)"
  unfolding rec_put_def by (intro safe_intro safe_modify) simp

lemma safe_library [safe_intro]:
  "safe P (run_blk (rec_get E) (rec_put E) p)" "safe P (run_blk (bs_get E) (bs_put E) q)"
  by (intro safe_run_blk safe_intro)+

lemma safe_handles [safe_intro]: "safe P (open_repo E did)" "safe P (lib_call E did f)"
  unfolding open_repo_def lib_call_def by (intro safe_intro safe_modify; simp)+

lemma safe_publish [safe_intro]:
  "safe P (publish E ty ev)" "safe P (EmitAccount E did active status)" "safe P (EmitIdentity E did h)"
  unfolding publish_def set_seq_def EmitAccount_def EmitIdentity_def Let_def
  by (intro safe_intro safe_modify safe_sql; auto simp: go_inv split: sum.splits intro: add_event)+

lemma safe_commit [safe_intro]: "safe P (commit E did)"
  unfolding commit_def insert_commit_def upsert_block_rev_def
  by (intro safe_intro safe_sql; auto simp: go_inv split: sum.splits intro: add_commit put_block_rev)

lemma safe_write_index [safe_intro]: "safe P (write_index E did b)"
  unfolding write_index_def upsertRecord_def delete_record_row_def
  by (intro safe_intro safe_exec put_record cut_records)

lemma safe_emitCommit [safe_intro]: "safe P (emitCommit E did res ops)"
  unfolding emitCommit_def notifyRelays_def by (intro safe_intro safe_modify) simp

lemma safe_apply_ops [safe_intro]: "safe P (apply_ops E did ops b)"
proof (induction ops arbitrary: b)
  case (Cons o1 ops)
  have "safe P (apply_op E did o1 b)"
    unfolding apply_op_def op_create_def op_update_def op_delete_def by (intro safe_intro)
  with Cons show ?case by (simp add: safe_constructs(1))
qed (simp add: safe_pure)

lemma safe_ApplyWrites [safe_intro]: "safe P (ApplyWrites E did ops sw)"
  unfolding ApplyWrites_def applyWrites_def check_swap_commit_def by (intro safe_intro)

lemma safe_CreateAccount [safe_intro]: "safe P (CreateAccount E did)"
  unfolding CreateAccount_def by (intro safe_intro)

lemma safe_clear_repo [safe_intro]: "safe P (clear_repo E did)"
proof -
  have "safe P (sql E (delete_commits_of did))" "safe P (sql E (delete_records_of did))"
    "safe P (sql E (delete_block_revs_of did))"
    unfolding delete_commits_of_def delete_records_of_def delete_block_revs_of_def
    by (rule safe_exec, erule cut_commits cut_records cut_block_revs)+
  then show ?thesis unfolding clear_repo_def by (auto intro!: safe_intro)
qed

lemma safe_DeleteForDID [safe_intro]: "safe P (DeleteForDID E did)"
  unfolding DeleteForDID_def remove_file_def by (intro safe_intro safe_modify safe_exec cut_blobs) simp

lemma safe_DeleteAccount [safe_intro]: "safe P (DeleteAccount E did)"
  unfolding DeleteAccount_def by (intro safe_intro safe_modify) simp

lemma safe_ImportRepo [safe_intro]: "safe P (ImportRepo E did file)"
proof -
  have "safe P (import_blocks E bs)" for bs
    by (induction E bs rule: import_blocks.induct) (auto intro!: safe_intro)
  moreover have "safe P (import_records E es)" for es
    by (induction E es rule: import_records.induct) (auto intro!: safe_intro split: prod.split)
  ultimately have "safe P (import_read E did file)"
    unfolding import_read_def by (intro safe_intro)
  moreover have "safe P (import_tx E did head sc records cids)" for head sc records cids
    unfolding import_tx_def insert_commit_def insert_record_def upsert_block_rev_def
    by (intro safe_intro safe_sql; auto simp: go_inv split: sum.splits intro: add_commit add_record put_block_rev)
  ultimately show ?thesis
    unfolding ImportRepo_def by (intro safe_intro safe_tx safe_modify) simp_all
qed

text \<open>Blobs, sessions, accounts and codes.\<close>

lemma safe_blob_put [safe_intro]: "safe P (blob_put E dir did mime rd)"
  unfolding blob_put_def by (intro safe_intro safe_modify safe_sql; (simp add: add_blob)?)

lemma safe_sessions [safe_intro]: "safe P (mintSession E did app)" "safe P (sql E (delete_session h))"
proof -
  show "safe P (mintSession E did app)"
    unfolding mintSession_def mintAccessJWT_def Let_def
    by (intro safe_intro safe_sql) (auto intro: add_session)
  show "safe P (sql E (delete_session h))"
    unfolding delete_session_def by (rule safe_exec) (rule cut_sessions)
qed

lemma safe_statements [safe_intro]:
  "safe P (sql E (insert_account a))" "safe P (sql E (update_handle did h))" "safe P (sql E (delete_account_row did))"
  "safe P (sql E (set_deactivated did st))" "safe P (sql E (insert_app_password w))"
  "safe P (sql E (delete_app_password did name))" "safe P (sql E (insert_invite i))" "safe P (sql E (use_invite c did n))"
  "safe P (sql E (insert_email_token t))" "safe P (sql E (mark_used tok n))" "safe P (sql E (insert_relay host n))"
proof -
  show "safe P (sql E (insert_account a))" by (rule safe_sql) (auto intro: add_account)
  show "safe P (sql E (update_handle did h))" by (rule safe_sql) (auto intro: set_handle)
  show "safe P (sql E (delete_account_row did))"
    unfolding delete_account_row_def by (rule safe_exec) (rule cut_account)
  show "safe P (sql E (set_deactivated did st))"
    unfolding set_deactivated_def update_account_def by (rule safe_exec) (rule set_account; simp)
  show "safe P (sql E (insert_app_password w))" by (rule safe_sql) (auto intro: add_app_password)
  show "safe P (sql E (delete_app_password did name))"
    unfolding delete_app_password_def by (rule safe_exec) (rule cut_app_passwords)
  show "safe P (sql E (insert_invite i))"
    unfolding insert_invite_def by (rule safe_sql) (auto simp: go_inv split: sum.splits intro: add_invite)
  show "safe P (sql E (use_invite c did n))"
    unfolding Accounts.use_invite_def by (rule safe_exec) (rule use_invite)
  show "safe P (sql E (insert_email_token t))"
    unfolding insert_email_token_def by (rule safe_sql) (auto simp: go_inv split: sum.splits intro: add_email_token)
  show "safe P (sql E (mark_used tok n))"
    unfolding mark_used_def by (rule safe_exec) (rule use_email_token)
  show "safe P (sql E (insert_relay host n))"
    unfolding insert_relay_def by (rule safe_exec) (rule add_relay)
qed

lemma safe_set_account:
  "(\<And>a. acc_did (f a) = acc_did a) \<Longrightarrow> (\<And>a. acc_handle (f a) = acc_handle a) \<Longrightarrow> safe P (sql E (update_account did f))"
  unfolding update_account_def by (rule safe_exec) (rule set_account)

lemma safe_codes [safe_intro]:
  "safe P (make_invites E fresh c now n)" if "safe P fresh"
proof (induction n)
  case (Suc n)
  then show ?case using that by (auto intro!: safe_intro)
qed (simp add: safe_pure)

lemma safe_email [safe_intro]:
  "safe P (issue_email_token E did purpose addr)" "safe P (markEmailTokenUsed E token)"
  "safe P (consumeEmailToken E did token purpose)"
proof -
  show "safe P (issue_email_token E did purpose addr)"
    unfolding issue_email_token_def Let_def by (intro safe_intro)
  show m: "safe P (markEmailTokenUsed E token)"
    unfolding markEmailTokenUsed_def by (intro safe_intro)
  show "safe P (consumeEmailToken E did token purpose)"
    unfolding consumeEmailToken_def by (intro safe_intro m)
qed

end

end
