(* ===== verification/Bridge_Contract.thy ===== *)
theory Bridge_Contract
  imports Contract Console
begin

text \<open>
  What the bridge, the Cloudflare client and the tunnel's page keep: requests to other hosts keep
  every property of the tables, the rest a \<open>table_invariant\<close>.
\<close>

section \<open>Requests\<close>

lemma safe_http_send [safe_intro]: "safe P (http_send E rq)"
  by (simp add: safe_def preserves_def http_send_def)

lemma safe_attempt [safe_intro]: "safe P m \<Longrightarrow> safe P (attempt m)"
  unfolding safe_def
  by (rule preservesI) (auto simp: attempt_def split: prod.splits sum.splits if_splits dest: preservesD)

lemma safe_tally [safe_intro]: "(\<And>x. safe P (f x)) \<Longrightarrow> safe P (tally f xs)"
  by (induction xs) (auto intro!: safe_intro)

lemma safe_walk:
  "\<forall>b. safe P (fn b) \<Longrightarrow> safe P (walkBlobs rank fn v)"
  "\<forall>b. safe P (fn b) \<Longrightarrow> safe P (walk_entries rank fn es)"
  "\<forall>b. safe P (fn b) \<Longrightarrow> safe P (walk_items rank fn vs)"
  by (induction rank fn v and rank fn es and rank fn vs rule: walkBlobs_walk_entries_walk_items.induct)
    (auto intro!: safe_intro)

lemma safe_walkBlobs [safe_intro]: "(\<And>b. safe P (fn b)) \<Longrightarrow> safe P (walkBlobs rank fn v)"
  by (simp add: safe_walk)

lemma safe_bsky [safe_intro]:
  "safe P (accepted what r)" "safe P (bsky_createSession E i pw)" "safe P (bsky_createRecord E tok repo c rec)"
  "safe P (bsky_putRecord E tok repo c k rec)" "safe P (bsky_uploadBlob E tok mime data)"
  "safe P (bsky_listRecords E tok repo c cursor limit)" "safe P (bsky_getRecord E tok repo c k)"
  "safe P (bsky_getBlob E did link)"
  unfolding bsky_createSession_def bsky_createRecord_def bsky_putRecord_def bsky_uploadBlob_def bsky_listRecords_def
    bsky_getRecord_def bsky_getBlob_def bsky_do_def accepted_def
  by (intro safe_intro)+

lemma safe_cf_do [safe_intro]: "safe P (cf_do E token verb path body)"
  unfolding cf_do_def by (intro safe_intro)

lemma safe_cloudflare [safe_intro]:
  "safe P (ZoneInfo E token name)" "safe P (CreateTunnel E token account name)"
  "safe P (UpsertDNS E token zone_id typ name content proxied)"
  unfolding ZoneInfo_def CreateTunnel_def UpsertDNS_def Let_def by (intro safe_intro)+

lemma safe_bridge_reads [safe_intro]:
  "safe P (bridge_Config E)" "safe P (bridge_password E)" "safe P (bridge_localDID E)" "safe P (bridge_resolveHandle E h)"
  "safe P (synced E dn c)" "safe P (failed E what e)" "safe P (publish_blob E tok did b)"
  "safe P (publish_record E tok did c rec)"
  unfolding bridge_Config_def bridge_password_def bridge_localDID_def bridge_resolveHandle_def synced_def failed_def
    publish_blob_def publish_record_def Let_def
  by (intro safe_intro)+

lemma safe_files [safe_intro]:
  "safe P (read_file E p)" "safe P (write_file E p b)" "safe P (stat_ok E p)" "safe P (Ready E m)"
  "safe P (LoadCredentials E m)" "safe P (Provision E m creds h port)" "safe P (apply_credentials E m token account h)"
  "safe P Restart"
proof -
  have read: "safe P (read_file E p)" for p
    unfolding read_file_def by (intro safe_intro) (simp add: safe_def preserves_def split: option.splits)
  have wr: "safe P (write_file E p b)" for p b
    unfolding write_file_def by (intro safe_intro safe_modify) simp
  show "safe P (read_file E p)" "safe P (write_file E p b)" by (rule read, rule wr)
  have stat: "safe P (stat_ok E p)" for p unfolding stat_ok_def by (intro safe_intro read)
  show "safe P (stat_ok E p)" by (rule stat)
  show "safe P (Ready E m)" unfolding Ready_def by (intro safe_intro stat)
  have load: "safe P (LoadCredentials E m)" unfolding LoadCredentials_def by (intro safe_intro read)
  show "safe P (LoadCredentials E m)" by (rule load)
  show "safe P (Provision E m creds h port)" unfolding Provision_def by (intro safe_intro wr)
  show "safe P (apply_credentials E m token account h)" unfolding apply_credentials_def by (intro safe_intro load)
  show "safe P Restart" unfolding Restart_def by (intro safe_modify) simp
qed

lemma safe_bridge_pages [safe_intro]: "safe P (bridgeGet E)" "safe P (bridgeDNS E b)"
  unfolding bridgeGet_def bridgeDNS_def Let_def HttpError_def by (intro safe_intro)+

section \<open>Writes\<close>

lemma safe_publish_item:
  assumes "\<And>c l r. safe P (markSynced E ''publish'' c l r)"
  shows "safe P (publish_item E rank tok localDID remoteDID it)"
  unfolding publish_item_def publishBlobs_def Let_def by (intro safe_intro assms)

lemma safe_publishing:
  assumes "\<And>c l r. safe P (markSynced E ''publish'' c l r)"
  shows "safe P (publish_items E rank tok localDID remoteDID)"
  unfolding publish_items_def by (intro safe_intro safe_publish_item assms)

context table_invariant begin

lemma safe_bridge_config [safe_intro]:
  "safe P (SetHandle E h)" "safe P (SetPassword E pw)" "safe P (SetConfig E h pw)"
proof -
  have put: "safe P (sql E (put_bridge_config k v))" for k v
    unfolding put_bridge_config_def by (rule safe_exec) (rule put_bridge)
  have h: "safe P (SetHandle E h)" for h unfolding SetHandle_def Let_def by (intro safe_intro put)
  have pw: "safe P (SetPassword E pw)" for pw unfolding SetPassword_def by (intro safe_intro put)
  show "safe P (SetHandle E h)" "safe P (SetPassword E pw)" by (rule h, rule pw)
  show "safe P (SetConfig E h pw)" unfolding SetConfig_def Let_def by (intro safe_intro h pw)
qed

lemma safe_markSynced [safe_intro]: "safe P (markSynced E dn c l r)"
  unfolding markSynced_def insert_sync_def by (intro safe_intro safe_exec) (rule add_sync)

lemma safe_PutRecord [safe_intro]: "safe P (PutRecord E did c k rec j)"
  unfolding PutRecord_def singleWrite_def applyWrites_def check_swap_commit_def by (intro safe_intro)

lemma safe_archive_write [safe_intro]: "safe P (archive_write E dir rank remoteDID localDID c k rec)"
proof -
  have "safe P (archive_blob E dir remoteDID localDID b)" for b
    unfolding archive_blob_def Let_def by (intro safe_intro)
  then show ?thesis
    unfolding archive_write_def archiveBlobs_def Let_def by (intro safe_intro)
qed

lemma safe_archive [safe_intro]: "safe P (archive E dir rank tok localDID remoteDID pages)"
proof -
  have r: "safe P (archive_record E dir rank localDID remoteDID r)" for r
    unfolding archive_record_def Let_def by (intro safe_intro)
  have "safe P (archive_pages E dir rank tok localDID remoteDID pages cursor)" for cursor
    by (induction pages arbitrary: cursor) (auto intro!: safe_intro r)
  moreover have "safe P (archive_profile E dir rank tok localDID remoteDID)"
    unfolding archive_profile_def by (intro safe_intro)
  ultimately show ?thesis unfolding archive_def by (intro safe_intro)
qed

lemma safe_publish_items [safe_intro]: "safe P (publish_items E rank tok localDID remoteDID)"
  by (rule safe_publishing) (rule safe_markSynced)

lemma safe_bridge_writes [safe_intro]: "safe P (bridgePut E b)" "safe P (bridgeSync E dir rank pages)"
  unfolding bridgePut_def bridgeSync_def Sync_def by (intro safe_intro)+

lemma safe_cloudflareApply [safe_intro]: "safe P (cloudflareApply E cfg tm b)"
proof -
  have "safe P (SetSetting E k v)" for k v unfolding SetSetting_def by (rule safe_exec) (rule put_setting)
  then show ?thesis unfolding cloudflareApply_def Let_def HttpError_def by (intro safe_intro)
qed

end

end
