(* ===== verification/App_Contract.thy ===== *)
theory App_Contract
  imports Bridge_Contract
begin

text \<open>
  What the AppView and the console keep: the reads of the AppView keep every property of the
  tables, its three writes and those of the console keep a \<open>table_invariant\<close>.
\<close>

section \<open>The reads of the AppView\<close>

lemma safe_collect [safe_intro]: "(\<And>x. safe P (f x)) \<Longrightarrow> safe P (go_collect f xs)"
  by (induction xs) (auto intro!: safe_intro)

lemma safe_proxy [safe_intro]:
  "safe P (proxyXrpcGet E base nsid q)" "safe P (proxyXrpc E rq base nsid)" "safe P (upstream_or z E base nsid q dec)"
  unfolding proxyXrpcGet_def proxyXrpc_def upstream_or_def by (intro safe_intro)+

lemma safe_access [safe_intro]: "safe P (parseAccessJWT E key token)"
  unfolding parseAccessJWT_def by (intro safe_intro)

lemma safe_viewer [safe_intro]:
  "safe P (optionalAuth E rq)" "safe P (recordForSubject E did col path want)" "safe P (isMuted E did sub)"
  "safe P (subject_rows E did col path)" "safe P (muted_subjects E did)" "safe P (loadViewerState E did)"
  "safe P (postViewer E v uri)" "safe P (profileViewer E v sub)"
  unfolding optionalAuth_def loadViewerState_def recordForSubject_def isMuted_def subject_rows_def muted_subjects_def
    postViewer_def profileViewer_def likeURI_def repostURI_def hasFollow_def blockURI_def
  by (intro safe_intro)+

lemma safe_profiles [safe_intro]:
  "safe P (resolveActorDID E actor)" "safe P (isLocal E did)" "safe P (profileRecord E cfg did)"
  "safe P (profileBasic E cfg did v)" "safe P (profileDetailed E cfg did v)" "safe P (remoteProfile E cfg did)"
  unfolding resolveActorDID_def isLocal_def profileBasic_def profileDetailed_def remoteProfile_def
    profileRecord_def countCollection_def countFollowers_def
  by (intro safe_intro)+

lemma safe_feeds [safe_intro]:
  "safe P (postView E cfg did rkey cid value v)" "safe P (buildFeed E cfg did cursor limit v flt)"
  "safe P (writeFeed feed c)" "safe P (followedDIDs E did)" "safe P (remoteAuthorFeed E cfg did n)"
  "safe P (timeline E cfg did cursor limit)" "safe P (remote_page E cfg rq v nsid)"
  unfolding timeline_def timeline_items_def remote_page_def buildFeed_def feed_item_def postView_def countMatches_def writeFeed_def
    followedDIDs_def remoteAuthorFeed_def ListRecordsDesc_def Let_def
  by (intro safe_intro)+

lemma safe_threads [safe_intro]: "safe P (threadView E cfg did v depth rkey)"
  by (induction depth arbitrary: rkey) (auto simp: reply_rkeys_def intro!: safe_intro)

lemma safe_app_reads [safe_intro]:
  "safe P (HandleAppBskyGetProfile E cfg rq)" "safe P (HandleAppBskyGetProfiles E cfg rq)"
  "safe P (HandleAppBskyGetPreferences E rq)" "safe P (HandleAppBskyGetTimeline E cfg rq)"
  "safe P (HandleAppBskyGetAuthorFeed E cfg rq)" "safe P (HandleAppBskyGetFeed E cfg rq)"
  "safe P (HandleAppBskyGetPostThread E cfg rq)"
  unfolding HandleAppBskyGetProfile_def HandleAppBskyGetProfiles_def HandleAppBskyGetPreferences_def loadPreferences_def
    HandleAppBskyGetTimeline_def HandleAppBskyGetAuthorFeed_def HandleAppBskyGetFeed_def HandleAppBskyGetPostThread_def Let_def
  by (intro safe_intro; auto intro!: safe_intro split: option.split json.split)+

lemma safe_app_lists [safe_intro]:
  "safe P (HandleAppBskyGetPosts E cfg rq)" "safe P (HandleAppBskyGetLikes E cfg rq)"
  "safe P (HandleAppBskyGetRepostedBy E cfg rq)" "safe P (HandleAppBskyGetFollows E cfg rq)"
  "safe P (HandleAppBskyGetFollowers E cfg rq)" "safe P (HandleAppBskyGetBlocks E cfg rq)"
  "safe P (HandleAppBskyGetMutes E cfg rq)"
  unfolding HandleAppBskyGetPosts_def HandleAppBskyGetLikes_def HandleAppBskyGetRepostedBy_def HandleAppBskyGetFollows_def
    HandleAppBskyGetFollowers_def HandleAppBskyGetBlocks_def HandleAppBskyGetMutes_def split_uris_def local_post_def
    is_local_uri_def localLikes_def localReposters_def remote_profiles_def subjectProfile_def subjectDIDs_def Let_def
  by (intro safe_intro)+

lemma safe_app_rest [safe_intro]:
  "safe P (HandleAppBskyGetLists E rq)" "safe P (HandleAppBskyGetListBlocks E rq)" "safe P (HandleAppBskyGetListMutes E rq)"
  "safe P HandleAppBskyGetFeedGenerators" "safe P (HandleAppBskySearchActorsTypeahead E rq)"
  "safe P (HandleAppBskyListNotifications E rq)" "safe P (HandleAppBskySearchActors E cfg rq)"
  "safe P (HandleAppBskySearchPosts E cfg rq)" "safe P (HandleAppBskyGetSuggestions E cfg rq)"
  "safe P (passthroughAppview E cfg rq nothing)" "safe P (HandleAppBskyGetUnreadCount E rq)"
  "safe P (HandleAppBskyUpdateSeen E rq b)" "safe P (HandleAppBskyRegisterPush E rq b)" "safe P (HandleChatListConvos E rq)"
  unfolding HandleAppBskyGetLists_def HandleAppBskyGetListBlocks_def HandleAppBskyGetListMutes_def
    HandleAppBskyGetFeedGenerators_def HandleAppBskySearchActorsTypeahead_def HandleAppBskyListNotifications_def
    HandleAppBskySearchActors_def HandleAppBskySearchPosts_def search_reply_def HandleAppBskyGetSuggestions_def
    passthroughAppview_def HandleAppBskyGetUnreadCount_def HandleAppBskyUpdateSeen_def HandleAppBskyRegisterPush_def
    HandleChatListConvos_def
  by (intro safe_intro)+

text \<open>The calls that write.\<close>

definition app_writes :: "app_call \<Rightarrow> bool" where
  "app_writes c \<longleftrightarrow> (case c of ApPutPreferences _ \<Rightarrow> True | ApMuteActor _ \<Rightarrow> True | ApUnmuteActor _ \<Rightarrow> True | _ \<Rightarrow> False)"

lemma safe_appview_read: "\<not> app_writes c \<Longrightarrow> safe P (appview E cfg rq c)"
  by (cases c) (simp_all add: appview_def app_writes_def safe_app_reads safe_app_lists safe_app_rest)

section \<open>The reads of the console\<close>

lemma safe_HttpError [safe_intro]: "safe P (HttpError n m)"
  by (simp add: safe_def preserves_def HttpError_def go_defs)

lemma safe_console_reads [safe_intro]:
  "safe P (console_overview E cfg n)" "safe P (console_diagnostics E cfg t)" "safe P (settingsGet E cfg)"
  "safe P (console_accounts E)" "safe P (console_account E did)" "safe P (console_records E rq did)"
  "safe P (console_commits E rq did)" "safe P (writeBlobs E rq did)" "safe P (console_sessions E did)"
  "safe P (console_app_passwords E did)" "safe P (console_relays E)"
  "safe P (console_invites E)" "safe P (eventsStream w E rq)" "safe P (console_me E token rq)"
  unfolding console_overview_def console_diagnostics_def count_of_def settingsGet_def LoadSettings_def
    console_accounts_def console_account_def console_records_def console_commits_def writeBlobs_def console_sessions_def
    console_app_passwords_def console_relays_def console_invites_def eventsStream_def console_me_def Let_def
  by (intro safe_intro)+

lemma safe_token_views [safe_intro]: "safe P (token_views E rs)"
  by (induction rs) (auto simp: token_status_def intro!: safe_intro)

lemma safe_console_tokens [safe_intro]: "safe P (console_email_tokens E)"
  unfolding console_email_tokens_def by (intro safe_intro)

lemma safe_notifyRelays [safe_intro]: "safe P (notifyRelays E)"
  unfolding notifyRelays_def by (intro safe_intro safe_modify) simp

lemma safe_console_random [safe_intro]: "safe P (console_random_password E)" "safe P (randomHex E n)"
  unfolding console_random_password_def randomHex_def by (intro safe_intro)+

section \<open>The writes\<close>

context table_invariant begin

lemma safe_SetSetting [safe_intro]: "safe P (SetSetting E k v)"
  unfolding SetSetting_def by (rule safe_exec) (rule put_setting)

lemma safe_app_statements [safe_intro]:
  "safe P (savePreferences E did raw)" "safe P (sql E (insert_mute did sub))" "safe P (sql E (delete_mute did sub))"
proof -
  show "safe P (savePreferences E did raw)"
    unfolding savePreferences_def by (rule safe_sql) (auto intro: put_preferences)
  show "safe P (sql E (insert_mute did sub))" by (rule safe_sql) (auto intro: add_mute)
  show "safe P (sql E (delete_mute did sub))"
    unfolding delete_mute_def by (rule safe_exec) (rule cut_mutes)
qed

lemma safe_appview [safe_intro]: "safe P (appview E cfg rq c)"
proof (cases "app_writes c")
  case True
  have "safe P (HandleAppBskyPutPreferences E rq b)" "safe P (HandleAppBskyMuteActor E rq b2)"
    "safe P (HandleAppBskyUnmuteActor E rq b2)" for b b2
    unfolding HandleAppBskyPutPreferences_def HandleAppBskyMuteActor_def HandleAppBskyUnmuteActor_def
    by (intro safe_intro; auto intro!: safe_intro split: json.split)+
  with True show ?thesis by (cases c) (simp_all add: appview_def app_writes_def)
qed (rule safe_appview_read)

lemma safe_console_writes [safe_intro]:
  "safe P (settingsPut E visit b)" "safe P (console_deactivate E did)" "safe P (console_activate E did)"
  "safe P (console_delete E did)" "safe P (console_create_invites E n)" "safe P (console_create_password E did b2)"
  "safe P (console_revoke_password E did b2)" "safe P (console_crawl E)"
  unfolding settingsPut_def console_deactivate_def console_activate_def console_delete_def console_create_invites_def
    console_create_password_def console_revoke_password_def console_crawl_def Let_def
  by (intro safe_intro)+

lemma safe_settings_restart [safe_intro]: "safe P (settings_restart E tunnelled)"
  unfolding settings_restart_def by (intro safe_intro safe_modify) simp_all

lemma safe_console [safe_intro]: "safe P (console E cfg dir rq w c)"
proof -
  have "safe P (console_route E cfg dir rq w c)"
    by (cases c) (simp_all add: console_route_def safe_console_reads safe_console_tokens safe_console_writes
      safe_bridge_pages safe_bridge_writes safe_cloudflareApply safe_settings_restart)
  then show ?thesis unfolding console_def console_auth_def by (intro safe_intro)
qed

end

end
