(* ===== verification/Server.thy ===== *)
theory Server
  imports Feed Console
begin

text \<open>
  \<open>internal/server/server.go\<close>: the routes of the server, the rate limiter in front of three of
  them, and the answer to preflight requests. A request is served from the state of the last
  one. The AppView and the console are one route each, with their own calls.
\<close>

section \<open>Routes\<close>

text \<open>A route with what its handler decodes from the body, or the error of decoding it.\<close>

datatype (plugins only: code) call =
    RqHealth | RqDescribeServer | RqResolveHandle | RqResolveDid | RqUpdateHandle "go_error + string"
  | RqDidWebWellKnown | RqAtprotoDid | RqDidWebPath
  | RqCreateSession "go_error + string \<times> string" | RqGetSession | RqRefreshSession "go_error + string"
  | RqDeleteSession | RqCreateAccount "go_error + create_input"
  | RqDeactivateAccount | RqActivateAccount | RqDeleteAccount "go_error + string" | RqCheckAccountStatus
  | RqCreateAppPassword "go_error + string" | RqListAppPasswords | RqRevokeAppPassword "go_error + string"
  | RqCreateInviteCodes "go_error + int" | RqGetAccountInviteCodes
  | RqRequestEmailConfirmation | RqConfirmEmail "go_error + string \<times> string"
  | RqRequestPasswordReset "go_error + string" | RqResetPassword "go_error + string \<times> string"
  | RqCreateRecord "go_error + create_record_input" | RqPutRecord "go_error + put_record_input"
  | RqDeleteRecord "go_error + delete_record_input" | RqApplyWrites "go_error + apply_writes_input"
  | RqGetRecord | RqListRecords | RqDescribeRepo | RqImportRepo bytes | RqUploadBlob "go_error + bytes"
  | RqGetLatestCommit | RqGetRepo | RqGetCheckout | RqSyncGetRecord | RqGetBlocks | RqGetBlob
  | RqListRepos | RqListBlobs | RqListMissingBlobs | RqListReposByCollection
  | RqNotifyOfUpdate "go_error + string" | RqRequestCrawl | RqGetHostStatus | RqGetRepoStatus
  | RqSubscribeRepos "go_error + bytes" | RqApp app_call | RqConsole console_call

text \<open>\<open>dir\<close> is the directory of the blob store, \<open>cfg.DataDir\<close> joined with \<open>blobs\<close>.\<close>

definition routes :: "'r env \<Rightarrow> config \<Rightarrow> string \<Rightarrow> request \<Rightarrow> call \<Rightarrow> response_writer \<Rightarrow> 'r handler" where
  "routes E cfg dir rq c w =
     (case c of
        RqHealth \<Rightarrow> HandleHealth E
      | RqDescribeServer \<Rightarrow> HandleDescribeServer E cfg
      | RqResolveHandle \<Rightarrow> HandleResolveHandle E rq
      | RqResolveDid \<Rightarrow> HandleResolveDid E rq
      | RqUpdateHandle b \<Rightarrow> HandleUpdateHandle E cfg rq b
      | RqDidWebWellKnown \<Rightarrow> HandleDidWebWellKnown E rq
      | RqAtprotoDid \<Rightarrow> HandleAtprotoDid E rq
      | RqDidWebPath \<Rightarrow> HandleDidWebPath E rq
      | RqCreateSession b \<Rightarrow> HandleCreateSession E b
      | RqGetSession \<Rightarrow> HandleGetSession E rq
      | RqRefreshSession b \<Rightarrow> HandleRefreshSession E b
      | RqDeleteSession \<Rightarrow> HandleDeleteSession E rq
      | RqCreateAccount b \<Rightarrow> HandleCreateAccount E cfg b
      | RqDeactivateAccount \<Rightarrow> HandleDeactivateAccount E rq
      | RqActivateAccount \<Rightarrow> HandleActivateAccount E rq
      | RqDeleteAccount b \<Rightarrow> HandleDeleteAccount E rq b
      | RqCheckAccountStatus \<Rightarrow> HandleCheckAccountStatus E rq
      | RqCreateAppPassword b \<Rightarrow> HandleCreateAppPassword E rq b
      | RqListAppPasswords \<Rightarrow> HandleListAppPasswords E rq
      | RqRevokeAppPassword b \<Rightarrow> HandleRevokeAppPassword E rq b
      | RqCreateInviteCodes b \<Rightarrow> HandleCreateInviteCodes E rq b
      | RqGetAccountInviteCodes \<Rightarrow> HandleGetAccountInviteCodes E rq
      | RqRequestEmailConfirmation \<Rightarrow> HandleRequestEmailConfirmation E (new_sender cfg) rq
      | RqConfirmEmail b \<Rightarrow> HandleConfirmEmail E rq b
      | RqRequestPasswordReset b \<Rightarrow> HandleRequestPasswordReset E (new_sender cfg) b
      | RqResetPassword b \<Rightarrow> HandleResetPassword E b
      | RqCreateRecord b \<Rightarrow> HandleCreateRecord E rq b
      | RqPutRecord b \<Rightarrow> HandlePutRecord E rq b
      | RqDeleteRecord b \<Rightarrow> HandleDeleteRecord E rq b
      | RqApplyWrites b \<Rightarrow> HandleApplyWrites E rq b
      | RqGetRecord \<Rightarrow> HandleGetRecord E rq
      | RqListRecords \<Rightarrow> HandleListRecords E rq
      | RqDescribeRepo \<Rightarrow> HandleDescribeRepo E rq
      | RqImportRepo b \<Rightarrow> HandleImportRepo E (AdminToken cfg) rq b
      | RqUploadBlob b \<Rightarrow> HandleUploadBlob E dir (BlobSizeLimit cfg) rq b
      | RqGetLatestCommit \<Rightarrow> HandleGetLatestCommit E rq
      | RqGetRepo \<Rightarrow> HandleGetRepo E rq
      | RqGetCheckout \<Rightarrow> HandleGetCheckout E rq
      | RqSyncGetRecord \<Rightarrow> HandleSyncGetRecord E rq
      | RqGetBlocks \<Rightarrow> HandleGetBlocks E rq
      | RqGetBlob \<Rightarrow> HandleGetBlob E rq
      | RqListRepos \<Rightarrow> HandleListRepos E rq
      | RqListBlobs \<Rightarrow> HandleListBlobs E rq
      | RqListMissingBlobs \<Rightarrow> HandleListMissingBlobs
      | RqListReposByCollection \<Rightarrow> HandleListReposByCollection E rq
      | RqNotifyOfUpdate b \<Rightarrow> HandleNotifyOfUpdate E b
      | RqRequestCrawl \<Rightarrow> HandleRequestCrawl
      | RqGetHostStatus \<Rightarrow> HandleGetHostStatus E rq
      | RqGetRepoStatus \<Rightarrow> HandleGetRepoStatus E rq
      | RqSubscribeRepos h \<Rightarrow> HandleSubscribeRepos w h rq
      | RqApp a \<Rightarrow> appview E cfg rq a
      | RqConsole a \<Rightarrow> console E cfg dir rq w a)"

text \<open>\<open>Server.Handler\<close>: every route is run by \<open>logUnhandled\<close>.\<close>

definition serve :: "'r env \<Rightarrow> config \<Rightarrow> string \<Rightarrow> request \<Rightarrow> call \<Rightarrow> 'r handler" where
  "serve E cfg dir rq c = logUnhandled (routes E cfg dir rq c) NetWriter"

lemmas serve_defs = serve_def logUnhandled_def routes_def

text \<open>The routes registered behind \<open>rateLimit(authLimiter, clientKey, ...)\<close>.\<close>

definition limited :: "call \<Rightarrow> bool" where
  "limited c \<longleftrightarrow>
     (case c of RqCreateSession _ \<Rightarrow> True | RqRefreshSession _ \<Rightarrow> True | RqCreateAccount _ \<Rightarrow> True | _ \<Rightarrow> False)"

section \<open>The server\<close>

record 'r server =
  sv_limiter :: limiter
  sv_pds :: "'r pds"

record visit =
  vi_now :: int
  vi_sec :: int
  vi_request :: request
  vi_call :: call

definition visit_arrival :: "config \<Rightarrow> visit \<Rightarrow> arrival" where
  "visit_arrival cfg v =
     \<lparr>ar_now = vi_now v, ar_sec = vi_sec v, ar_key = clientIP (TrustProxy cfg) (vi_request v)\<rparr>"

text \<open>\<open>cors\<close>: a preflight request is answered without a handler.\<close>

definition preflight :: response where
  "preflight = Content 204 [] []"

definition respond :: "'r env \<Rightarrow> config \<Rightarrow> string \<Rightarrow> visit \<Rightarrow> ('r server, response) go" where
  "respond E cfg dir v sv =
     (let h = serve E cfg dir (vi_request v) (vi_call v) in
      if rq_method (vi_request v) = ''OPTIONS'' then (Inr preflight, sv)
      else if limited (vi_call v) then
        (case rateLimit (sv_limiter sv) (visit_arrival cfg v) h of (l, h') \<Rightarrow>
           case h' (sv_pds sv) of (r, t) \<Rightarrow> (r, \<lparr>sv_limiter = l, sv_pds = t\<rparr>))
      else case h (sv_pds sv) of (r, t) \<Rightarrow> (r, sv\<lparr>sv_pds := t\<rparr>))"

fun respond_all :: "'r env \<Rightarrow> config \<Rightarrow> string \<Rightarrow> visit list \<Rightarrow> 'r server \<Rightarrow> 'r server" where
  "respond_all E cfg dir [] sv = sv"
| "respond_all E cfg dir (v # vs) sv = respond_all E cfg dir vs (snd (respond E cfg dir v sv))"

text \<open>A request leaves the state as it is, or as its handler left it.\<close>

lemma respond_pds:
  "sv_pds (snd (respond E cfg dir v sv)) = sv_pds sv \<or>
   sv_pds (snd (respond E cfg dir v sv)) = snd (serve E cfg dir (vi_request v) (vi_call v) (sv_pds sv))"
  by (auto simp: respond_def rateLimit_def Let_def go_defs split: prod.splits)

lemma respond_all_induct:
  assumes "\<And>rq c. preserves Q (serve E cfg dir rq c)"
  shows "Q (sv_pds sv) \<Longrightarrow> Q (sv_pds (respond_all E cfg dir vs sv))"
proof (induction vs arbitrary: sv)
  case (Cons v vs)
  have "Q (sv_pds (snd (respond E cfg dir v sv)))"
    using respond_pds [of E cfg dir v sv] assms Cons.prems by (auto simp: preserves_def)
  with Cons.IH show ?case by simp
qed simp

section \<open>Streams\<close>

lemma parse_cursor_calm: "parse_cursor raw = Inl e \<Longrightarrow> \<not> panics e"
  by (auto simp: parse_cursor_def parse_int64_def panics_def Let_def split: if_splits sum.splits option.splits)


end
