(* ===== verification/Sessions.thy ===== *)
theory Sessions
  imports Auth
begin

text \<open>
  What the session endpoints of \<open>Auth\<close> promise: who gets a session, what a refresh does to the
  table of sessions, and that a refresh token works once.
\<close>

section \<open>Steps\<close>

lemma password_ok_iff: "password_ok E h p s = (Inr b, t) \<longleftrightarrow>
    t = s \<and> (VerifyPassword E h p = Inr b \<or> (\<exists>e. VerifyPassword E h p = Inl e \<and> \<not> panics e \<and> \<not> b))"
  by (auto simp: password_ok_def go_inv split: sum.splits if_splits)

lemma password_ok_True [simp]: "password_ok E h p s = (Inr True, t) \<longleftrightarrow> t = s \<and> VerifyPassword E h p = Inr True"
  by (auto simp: password_ok_iff)

lemma matching_app_password_Some:
  "matching_app_password E p rs s = (Inr (Some n), t) \<Longrightarrow>
     t = s \<and> (\<exists>r \<in> set rs. ap_name r = n \<and> VerifyPassword E (ap_hash r) p = Inr True)"
proof (induction rs)
  case Nil
  then show ?case by (simp add: go_inv)
next
  case (Cons r rs)
  then obtain b where b: "password_ok E (ap_hash r) p s = (Inr b, s)"
    and k: "(if b then go_ret (Some (ap_name r)) else matching_app_password E p rs) s = (Inr (Some n), t)"
    by (auto simp: go_inv password_ok_iff)
  show ?case
  proof (cases b)
    case True
    with b k show ?thesis by (auto simp: go_inv)
  next
    case False
    with Cons.IH k show ?thesis by auto
  qed
qed

lemma verifyAppPassword_Some:
  assumes "verifyAppPassword E did p s = (Inr (Some n), t)"
  shows "t = s\<lparr>tick := Suc (tick s)\<rparr> \<and> (\<exists>r \<in> set (app_passwords (db s)). ap_did r = did \<and> ap_name r = n \<and>
    VerifyPassword E (ap_hash r) p = Inr True)"
proof -
  from assms obtain rows u where
    rows: "scan_or [] (sql E (q_rows (\<lambda>d. filter (\<lambda>r. ap_did r = did) (app_passwords d)))) s = (Inr rows, u)"
    and m: "matching_app_password E p rows u = (Inr (Some n), t)"
    by (auto simp: verifyAppPassword_def go_bind_Inr_iff)
  note found = matching_app_password_Some [OF m]
  from rows found have "rows = filter (\<lambda>r. ap_did r = did) (app_passwords (db s))" "u = s\<lparr>tick := Suc (tick s)\<rparr>"
    by (auto simp: go_inv dest: sql_InlD)
  with found show ?thesis by auto
qed

text \<open>\<open>lookupAccount\<close> and the row a session adds.\<close>

lemma lookupAccount_Inr:
  "lookupAccount E i s = (Inr (did, handle, hash), t) \<longleftrightarrow>
     \<not> fault E (tick s) \<and> t = s\<lparr>tick := Suc (tick s)\<rparr> \<and>
     (\<exists>a. account_named i (db s) = Some a \<and> acc_deactivated_at a = None \<and>
        acc_did a = did \<and> acc_handle a = handle \<and> acc_password_hash a = hash)"
  by (auto simp: lookupAccount_def go_inv split: option.splits if_splits)

definition new_session :: "'r env \<Rightarrow> did \<Rightarrow> string \<Rightarrow> string \<Rightarrow> int \<Rightarrow> session" where
  "new_session E did refresh app now = \<lparr>ses_token_hash = hashToken E refresh, ses_did = did,
     ses_created_at = Stamp now, ses_expires_at = Stamp (now + 2592000), ses_app_password = Some app\<rparr>"

text \<open>\<open>issues E did app s t access refresh\<close>: from \<open>s\<close> to \<open>t\<close> one session of the account was added.\<close>

definition issues :: "'r env \<Rightarrow> did \<Rightarrow> string \<Rightarrow> database \<Rightarrow> database \<Rightarrow> string \<Rightarrow> string \<Rightarrow> bool" where
  "issues E did app d d' access refresh \<longleftrightarrow>
     did \<in> acc_did ` set (accounts d) \<and> hashToken E refresh \<notin> ses_token_hash ` set (auth_sessions d) \<and>
     (\<exists>now iat. access = sign_token E (mac_key E) \<lparr>cl_sub = did, cl_iat = iat, cl_exp = iat + 7200\<rparr> \<and>
        d' = d\<lparr>auth_sessions := auth_sessions d @ [new_session E did refresh app now]\<rparr>)"

lemma mintSession_issues:
  assumes "mintSession E did app s = (Inr (access, refresh), t)"
  shows "issues E did app (db s) (db t) access refresh"
proof -
  from assms obtain d where
    access: "access = sign_token E (mac_key E) \<lparr>cl_sub = did, cl_iat = clock E (tick s), cl_exp = clock E (tick s) + 7200\<rparr>"
    and ins: "insert_session (new_session E did refresh app (clock E (Suc (tick s)))) (db s) = (Inr (), d)"
    and t: "db t = d"
    by (auto simp: mintSession_def mintAccessJWT_def go_inv Let_def new_session_def refreshTokenTTL_def)
  from ins have "did \<in> acc_did ` set (accounts (db s))"
    "hashToken E refresh \<notin> ses_token_hash ` set (auth_sessions (db s))"
    "d = (db s)\<lparr>auth_sessions := auth_sessions (db s) @ [new_session E did refresh app (clock E (Suc (tick s)))]\<rparr>"
    by (auto simp: insert_session_def go_inv tbl_has_iff tbl_insert_def new_session_def split: if_splits sum.splits)
  with access t show ?thesis unfolding issues_def by blast
qed

section \<open>Logging in\<close>

text \<open>C8: Who gets a session: a login that succeeds named an active account and gave its password or one
  of its app passwords, checked against the stored hash; exactly one session row was added,
  for that account, under the hash of the returned refresh token, and nothing else in the
  database changed. The access token names the same account for two hours.\<close>

theorem createSession_sound:
  assumes "HandleCreateSession E body s = (Inr (Json v), t)"
  shows "\<exists>ident password a app access refresh.
    body = Inr (ident, password) \<and>
    account_named ident (db s) = Some a \<and> acc_deactivated_at a = None \<and>
    (VerifyPassword E (acc_password_hash a) password = Inr True \<and> app = [] \<or>
     (\<exists>r \<in> set (app_passwords (db s)). ap_did r = acc_did a \<and> ap_name r = app \<and>
        VerifyPassword E (ap_hash r) password = Inr True)) \<and>
    issues E (acc_did a) app (db s) (db t) access refresh \<and>
    v = session_json access refresh (acc_handle a) (acc_did a)"
proof -
  from assms obtain ident password did handle hash u ok login u' access refresh where
    body: "body = Inr (ident, password)"
    and look: "lookupAccount E ident s = (Inr (did, handle, hash), u)"
    and ok: "password_ok E hash password u = (Inr ok, u)"
    and login: "(if ok then go_ret (Some []) else verifyAppPassword E did password) u = (Inr (Some login), u')"
    and mint: "mintSession E did login u' = (Inr (access, refresh), t)"
    and v: "v = session_json access refresh handle did"
    by (auto simp: HandleCreateSession_def DecodeBody_def on_error_Json unauthorized_def go_inv
        password_ok_iff split: option.splits)
  from look obtain a where a: "account_named ident (db s) = Some a" "acc_deactivated_at a = None"
    "acc_did a = did" "acc_handle a = handle" "acc_password_hash a = hash" and u: "db u = db s"
    by (auto simp: lookupAccount_Inr)
  have "VerifyPassword E hash password = Inr True \<and> login = [] \<or>
      (\<exists>r \<in> set (app_passwords (db s)). ap_did r = did \<and> ap_name r = login \<and>
         VerifyPassword E (ap_hash r) password = Inr True)" and "db u' = db s"
    using ok login u by (cases ok; auto simp: go_inv dest!: verifyAppPassword_Some)+
  with mintSession_issues [OF mint] body a v show ?thesis by (intro exI conjI) auto
qed

section \<open>Refreshing\<close>

lemma check_refresh_Inr:
  assumes "check_refresh E token s = (Inr row, t)"
  shows "db t = db s" and "tbl_get ses_token_hash (hashToken E token) (auth_sessions (db s)) = Some row"
    and "\<exists>exp. parse_rfc3339 (ses_expires_at row) = Inr exp \<and> clock E (Suc (tick s)) \<le> exp"
    and "\<exists>a. find_account (\<lambda>a. acc_did a = ses_did row) (db s) = Some a \<and> acc_deactivated_at a = None"
  using assms by (auto simp: check_refresh_def go_inv split: option.splits if_splits)

lemma check_refresh_gone:
  assumes "tbl_get ses_token_hash (hashToken E token) (auth_sessions (db s)) = None"
  shows "\<exists>e t. check_refresh E token s = (Inl e, t) \<and> \<not> panics e \<and> db t = db s"
  using assms by (auto simp: check_refresh_def go_bind_def sql_def q_row_def Let_def panics_def)

text \<open>C9: A refresh token works once: a refresh that succeeds presented the token of an unexpired
  session of an active account; that session is gone and one new session of the same account
  is there instead, every other row being as it was. The old token, presented again, is
  refused and changes nothing (unless the random new one has the same hash).\<close>

theorem refresh_rotates:
  assumes "HandleRefreshSession E (Inr token) s = (Inr (Json v), t)"
  shows "\<exists>row exp access refresh handle.
    tbl_get ses_token_hash (hashToken E token) (auth_sessions (db s)) = Some row \<and>
    parse_rfc3339 (ses_expires_at row) = Inr exp \<and> clock E (Suc (tick s)) \<le> exp \<and>
    (\<exists>a. find_account (\<lambda>a. acc_did a = ses_did row) (db s) = Some a \<and> acc_deactivated_at a = None) \<and>
    issues E (ses_did row) (coalesce (ses_app_password row))
      ((db s)\<lparr>auth_sessions := tbl_delete (\<lambda>r. ses_token_hash r = hashToken E token) (auth_sessions (db s))\<rparr>)
      (db t) access refresh \<and>
    v = session_json access refresh handle (ses_did row) \<and>
    (hashToken E refresh \<noteq> hashToken E token \<longrightarrow>
       fst (HandleRefreshSession E (Inr token) t) = Inr invalid_refresh \<and>
       db (snd (HandleRefreshSession E (Inr token) t)) = db t)"
proof -
  from assms obtain row u u1 access refresh u2 a where
    check: "check_refresh E token s = (Inr row, u)"
    and del: "sql E (delete_session (hashToken E token)) u = (Inr (), u1)"
    and mint: "mintSession E (ses_did row) (coalesce (ses_app_password row)) u1 = (Inr (access, refresh), u2)"
    and last: "sql E (q_row (find_account (\<lambda>a. acc_did a = ses_did row))) u2 = (Inr a, t)"
    and v: "v = session_json access refresh (acc_handle a) (ses_did row)"
    by (auto simp: HandleRefreshSession_def DecodeBody_def on_error_Json invalid_refresh_def go_of_iff WriteJSON_iff)
  from last have t: "db t = db u2" by (auto simp: go_inv)
  note ck = check_refresh_Inr [OF check]
  let ?d = "(db s)\<lparr>auth_sessions := tbl_delete (\<lambda>r. ses_token_hash r = hashToken E token) (auth_sessions (db s))\<rparr>"
  have "db u1 = ?d" using del ck(1) by (auto simp: delete_session_def go_inv)
  with mintSession_issues [OF mint] t
  have issued: "issues E (ses_did row) (coalesce (ses_app_password row)) ?d (db t) access refresh" by simp
  have "fst (HandleRefreshSession E (Inr token) t) = Inr invalid_refresh \<and>
      db (snd (HandleRefreshSession E (Inr token) t)) = db t" if "hashToken E refresh \<noteq> hashToken E token"
  proof -
    have "tbl_get ses_token_hash (hashToken E token) (auth_sessions (db t)) = None"
      using issued that by (auto simp: issues_def new_session_def table_simps)
    from check_refresh_gone [OF this] obtain e t' where "check_refresh E token t = (Inl e, t')" "\<not> panics e" "db t' = db t"
      by blast
    then show ?thesis by (simp add: HandleRefreshSession_def DecodeBody_def on_error_def go_defs)
  qed
  with ck(2-4) issued v show ?thesis by blast
qed

end
