(* ===== verification/Integrity.thy ===== *)
theory Integrity
  imports App_Contract Server
begin

text \<open>
  Invariants of the tables: every endpoint keeps what every statement keeps. The contract
  \<open>table_invariant\<close> is interpreted on the integrity of the schema (keys and foreign keys) and
  on the finality of used codes.
\<close>

section \<open>The endpoints\<close>

context table_invariant begin

lemma safe_session_endpoints [safe_intro]:
  "safe P (HandleCreateSession E b1)" "safe P (HandleRefreshSession E b2)"
  "safe P (HandleDeleteSession E rq)"
  unfolding HandleCreateSession_def HandleRefreshSession_def HandleDeleteSession_def
  by (intro safe_intro)+

lemma safe_new_identity [safe_intro]:
  "(\<And>a b c d. safe P (k a b c d)) \<Longrightarrow> safe P (new_identity E cfg h k)"
  unfolding new_identity_def Let_def by (intro safe_intro)

lemma safe_account_endpoints [safe_intro]:
  "safe P (HandleCreateAccount E cfg b1)" "safe P (HandleUpdateHandle E cfg rq b2)"
  "safe P (HandleDeactivateAccount E rq)" "safe P (HandleActivateAccount E rq)"
  "safe P (HandleDeleteAccount E rq b2)"
  unfolding HandleCreateAccount_def require_invite_def register_account_def HandleUpdateHandle_def
    HandleDeactivateAccount_def HandleActivateAccount_def HandleDeleteAccount_def Let_def
  by (intro safe_intro)+

lemma safe_password_endpoints [safe_intro]:
  "safe P (HandleCreateAppPassword E rq b1)"
  "safe P (HandleRevokeAppPassword E rq b1)" "safe P (HandleCreateInviteCodes E rq b2)"
  unfolding HandleCreateAppPassword_def HandleRevokeAppPassword_def HandleCreateInviteCodes_def
  by (intro safe_intro)+

lemma safe_email_endpoints [safe_intro]:
  "safe P (HandleRequestEmailConfirmation E sn rq)" "safe P (HandleConfirmEmail E rq b1)"
  "safe P (HandleRequestPasswordReset E sn b2)" "safe P (HandleResetPassword E b1)"
  unfolding HandleRequestEmailConfirmation_def HandleConfirmEmail_def HandleRequestPasswordReset_def
    HandleResetPassword_def
  by (intro safe_intro safe_set_account; simp)+

lemma safe_record_endpoints [safe_intro]:
  "safe P (HandleCreateRecord E rq b1)" "safe P (HandlePutRecord E rq b2)" "safe P (HandleDeleteRecord E rq b3)"
  "safe P (HandleApplyWrites E rq b4)"
  unfolding HandleCreateRecord_def HandlePutRecord_def HandleDeleteRecord_def HandleApplyWrites_def requireRepoMatch_def
  by (intro safe_intro)+

lemma safe_writing_endpoints [safe_intro]:
  "safe P (HandleImportRepo E tok rq b)" "safe P (HandleNotifyOfUpdate E b1)" "safe P (HandleUploadBlob E dir limit rq b2)"
  unfolding HandleImportRepo_def HandleNotifyOfUpdate_def HandleUploadBlob_def Let_def
  by (intro safe_intro)+

lemma safe_serve: "safe P (serve E cfg dir rq c)"
  by (cases c) (simp_all add: serve_defs safe_session_endpoints safe_account_endpoints safe_password_endpoints
      safe_email_endpoints safe_record_endpoints safe_reading_endpoints safe_other_endpoints safe_did_endpoints
      safe_account_reads safe_writing_endpoints safe_appview safe_console)

lemma respond_all_keeps: "P (db (sv_pds sv)) \<Longrightarrow> P (db (sv_pds (respond_all E cfg dir vs sv)))"
  by (rule respond_all_induct [where Q = "\<lambda>s. P (db s)"]) (rule safe_serve [unfolded safe_def])

end

section \<open>The integrity of the schema\<close>

text \<open>
  Keys: one row per key of every table. References: what the foreign keys of the schema say,
  every session, blob, app password, preference and mute belongs to an account.
\<close>

definition keys_ok :: "database \<Rightarrow> bool" where
  "keys_ok d \<longleftrightarrow>
     tbl_keys_ok acc_did (accounts d) \<and> tbl_keys_ok acc_handle (accounts d) \<and>
     tbl_keys_ok ses_token_hash (auth_sessions d) \<and> tbl_keys_ok commit_key (repo_commits d) \<and>
     tbl_keys_ok blk_cid (repo_blocks d) \<and> tbl_keys_ok record_key (repo_records d) \<and>
     tbl_keys_ok block_rev_key (repo_block_revs d) \<and> tbl_keys_ok bl_cid (blobs d) \<and>
     tbl_keys_ok fst (firehose_events d) \<and> tbl_keys_ok app_password_key (app_passwords d) \<and>
     tbl_keys_ok iv_code (invite_codes d) \<and> tbl_keys_ok et_token (email_tokens d) \<and> tbl_keys_ok fst (relays d) \<and>
     tbl_keys_ok fst (settings d) \<and> tbl_keys_ok fst (app_preferences d) \<and> tbl_keys_ok (\<lambda>r. r) (mutes d) \<and>
     tbl_keys_ok fst (bridge_config d) \<and> tbl_keys_ok sync_key (bridge_sync d)"

definition dids :: "database \<Rightarrow> did set" where
  "dids d = acc_did ` set (accounts d)"

definition references_ok :: "database \<Rightarrow> bool" where
  "references_ok d \<longleftrightarrow>
     ses_did ` set (auth_sessions d) \<subseteq> dids d \<and> bl_did ` set (blobs d) \<subseteq> dids d \<and>
     ap_did ` set (app_passwords d) \<subseteq> dids d \<and> fst ` set (app_preferences d) \<subseteq> dids d \<and>
     fst ` set (mutes d) \<subseteq> dids d"

definition database_ok :: "database \<Rightarrow> bool" where
  "database_ok d \<longleftrightarrow> keys_ok d \<and> references_ok d"

lemmas ok_defs = database_ok_def keys_ok_def references_ok_def dids_def

lemma tbl_keys_ok_ignore: "tbl_keys_ok key t \<Longrightarrow> tbl_keys_ok key (tbl_ignore key r t)"
  by (auto simp: tbl_keys_ok_def tbl_ignore_def tbl_has_iff)

lemma map_tbl_update: "(\<And>r. p r \<Longrightarrow> key (f r) = key r) \<Longrightarrow> map key (tbl_update p f t) = map key t"
  by (induction t) (simp_all add: tbl_update_def)

lemma tbl_keys_ok_update: "(\<And>r. p r \<Longrightarrow> key (f r) = key r) \<Longrightarrow> tbl_keys_ok key (tbl_update p f t) = tbl_keys_ok key t"
  by (simp add: tbl_keys_ok_def map_tbl_update)

lemma image_tbl_update: "(\<And>r. p r \<Longrightarrow> key (f r) = key r) \<Longrightarrow> key ` set (tbl_update p f t) = key ` set t"
  by (metis list.set_map map_tbl_update)

lemma image_tbl_delete: "f ` set t \<subseteq> X \<Longrightarrow> f ` set (tbl_delete p t) \<subseteq> X"
  by (auto simp: tbl_delete_def)

lemma tbl_insert_keys: "tbl_insert key r t = Inr u \<Longrightarrow> tbl_keys_ok key t \<Longrightarrow> tbl_keys_ok key u"
  by (rule tbl_keys_ok_insert)

lemmas keys_rules = tbl_keys_ok_ignore tbl_keys_ok_upsert tbl_keys_ok_delete tbl_insert_keys image_tbl_delete
  tbl_keys_ok_update image_tbl_update

lemma tbl_insert_set: "tbl_insert key r t = Inr u \<Longrightarrow> set u = insert r (set t)"
  by (auto simp: tbl_insert_def split: if_splits)

lemma set_tbl_delete: "set (tbl_delete p t) = {x \<in> set t. \<not> p x}"
  by (auto simp: tbl_delete_def)

text \<open>A handle moves to an account when no other account has it.\<close>

lemma update_handle_keys:
  assumes did: "tbl_keys_ok acc_did t" and handle: "tbl_keys_ok acc_handle t"
    and free: "\<forall>a \<in> set t. acc_handle a = h \<longrightarrow> acc_did a = did"
  shows "tbl_keys_ok acc_handle (tbl_update (\<lambda>a. acc_did a = did) (\<lambda>a. a\<lparr>acc_handle := h\<rparr>) t)"
  using assms
proof (induction t)
  case Nil
  then show ?case by (simp add: tbl_update_def tbl_keys_ok_def)
next
  case (Cons a t)
  let ?f = "\<lambda>a. if acc_did a = did then a\<lparr>acc_handle := h\<rparr> else a"
  have "acc_handle (?f a) \<notin> acc_handle ` ?f ` set t"
    using Cons.prems by (auto simp: tbl_keys_ok_def split: if_splits) (metis rev_image_eqI)+
  moreover have "tbl_keys_ok acc_handle (map ?f t)"
    using Cons by (simp add: tbl_keys_ok_def tbl_update_def)
  ultimately show ?case by (auto simp: tbl_keys_ok_def tbl_update_def)
qed

lemma insert_session_iff: "insert_session n d = (Inr u, d') \<longleftrightarrow>
    ses_did n \<in> dids d \<and> (\<exists>t. tbl_insert ses_token_hash n (auth_sessions d) = Inr t \<and> d' = d\<lparr>auth_sessions := t\<rparr>)"
  by (auto simp: insert_session_def go_inv tbl_has_iff dids_def split: if_splits sum.splits)

lemma insert_app_password_iff: "insert_app_password n d = (Inr u, d') \<longleftrightarrow>
    ap_did n \<in> dids d \<and> (\<exists>t. tbl_insert app_password_key n (app_passwords d) = Inr t \<and> d' = d\<lparr>app_passwords := t\<rparr>)"
  by (auto simp: insert_app_password_def go_inv tbl_has_iff dids_def split: if_splits sum.splits)

lemma insert_account_iff: "insert_account a d = (Inr u, d') \<longleftrightarrow>
    acc_handle a \<notin> acc_handle ` set (accounts d) \<and> acc_did a \<notin> dids d \<and> d' = d\<lparr>accounts := accounts d @ [a]\<rparr>"
  by (auto simp: insert_account_def go_inv tbl_has_iff dids_def tbl_insert_def split: if_splits sum.splits)

lemma upsert_preferences_iff: "upsert_preferences did raw d = (Inr u, d') \<longleftrightarrow>
    did \<in> dids d \<and> d' = d\<lparr>app_preferences := tbl_upsert fst (did, raw) (app_preferences d)\<rparr>"
  by (auto simp: upsert_preferences_def go_inv tbl_has_iff dids_def split: if_splits)

lemma insert_mute_iff: "insert_mute did sub d = (Inr u, d') \<longleftrightarrow>
    (did, sub) \<in> set (mutes d) \<and> d' = d \<or>
    (did, sub) \<notin> set (mutes d) \<and> did \<in> dids d \<and> d' = d\<lparr>mutes := mutes d @ [(did, sub)]\<rparr>"
  by (auto simp: insert_mute_def go_inv tbl_has_iff dids_def split: if_splits)

lemma fst_tbl_upsert: "fst ` set (tbl_upsert fst (k, v) t) \<subseteq> insert k (fst ` set t)"
  by (auto simp: tbl_upsert_def split: if_splits)

lemma ok_preferences:
  assumes "database_ok d" and "upsert_preferences did raw d = (Inr (), d')"
  shows "database_ok d'"
proof -
  let ?t = "tbl_upsert fst (did, raw) (app_preferences d)"
  from assms(2) have d': "d' = d\<lparr>app_preferences := ?t\<rparr>" and did: "did \<in> dids d" by (simp_all add: upsert_preferences_iff)
  have "fst ` set (app_preferences d) \<subseteq> dids d" using assms(1) by (simp add: ok_defs)
  with did have "fst ` set ?t \<subseteq> dids d" by (intro order_trans [OF fst_tbl_upsert]) simp
  with assms(1) show ?thesis by (simp add: d' ok_defs tbl_keys_ok_upsert)
qed

lemma ok_insert_mute:
  assumes "database_ok d" and "insert_mute did sub d = (Inr (), d')"
  shows "database_ok d'"
  using assms by (auto simp only: insert_mute_iff) (auto simp add: ok_defs tbl_keys_ok_def)

lemma ok_insert_session:
  assumes "database_ok d" and "insert_session n d = (Inr (), d')"
  shows "database_ok d'"
  using assms by (auto simp only: insert_session_iff) (simp add: ok_defs tbl_insert_set tbl_insert_keys)

lemma ok_insert_app_password:
  assumes "database_ok d" and "insert_app_password w d = (Inr (), d')"
  shows "database_ok d'"
  using assms by (auto simp only: insert_app_password_iff) (simp add: ok_defs tbl_insert_set tbl_insert_keys)

lemma ok_insert_account:
  assumes "database_ok d" and "insert_account a d = (Inr (), d')"
  shows "database_ok d'"
  using assms by (auto simp only: insert_account_iff) (auto simp add: ok_defs tbl_keys_ok_def)

lemma ok_insert_blob:
  assumes "database_ok d" and "insert_blob b d = (Inr (), d')"
  shows "database_ok d'"
  using assms by (auto simp: go_inv ok_defs tbl_has_iff tbl_keys_ok_def image_iff split: if_splits)

lemma ok_update_handle:
  assumes "database_ok d" and "update_handle did h d = (Inr (), d')"
  shows "database_ok d'"
proof -
  let ?t = "tbl_update (\<lambda>a. acc_did a = did) (\<lambda>a. a\<lparr>acc_handle := h\<rparr>) (accounts d)"
  from assms(2) have d': "d' = d\<lparr>accounts := ?t\<rparr>"
    and free: "did \<in> acc_did ` set (accounts d) \<Longrightarrow> \<forall>a \<in> set (accounts d). acc_handle a = h \<longrightarrow> acc_did a = did"
    by (auto simp: update_handle_def go_inv tbl_has_iff list_ex_iff split: if_splits)
  have "tbl_keys_ok acc_handle ?t"
  proof (cases "did \<in> acc_did ` set (accounts d)")
    case True
    with assms(1) free show ?thesis by (intro update_handle_keys) (simp_all add: ok_defs)
  next
    case False
    then have "?t = accounts d" by (auto simp: tbl_update_def intro!: map_idI)
    with assms(1) show ?thesis by (simp add: ok_defs)
  qed
  with assms(1) show ?thesis by (simp add: d' ok_defs keys_rules)
qed

lemma ok_set_account:
  assumes "database_ok d" and "\<And>a. acc_did (f a) = acc_did a" and "\<And>a. acc_handle (f a) = acc_handle a"
  shows "database_ok (d\<lparr>accounts := tbl_update p f (accounts d)\<rparr>)"
  using assms by (simp add: ok_defs keys_rules)

lemma ok_cascade: "database_ok d \<Longrightarrow> database_ok (cascade_delete did d)"
  by (auto simp: ok_defs cascade_delete_def keys_rules set_tbl_delete)

lemmas ok_statements = ok_insert_session ok_insert_app_password ok_insert_account ok_insert_blob ok_update_handle
  ok_preferences ok_insert_mute

interpretation schema: table_invariant database_ok
  by (unfold_locales;
      (erule (1) ok_statements | erule (2) ok_set_account | erule ok_cascade | simp add: ok_defs keys_rules))

section \<open>Used codes\<close>

text \<open>The invite codes and email codes that have been used; no statement takes one out of the set.\<close>

definition spent_invites :: "database \<Rightarrow> string set" where
  "spent_invites d = iv_code ` {i \<in> set (invite_codes d). iv_used_by i \<noteq> None}"

definition spent_tokens :: "database \<Rightarrow> string set" where
  "spent_tokens d = et_token ` {r \<in> set (email_tokens d). et_used_at r \<noteq> None}"

definition invites :: "database \<Rightarrow> string set" where
  "invites d = iv_code ` set (invite_codes d)"

definition spent_since :: "database \<Rightarrow> database \<Rightarrow> bool" where
  "spent_since d0 d \<longleftrightarrow> invites d0 \<subseteq> invites d \<and> spent_invites d0 \<subseteq> spent_invites d \<and> spent_tokens d0 \<subseteq> spent_tokens d"

lemma spent_keep:
  "spent_since d0 d \<Longrightarrow> invite_codes d' = invite_codes d \<Longrightarrow> email_tokens d' = email_tokens d \<Longrightarrow> spent_since d0 d'"
  by (simp add: spent_since_def invites_def spent_invites_def spent_tokens_def)

lemma spent_more:
  assumes "spent_since d0 d" and "invites d \<subseteq> invites d'" and "spent_invites d \<subseteq> spent_invites d'" and "spent_tokens d \<subseteq> spent_tokens d'"
  shows "spent_since d0 d'"
  using assms by (auto simp: spent_since_def)

lemma spent_frames [simp]:
  "invites (d\<lparr>email_tokens := ts\<rparr>) = invites d"
  "spent_invites (d\<lparr>email_tokens := ts\<rparr>) = spent_invites d" "spent_tokens (d\<lparr>invite_codes := is\<rparr>) = spent_tokens d"
  by (simp_all add: invites_def spent_invites_def spent_tokens_def)

lemma spent_inserts:
  "tbl_insert iv_code i (invite_codes d) = Inr is \<Longrightarrow> invites d \<subseteq> invites (d\<lparr>invite_codes := is\<rparr>)"
  "tbl_insert iv_code i (invite_codes d) = Inr is \<Longrightarrow> spent_invites d \<subseteq> spent_invites (d\<lparr>invite_codes := is\<rparr>)"
  "tbl_insert et_token t (email_tokens d) = Inr ts \<Longrightarrow> spent_tokens d \<subseteq> spent_tokens (d\<lparr>email_tokens := ts\<rparr>)"
  by (auto simp: invites_def spent_invites_def spent_tokens_def tbl_insert_set)

lemma tbl_update_marks:
  assumes "\<And>r. key (f r) = key r" and "\<And>r. Q r \<Longrightarrow> Q (f r)"
  shows "key ` {r \<in> set t. Q r} \<subseteq> key ` {r \<in> set (tbl_update p f t). Q r}"
proof clarify
  fix r
  assume "r \<in> set t" "Q r"
  with assms show "key r \<in> key ` {r \<in> set (tbl_update p f t). Q r}"
    by (intro image_eqI [of _ _ "if p r then f r else r"]) (auto simp: tbl_update_def)
qed

lemma spent_updates:
  "invites (d\<lparr>invite_codes := tbl_update p (\<lambda>r. r\<lparr>iv_used_by := x, iv_used_at := y\<rparr>) (invite_codes d)\<rparr>) = invites d"
  "spent_invites d \<subseteq> spent_invites (d\<lparr>invite_codes := tbl_update (\<lambda>r. iv_code r = code)
     (\<lambda>r. r\<lparr>iv_used_by := Some did, iv_used_at := Some st\<rparr>) (invite_codes d)\<rparr>)"
  "spent_tokens d \<subseteq> spent_tokens (d\<lparr>email_tokens := tbl_update (\<lambda>r. et_token r = tok)
     (\<lambda>r. r\<lparr>et_used_at := Some st\<rparr>) (email_tokens d)\<rparr>)"
  using tbl_update_marks [of iv_code "\<lambda>r. r\<lparr>iv_used_by := Some did, iv_used_at := Some st\<rparr>" "\<lambda>i. iv_used_by i \<noteq> None"]
    tbl_update_marks [of et_token "\<lambda>r. r\<lparr>et_used_at := Some st\<rparr>" "\<lambda>r. et_used_at r \<noteq> None"]
  by (simp_all add: invites_def spent_invites_def spent_tokens_def image_tbl_update)

lemma spent_statements:
  assumes "spent_since d0 d"
  shows "insert_session n d = (Inr u, d') \<Longrightarrow> spent_since d0 d'"
    and "insert_app_password w d = (Inr u, d') \<Longrightarrow> spent_since d0 d'"
    and "insert_account a d = (Inr u, d') \<Longrightarrow> spent_since d0 d'"
    and "insert_blob b d = (Inr u, d') \<Longrightarrow> spent_since d0 d'"
    and "update_handle did h d = (Inr u, d') \<Longrightarrow> spent_since d0 d'"
    and "spent_since d0 (cascade_delete did d)"
    and "upsert_preferences did raw d = (Inr u, d') \<Longrightarrow> spent_since d0 d'"
    and "insert_mute did h d = (Inr u, d') \<Longrightarrow> spent_since d0 d'"
  using assms by (auto simp: insert_session_iff insert_app_password_iff insert_account_iff update_handle_def
      upsert_preferences_iff insert_mute_iff cascade_delete_def go_inv split: if_splits elim!: spent_keep)

interpretation spent: table_invariant "spent_since d0" for d0
  by (unfold_locales;
      (erule (1) spent_statements | erule spent_statements(6) | erule spent_keep; simp; fail
       | erule spent_more; simp add: spent_inserts spent_updates))

end
