(* ===== verification/Ownership.thy ===== *)
theory Ownership
  imports Integrity Sessions
begin

text \<open>
  Who may change what: the rows of an account change only in a request that carries its access
  token or, for the few endpoints meant for it, another credential of the account (a password,
  a refresh token, an email code) or of the server (the admin token).
\<close>

section \<open>The rows of an account\<close>

text \<open>
  The part of the tables that belongs to one account. Blocks are shared by content, events,
  relays and settings are the server's, and an invite code is marked by whoever uses it.
\<close>

definition rows_of :: "did \<Rightarrow> database \<Rightarrow> database" where
  "rows_of did d = d\<lparr>
     accounts := filter (\<lambda>a. acc_did a = did) (accounts d),
     auth_sessions := filter (\<lambda>r. ses_did r = did) (auth_sessions d),
     repo_commits := filter (\<lambda>r. cm_did r = did) (repo_commits d),
     repo_blocks := [],
     repo_records := filter (\<lambda>r. rr_did r = did) (repo_records d),
     repo_block_revs := filter (\<lambda>r. br_did r = did) (repo_block_revs d),
     blobs := filter (\<lambda>r. bl_did r = did) (blobs d),
     firehose_events := [],
     app_passwords := filter (\<lambda>r. ap_did r = did) (app_passwords d),
     invite_codes := [],
     email_tokens := filter (\<lambda>r. et_did r = did) (email_tokens d),
     relays := [], settings := [],
     app_preferences := filter (\<lambda>r. fst r = did) (app_preferences d),
     mutes := filter (\<lambda>r. fst r = did) (mutes d)\<rparr>"

lemma filter_mine: "did' \<noteq> did \<Longrightarrow> filter (\<lambda>r. k r \<noteq> did' \<and> k r = did) t = filter (\<lambda>r. k r = did) t"
  by (rule filter_cong) auto

lemma rows_of_others: "did' \<noteq> did \<Longrightarrow> rows_of did (others did' d) = rows_of did d"
  by (simp add: rows_of_def others_def filter_mine)

lemma off_writer_rows: "did' \<noteq> did \<Longrightarrow> off_writer did' (\<lambda>s. rows_of did (db s))"
proof -
  assume ne: "did' \<noteq> did"
  have "rows_of did d' = rows_of did (db s)" if "others did' d' = others did' (db s)" for d' and s :: "'r pds"
    using that rows_of_others [OF ne] by metis
  then show ?thesis by (auto simp: off_writer_def off_handle_def rows_of_def)
qed

text \<open>\<open>foreign did x m\<close>: \<open>m\<close> leaves the rows of \<open>did\<close> at \<open>x\<close>.\<close>

abbreviation (input) "leaves did x \<equiv> safe (\<lambda>d. rows_of did d = x)"

lemma leaves_keeps: "keeps (\<lambda>s. rows_of did (db s)) m \<Longrightarrow> leaves did x m"
  unfolding safe_def by (rule keeps_preserves)

lemma leaves_exec: "(\<And>d. rows_of did (f d) = rows_of did d) \<Longrightarrow> leaves did x (sql E (q_exec f))"
  by (rule safe_exec) simp

lemma filter_foreign:
  "(\<And>r. p r \<Longrightarrow> \<not> q r \<and> \<not> q (f r)) \<Longrightarrow> filter q (tbl_update p f t) = filter q t"
  "tbl_insert key r t = Inr u \<Longrightarrow> \<not> q r \<Longrightarrow> filter q u = filter q t"
  by (induction t) (auto simp: tbl_update_def tbl_insert_def split: if_splits)

lemma filter_delete: "(\<And>r. r \<in> set t \<Longrightarrow> p r \<Longrightarrow> \<not> q r) \<Longrightarrow> filter q (tbl_delete p t) = filter q t"
  by (induction t) (auto simp: tbl_delete_def)

lemma filter_delete_foreign:
  "did' \<noteq> did \<Longrightarrow> filter (\<lambda>r. k r = did) (tbl_delete (\<lambda>r. k r = did' \<and> Q r) t) = filter (\<lambda>r. k r = did) t"
  by (rule filter_delete) auto

lemmas row_rules = rows_of_def filter_foreign filter_delete filter_delete_foreign

section \<open>What one account does to another\<close>

lemma keeps_CreateAccount: "off_writer did f \<Longrightarrow> keeps f (CreateAccount E did)"
  unfolding CreateAccount_def
  by (intro keeps_intro keeps_open keeps_rec_begin keeps_commit keeps_emitCommit keeps_publish keeps_query
      off_writer_handle; assumption)

lemma leaves_repo [safe_intro]:
  assumes "did' \<noteq> did"
  shows "leaves did x (ApplyWrites E did' ops sw)" "leaves did x (CreateAccount E did')"
    "leaves did x (EmitAccount E did' active status)" "leaves did x (EmitIdentity E did' h)"
proof -
  note off = off_writer_rows [OF assms]
  show "leaves did x (ApplyWrites E did' ops sw)"
    unfolding ApplyWrites_def by (intro leaves_keeps keeps_intro keeps_applyWrites [OF off])
  show "leaves did x (CreateAccount E did')" by (rule leaves_keeps [OF keeps_CreateAccount [OF off]])
  show "leaves did x (EmitAccount E did' active status)" "leaves did x (EmitIdentity E did' h)"
    unfolding EmitAccount_def EmitIdentity_def by (intro leaves_keeps keeps_publish [OF off])+
qed

lemma leaves_clear_repo [safe_intro]:
  assumes "did' \<noteq> did"
  shows "leaves did x (clear_repo E did')"
proof -
  have "leaves did x (sql E (delete_commits_of did'))" "leaves did x (sql E (delete_records_of did'))"
    "leaves did x (sql E (delete_block_revs_of did'))"
    unfolding delete_commits_of_def delete_records_of_def delete_block_revs_of_def
    using assms by (intro leaves_exec; simp add: row_rules)+
  then show ?thesis unfolding clear_repo_def by (auto intro!: safe_intro)
qed

lemma leaves_accounts [safe_intro]:
  assumes "did' \<noteq> did"
  shows "leaves did x (sql E (update_handle did' h))" "leaves did x (sql E (delete_account_row did'))"
    "leaves did x (sql E (set_deactivated did' st))" "leaves did x (sql E (delete_app_password did' name))"
    "leaves did x (DeleteForDID E did')" "leaves did x (DeleteAccount E did')"
proof -
  show "leaves did x (sql E (update_handle did' h))"
    by (rule safe_sql) (use assms in \<open>auto simp: update_handle_def go_inv row_rules split: if_splits\<close>)
  show "leaves did x (sql E (delete_account_row did'))"
    unfolding delete_account_row_def by (rule leaves_exec) (use assms in \<open>simp add: cascade_delete_def row_rules\<close>)
  show "leaves did x (sql E (set_deactivated did' st))"
    unfolding set_deactivated_def update_account_def by (rule leaves_exec) (use assms in \<open>simp add: row_rules\<close>)
  show "leaves did x (sql E (delete_app_password did' name))"
    unfolding delete_app_password_def
    by (rule leaves_exec) (use assms in \<open>simp add: row_rules\<close>)
  have "leaves did x (sql E (q_exec (\<lambda>d. d\<lparr>blobs := tbl_delete (\<lambda>r. bl_did r = did') (blobs d)\<rparr>)))"
    by (rule leaves_exec) (use assms in \<open>simp add: row_rules\<close>)
  then show del: "leaves did x (DeleteForDID E did')"
    unfolding DeleteForDID_def remove_file_def by (intro safe_intro safe_modify) simp_all
  show "leaves did x (DeleteAccount E did')"
    unfolding DeleteAccount_def by (intro safe_intro safe_modify del leaves_clear_repo assms) simp
qed

lemma leaves_set_account:
  assumes "did' \<noteq> did" and "\<And>a. acc_did (f a) = acc_did a"
  shows "leaves did x (sql E (update_account did' f))"
  unfolding update_account_def by (rule leaves_exec) (use assms in \<open>simp add: row_rules\<close>)

lemma leaves_inserts [safe_intro]:
  "ses_did n \<noteq> did \<Longrightarrow> leaves did x (sql E (insert_session n))"
  "ap_did w \<noteq> did \<Longrightarrow> leaves did x (sql E (insert_app_password w))"
  "acc_did a \<noteq> did \<Longrightarrow> leaves did x (sql E (insert_account a))"
  "et_did t \<noteq> did \<Longrightarrow> leaves did x (sql E (insert_email_token t))"
  "bl_did b \<noteq> did \<Longrightarrow> leaves did x (sql E (insert_blob b))"
  "leaves did x (sql E (insert_invite i))" "leaves did x (sql E (use_invite code d2 now))"
  "leaves did x (sql E (insert_relay host now))"
  by (rule safe_sql; auto simp: insert_session_iff insert_app_password_iff insert_account_iff insert_email_token_def
      insert_invite_def use_invite_def insert_relay_def go_inv row_rules split: if_splits sum.splits)+

lemma leaves_sessions [safe_intro]: "did' \<noteq> did \<Longrightarrow> leaves did x (mintSession E did' app)"
  unfolding mintSession_def mintAccessJWT_def Let_def by (intro safe_intro) simp

lemma leaves_tokens [safe_intro]: "did' \<noteq> did \<Longrightarrow> leaves did x (issue_email_token E did' purpose addr)"
  unfolding issue_email_token_def Let_def by (intro safe_intro) simp

lemma leaves_make_invites [safe_intro]: "(\<And>y. safe (\<lambda>d. rows_of did d = y) fresh) \<Longrightarrow> leaves did x (make_invites E fresh c now n)"
  by (induction n) (auto intro!: safe_intro)

lemma leaves_blob_put [safe_intro]: "did' \<noteq> did \<Longrightarrow> leaves did x (blob_put E dir did' mime rd)"
  unfolding blob_put_def by (intro safe_intro safe_modify) simp_all

section \<open>Behind an access token\<close>

definition bears :: "'r env \<Rightarrow> did \<Rightarrow> request \<Rightarrow> 'r pds \<Rightarrow> bool" where
  "bears E did rq s \<longleftrightarrow> (\<exists>tok. rq_header rq ''Authorization'' = ''Bearer '' @ tok \<and> token_of E did tok s)"

text \<open>\<open>guarded E rq did h\<close>: the handler changes the rows of \<open>did\<close> only for a bearer of its token.\<close>

definition guarded :: "'r env \<Rightarrow> request \<Rightarrow> did \<Rightarrow> 'r handler \<Rightarrow> bool" where
  "guarded E rq did h \<longleftrightarrow> (\<forall>s. bears E did rq s \<or> rows_of did (db (snd (h s))) = rows_of did (db s))"

lemma safe_rows: "(\<And>x. leaves did x m) \<Longrightarrow> rows_of did (db (snd (m s))) = rows_of did (db s)"
  by (simp add: safe_def preserves_def)

lemma guarded_safe: "(\<And>x. leaves did x h) \<Longrightarrow> guarded E rq did h"
  by (simp add: guarded_def safe_rows)

lemma guarded_requireAuth:
  assumes "\<And>did' x. did' \<noteq> did \<Longrightarrow> leaves did x (k did')"
  shows "guarded E rq did (requireAuth E rq k)"
  unfolding guarded_def
proof
  fix s
  show "bears E did rq s \<or> rows_of did (db (snd (requireAuth E rq k s))) = rows_of did (db s)"
  proof (cases rule: requireAuth_cases [of E rq k s])
    case 1
    then show ?thesis by auto
  next
    case (2 e)
    then show ?thesis by simp
  next
    case (3 tok did')
    then show ?thesis by (cases "did' = did") (auto simp: bears_def safe_rows assms)
  qed
qed

lemma guarded_accounts:
  "guarded E rq did (HandleUpdateHandle E cfg rq b)" "guarded E rq did (HandleDeactivateAccount E rq)"
  "guarded E rq did (HandleActivateAccount E rq)" "guarded E rq did (HandleDeleteAccount E rq b)"
  "guarded E rq did (HandleCreateAppPassword E rq b)" "guarded E rq did (HandleRevokeAppPassword E rq b)"
  "guarded E rq did (HandleCreateInviteCodes E rq b2)" "guarded E rq did (HandleRequestEmailConfirmation E sn rq)"
  "guarded E rq did (HandleUploadBlob E dir sizelim rq b3)"
  unfolding HandleUpdateHandle_def HandleDeactivateAccount_def HandleActivateAccount_def HandleDeleteAccount_def
    HandleCreateAppPassword_def HandleRevokeAppPassword_def HandleCreateInviteCodes_def
    HandleRequestEmailConfirmation_def HandleUploadBlob_def Let_def
  by (rule guarded_requireAuth; (intro safe_intro; simp); fail)+

lemma guarded_writes:
  "guarded E rq did (HandleCreateRecord E rq b1)" "guarded E rq did (HandlePutRecord E rq b2)"
  "guarded E rq did (HandleDeleteRecord E rq b3)" "guarded E rq did (HandleApplyWrites E rq b4)"
  unfolding HandleCreateRecord_def HandlePutRecord_def HandleDeleteRecord_def HandleApplyWrites_def requireRepoMatch_def
  by (rule guarded_requireAuth; (intro safe_intro; simp); fail)+

section \<open>Other credentials\<close>

lemma on_error_split:
  obtains e where "m s = (Inl e, snd (on_error m g k s))"
    | x u where "m s = (Inr x, u)" "on_error m g k s = k x u"
proof -
  obtain r u where m: "m s = (r, u)" by fastforce
  show thesis
  proof (cases r)
    case (Inl e)
    then show thesis using m that(1) by (auto simp: on_error_def split: if_splits)
  next
    case (Inr x)
    then show thesis using m that(2) by (auto simp: on_error_def)
  qed
qed

text \<open>A step that only reads, and what follows it.\<close>

definition quiet :: "('r pds, 'a) go \<Rightarrow> bool" where
  "quiet m \<longleftrightarrow> (\<forall>P. safe P m)"

lemma quietI: "(\<And>P. safe P m) \<Longrightarrow> quiet m"
  by (simp add: quiet_def)

lemma quiet_db: "quiet m \<Longrightarrow> m s = (r, t) \<Longrightarrow> db t = db s"
proof -
  assume "quiet m" and run: "m s = (r, t)"
  then have p: "preserves (\<lambda>u. db u = db s) m" by (auto simp: quiet_def safe_def)
  show "db t = db s" by (rule preservesD [OF p _ run]) simp
qed

lemma rows_on_error:
  assumes "quiet m" and "\<And>x u. m s = (Inr x, u) \<Longrightarrow> db u = db s \<Longrightarrow> rows_of did (db (snd (k x u))) = rows_of did (db u)"
  shows "rows_of did (db (snd (on_error m g k s))) = rows_of did (db s)"
proof (cases rule: on_error_split [of m s g k])
  case (1 e)
  then show ?thesis using quiet_db [OF assms(1)] by metis
next
  case (2 x u)
  then show ?thesis using assms(2) [OF 2(1)] quiet_db [OF assms(1) 2(1)] by simp
qed

lemma rows_bind:
  assumes "quiet m" and "\<And>x u. m s = (Inr x, u) \<Longrightarrow> db u = db s \<Longrightarrow> rows_of did (db (snd (k x u))) = rows_of did (db u)"
  shows "rows_of did (db (snd (go_bind m k s))) = rows_of did (db s)"
proof -
  obtain r u where m: "m s = (r, u)" by fastforce
  with quiet_db [OF assms(1) m] assms(2) show ?thesis by (cases r) (auto simp: go_bind_def)
qed

lemma quiet_go_of: "quiet (go_of b)"
  by (simp add: quiet_def safe_intro)

text \<open>A login changes the rows of the account it names, and only with its password.\<close>

definition knows_password :: "'r env \<Rightarrow> database \<Rightarrow> account \<Rightarrow> string \<Rightarrow> bool" where
  "knows_password E d a password \<longleftrightarrow>
     VerifyPassword E (acc_password_hash a) password = Inr True \<or>
     (\<exists>r \<in> set (app_passwords d). ap_did r = acc_did a \<and> VerifyPassword E (ap_hash r) password = Inr True)"

lemma login_rows:
  assumes "\<And>a. account_named name (db s) = Some a \<Longrightarrow> acc_did a = did \<Longrightarrow> \<not> knows_password E (db s) a password"
  shows "rows_of did (db (snd (HandleCreateSession E (Inr (name, password)) s))) = rows_of did (db s)"
  unfolding HandleCreateSession_def DecodeBody_def
proof (rule rows_on_error [OF quiet_go_of], clarsimp simp: go_of_iff, rule rows_on_error, rule quietI, rule safe_intro,
    clarify, rule rows_bind, rule quietI, rule safe_intro, rule rows_bind)
  fix a b u
  show "quiet (if b then go_ret (Some []) else verifyAppPassword E a password)" for a b
    by (rule quietI) (intro safe_intro)
  fix did' handle hash u ok v login w
  assume look: "lookupAccount E name s = (Inr (did', handle, hash), u)" "db u = db s"
    and ok: "password_ok E hash password u = (Inr ok, v)" "db v = db u"
    and login: "(if ok then go_ret (Some []) else verifyAppPassword E did' password) v = (Inr login, w)" "db w = db v"
  show "rows_of did (db (snd ((case login of None \<Rightarrow> go_ret unauthorized
          | Some appPassword \<Rightarrow> on_error (mintSession E did' appPassword) internal_error
              (\<lambda>(access, refresh). WriteJSON (session_json access refresh handle did'))) w))) = rows_of did (db w)"
  proof (cases "did' = did \<and> login \<noteq> None")
    case True
    then obtain app where app: "login = Some app" by blast
    from look True obtain a where a: "account_named name (db s) = Some a" "acc_did a = did" "acc_password_hash a = hash"
      by (auto simp: lookupAccount_Inr)
    have "knows_password E (db s) a password"
    proof (cases ok)
      case True
      with ok a show ?thesis by (simp add: knows_password_def)
    next
      case False
      with login app have "verifyAppPassword E did' password v = (Inr (Some app), w)" by simp
      from verifyAppPassword_Some [OF this] show ?thesis
        using a look ok True \<open>did' = did \<and> login \<noteq> None\<close> by (auto simp: knows_password_def)
    qed
    with assms a show ?thesis by blast
  next
    case False
    have "leaves did x (case login of None \<Rightarrow> go_ret unauthorized
          | Some appPassword \<Rightarrow> on_error (mintSession E did' appPassword) internal_error
              (\<lambda>(access, refresh). WriteJSON (session_json access refresh handle did')))" for x
      using False by (cases login) (auto intro!: safe_intro)
    then show ?thesis by (rule safe_rows)
  qed
qed

lemma rows_DecodeBody:
  assumes "\<And>x. body = Inr x \<Longrightarrow> rows_of did (db (snd (k x s))) = rows_of did (db s)"
  shows "rows_of did (db (snd (DecodeBody body k s))) = rows_of did (db s)"
  unfolding DecodeBody_def
  by (rule rows_on_error [OF quiet_go_of]) (use assms in \<open>auto simp: go_of_iff\<close>)

text \<open>A refresh token and a presented token change the sessions under their own hash.\<close>

lemma leaves_delete_session:
  assumes "\<And>r. r \<in> set (auth_sessions (db s)) \<Longrightarrow> ses_token_hash r = h \<Longrightarrow> ses_did r \<noteq> did"
  shows "rows_of did (db (snd (sql E (delete_session h) s))) = rows_of did (db s)"
  using assms by (simp add: sql_def delete_session_def q_exec_def Let_def rows_of_def filter_delete)

lemma refresh_rows:
  assumes "\<And>r. r \<in> set (auth_sessions (db s)) \<Longrightarrow> ses_token_hash r = hashToken E token \<Longrightarrow> ses_did r \<noteq> did"
  shows "rows_of did (db (snd (HandleRefreshSession E (Inr token) s))) = rows_of did (db s)"
  unfolding HandleRefreshSession_def
proof (rule rows_DecodeBody, clarify, rule rows_on_error, rule quietI, rule safe_intro)
  fix row u
  assume check: "check_refresh E token s = (Inr row, u)" "db u = db s"
  from check_refresh_Inr(2) [OF check(1)] assms have ne: "ses_did row \<noteq> did" by (auto dest: tbl_get_Some)
  let ?k = "\<lambda>_. on_error (mintSession E (ses_did row) (coalesce (ses_app_password row))) internal_error (\<lambda>(access, refresh).
     on_error (sql E (q_row (find_account (\<lambda>a. acc_did a = ses_did row)))) internal_error (\<lambda>a.
     WriteJSON (session_json access refresh (acc_handle a) (ses_did row))))"
  have k: "rows_of did (db (snd (?k () w))) = rows_of did (db w)" for w
    by (rule safe_rows) (use ne in \<open>intro safe_intro; simp\<close>)
  have del: "rows_of did (db (snd (sql E (delete_session (hashToken E token)) u))) = rows_of did (db u)"
    by (rule leaves_delete_session) (use assms check in auto)
  show "rows_of did (db (snd (on_error (sql E (delete_session (hashToken E token))) internal_error ?k u))) = rows_of did (db u)"
    using del k by (cases rule: on_error_split [of "sql E (delete_session (hashToken E token))" u internal_error ?k]) auto
qed

lemma logout_rows:
  assumes "\<And>tok r. rq_header rq ''Authorization'' = ''Bearer '' @ tok \<Longrightarrow> r \<in> set (auth_sessions (db s)) \<Longrightarrow>
      ses_token_hash r = hashToken E tok \<Longrightarrow> ses_did r \<noteq> did"
  shows "rows_of did (db (snd (HandleDeleteSession E rq s))) = rows_of did (db s)"
proof -
  obtain tok ok where b: "bearerToken rq = (tok, ok)" by fastforce
  show ?thesis
  proof (cases ok)
    case False
    with b show ?thesis by (simp add: HandleDeleteSession_def WriteXRPCError_def go_defs)
  next
    case True
    then have "rq_header rq ''Authorization'' = ''Bearer '' @ tok"
      using b by (auto simp: bearerToken_def cut_prefix_True split: prod.splits)
    with assms have del: "rows_of did (db (snd (sql E (delete_session (hashToken E tok)) s))) = rows_of did (db s)"
      by (intro leaves_delete_session) auto
    let ?k = "\<lambda>_. WriteJSON (JObj [])"
    have k: "rows_of did (db (snd (?k () w))) = rows_of did (db w)" for w :: "'a pds"
      by (rule safe_rows) (intro safe_intro)
    show ?thesis using b True del k
      by (cases rule: on_error_split [of "sql E (delete_session (hashToken E tok))" s internal_error ?k])
        (auto simp: HandleDeleteSession_def)
  qed
qed

text \<open>A new account is a new DID.\<close>

lemma leaves_new_account:
  fixes s :: "'r pds"
  assumes "did \<in> dids (db s)"
  shows "rows_of did (db (snd (register_account E cfg input handle did' doc sk rk s))) = rows_of did (db s)"
proof (cases "did' = did")
  case False
  then have "leaves did x (register_account E cfg input handle did' doc sk rk)" for x
    unfolding register_account_def by (intro safe_intro; simp)
  then show ?thesis by (rule safe_rows)
next
  case True
  show ?thesis unfolding register_account_def
  proof (rule rows_on_error, rule quietI, rule safe_intro, rule rows_on_error, rule quietI, rule safe_intro,
      rule rows_on_error, rule quietI, rule safe_intro, rule rows_bind, rule quietI, rule safe_intro)
    fix hash se re now and u1 u2 u3 u4 :: "'r pds"
    assume "db u1 = db s" "db u2 = db u1" "db u3 = db u2" "db u4 = db u3"
    with True assms have "did' \<in> dids (db u4)" by simp
    then have ins: "\<exists>e. sql E (insert_account a) u4 = (Inl e, u4\<lparr>tick := Suc (tick u4)\<rparr>)" if "acc_did a = did'" for a
      using that by (auto simp: sql_def insert_account_def q_try_def tbl_insert_def tbl_has_iff dids_def Let_def)
    have "rows_of did (db (snd (on_error (sql E (insert_account a)) internal_error k u4))) = rows_of did (db u4)"
      if "acc_did a = did'" for a k
      using ins [OF that] by (auto simp: on_error_def)
    then show "rows_of did (db (snd (on_error (sql E (insert_account \<lparr>acc_did = did', acc_handle = handle,
        acc_email = Some (coalesce (ci_email input)), acc_password_hash = hash, acc_recovery_key = re,
        acc_signing_key = se, acc_created_at = Stamp now, acc_did_doc = Some doc,
        acc_deactivated_at = None, acc_email_confirmed_at = None\<rparr>)) internal_error k u4))) = rows_of did (db u4)" for k
      by simp
  qed
qed

lemma require_invite_rows:
  assumes "\<And>u. db u = db s \<Longrightarrow> rows_of did (db (snd (k u))) = rows_of did (db s)"
  shows "rows_of did (db (snd (require_invite E cfg invite k s))) = rows_of did (db s)"
  unfolding require_invite_def
  by (auto simp: WriteXRPCError_def go_ret_def assms split: option.split intro!: rows_on_error quietI safe_intro)

lemma new_identity_rows:
  assumes "\<And>a b c d u. db u = db s \<Longrightarrow> rows_of did (db (snd (k a b c d u))) = rows_of did (db s)"
  shows "rows_of did (db (snd (new_identity E cfg handle k s))) = rows_of did (db s)"
  unfolding new_identity_def Let_def
  by (auto simp: assms intro!: rows_on_error quietI safe_intro)

lemma create_account_rows:
  assumes "did \<in> dids (db s)"
  shows "rows_of did (db (snd (HandleCreateAccount E cfg body s))) = rows_of did (db s)"
  unfolding HandleCreateAccount_def
proof (rule rows_DecodeBody, rule rows_on_error, rule quietI, rule safe_intro, rule rows_on_error, rule quietI, rule safe_intro)
  fix input h u n and v :: "'a pds"
  assume u: "db u = db s" "db v = db u"
  have "rows_of did (db (snd (register_account E cfg input h a b c d w))) = rows_of did (db w)" if "db w = db v" for a b c d w
    using that u assms by (intro leaves_new_account) simp
  then have "rows_of did (db (snd (require_invite E cfg (ci_invite input)
      (new_identity E cfg h (register_account E cfg input h)) v))) = rows_of did (db v)"
    by (intro require_invite_rows) (simp add: new_identity_rows)
  then show "rows_of did (db (snd ((if n > 0 then WriteXRPCError 409 ''HandleAlreadyExists'' (Text ''handle is already taken'')
      else require_invite E cfg (ci_invite input) (new_identity E cfg h (register_account E cfg input h))) v))) =
      rows_of did (db v)"
    by (simp add: WriteXRPCError_def go_ret_def)
qed

text \<open>A reset code is sent to the account of the address, and changes the account it was issued for.\<close>

lemma request_reset_rows:
  assumes "\<And>a. find_account (\<lambda>a. acc_email a = Some addr) (db s) = Some a \<Longrightarrow> acc_did a \<noteq> did"
  shows "rows_of did (db (snd (HandleRequestPasswordReset E sn (Inr addr) s))) = rows_of did (db s)"
  unfolding HandleRequestPasswordReset_def
proof (rule rows_DecodeBody, clarify, rule rows_on_error, rule quietI, rule safe_intro)
  fix a u
  assume "sql E (q_row (find_account (\<lambda>a. acc_email a = Some addr))) s = (Inr a, u)"
  then have "acc_did a \<noteq> did" using assms by (auto simp: go_inv split: option.splits)
  then have "leaves did x (on_error (issue_email_token E (acc_did a) ''reset'' addr) internal_error (\<lambda>token.
      go_bind (ignoring (Send E sn addr ''Reset your password'' (''Your reset code: '' @ token))) (\<lambda>_.
      WriteJSON (JObj []))))" for x
    by (intro safe_intro)
  then show "rows_of did (db (snd (on_error (issue_email_token E (acc_did a) ''reset'' addr) internal_error (\<lambda>token.
      go_bind (ignoring (Send E sn addr ''Reset your password'' (''Your reset code: '' @ token))) (\<lambda>_.
      WriteJSON (JObj []))) u))) = rows_of did (db u)"
    by (rule safe_rows)
qed

text \<open>\<open>holds_code d did token\<close>: an unused code of the account for the purpose.\<close>

definition holds_code :: "database \<Rightarrow> did \<Rightarrow> string \<Rightarrow> string \<Rightarrow> bool" where
  "holds_code d did token purpose \<longleftrightarrow>
     (\<exists>r \<in> set (email_tokens d). et_token r = token \<and> et_purpose r = purpose \<and> et_did r = did \<and> et_used_at r = None)"

lemma findEmailToken_holds:
  assumes "findEmailToken E token purpose s = (Inr (did, addr), t)"
  shows "holds_code (db s) did token purpose"
  using assms by (auto simp: findEmailToken_def holds_code_def go_inv find_Some_iff split: option.splits if_splits)

lemma holder_unique:
  assumes "tbl_keys_ok et_token (email_tokens d)" and "holds_code d did token purpose"
    and "r \<in> set (email_tokens d)" and "et_token r = token"
  shows "et_did r = did"
  using assms by (auto simp: holds_code_def tbl_keys_ok_def distinct_map inj_on_def)

text \<open>Marking a code and setting columns of its holder leave the rows of another account.\<close>

definition code_foreign :: "did \<Rightarrow> database \<Rightarrow> string \<Rightarrow> database \<Rightarrow> bool" where
  "code_foreign did x token d \<longleftrightarrow> rows_of did d = x \<and> (\<forall>r \<in> set (email_tokens d). et_token r = token \<longrightarrow> et_did r \<noteq> did)"

lemma safe_foreign_code:
  "safe (code_foreign did x token) (markEmailTokenUsed E token)"
  "did' \<noteq> did \<Longrightarrow> (\<And>a. acc_did (f a) = acc_did a) \<Longrightarrow> safe (code_foreign did x token) (sql E (update_account did' f))"
proof -
  have mark: "filter (\<lambda>r. et_did r = did) (tbl_update (\<lambda>r. et_token r = token) (et_used_at_update (\<lambda>_. st)) t) =
      filter (\<lambda>r. et_did r = did) t"
    "\<forall>r \<in> set (tbl_update (\<lambda>r. et_token r = token) (et_used_at_update (\<lambda>_. st)) t). et_token r = token \<longrightarrow> et_did r \<noteq> did"
    if "\<forall>r \<in> set t. et_token r = token \<longrightarrow> et_did r \<noteq> did" for t st
    using that by (induction t) (auto simp: tbl_update_def)
  have "safe (code_foreign did x token) (sql E (mark_used token now))" for now
    unfolding mark_used_def code_foreign_def
  proof (rule safe_exec, elim conjE, intro conjI)
    fix d
    assume f: "\<forall>r \<in> set (email_tokens d). et_token r = token \<longrightarrow> et_did r \<noteq> did" and x: "rows_of did d = x"
    let ?d = "d\<lparr>email_tokens := tbl_update (\<lambda>r. et_token r = token) (et_used_at_update (\<lambda>_. Some (Stamp now))) (email_tokens d)\<rparr>"
    show "rows_of did ?d = x" using x by (simp add: rows_of_def mark(1) [OF f])
    show "\<forall>r \<in> set (email_tokens ?d). et_token r = token \<longrightarrow> et_did r \<noteq> did" using mark(2) [OF f] by simp
  qed
  then show "safe (code_foreign did x token) (markEmailTokenUsed E token)"
    unfolding markEmailTokenUsed_def by (intro safe_intro)
  show "did' \<noteq> did \<Longrightarrow> (\<And>a. acc_did (f a) = acc_did a) \<Longrightarrow> safe (code_foreign did x token) (sql E (update_account did' f))"
    unfolding update_account_def by (rule safe_exec) (auto simp: code_foreign_def row_rules)
qed

lemma code_foreign_rows:
  assumes "\<And>x. safe (code_foreign did x token) m" and "code_foreign did (rows_of did (db s)) token (db s)"
  shows "rows_of did (db (snd (m s))) = rows_of did (db s)"
  using assms by (auto simp: safe_def preserves_def code_foreign_def)

lemma reset_rows:
  assumes keys: "tbl_keys_ok et_token (email_tokens (db s))" and "\<not> holds_code (db s) did token ''reset''"
  shows "rows_of did (db (snd (HandleResetPassword E (Inr (token, password)) s))) = rows_of did (db s)"
  unfolding HandleResetPassword_def
proof (rule rows_DecodeBody, clarify, rule rows_on_error, rule quietI, rule safe_intro, clarify)
  fix did' addr u
  assume find: "findEmailToken E token ''reset'' s = (Inr (did', addr), u)" and u: "db u = db s"
  note holds = findEmailToken_holds [OF find]
  with assms(2) have ne: "did' \<noteq> did" by auto
  have foreign: "code_foreign did (rows_of did (db u)) token (db u)"
    using holder_unique [OF keys holds] ne u by (simp add: code_foreign_def)
  show "rows_of did (db (snd (on_error (HashPassword E password) internal_error (\<lambda>hash.
     on_error (sql E (update_account did' (\<lambda>a. a\<lparr>acc_password_hash := hash\<rparr>))) internal_error (\<lambda>_.
     go_bind (markEmailTokenUsed E token) (\<lambda>_. WriteJSON (JObj [])))) u))) = rows_of did (db u)"
    by (rule code_foreign_rows [where token = token]) (auto simp: foreign ne intro!: safe_intro safe_foreign_code)
qed

lemma consume_foreign:
  assumes "\<not> holds_code (db s) did token purpose"
  shows "\<exists>u. consumeEmailToken E did token purpose s = (Inr False, u) \<and> db u = db s"
proof -
  obtain r u where f: "findEmailToken E token purpose s = (r, u)" by fastforce
  have q: "quiet (findEmailToken E token purpose)" by (rule quietI) (rule safe_intro)
  show ?thesis
    using f quiet_db [OF q f] findEmailToken_holds [of E token purpose s] assms
    by (cases r) (auto simp: consumeEmailToken_def go_bind_def go_try_def go_ret_def)
qed

lemma confirm_rows:
  assumes keys: "tbl_keys_ok et_token (email_tokens (db s))" and ne: "did' \<noteq> did"
  shows "rows_of did (db (snd (go_bind (consumeEmailToken E did' token ''confirm'') (\<lambda>ok.
     if \<not> ok then go_ret invalid_code
     else
       go_bind (time_now E) (\<lambda>now.
       on_error (sql E (update_account did'
          (\<lambda>a. a\<lparr>acc_email := Some addr, acc_email_confirmed_at := Some (Stamp now)\<rparr>))) internal_error (\<lambda>_.
       WriteJSON (JObj [])))) s))) = rows_of did (db s)"
proof (cases "holds_code (db s) did' token ''confirm''")
  case True
  have "code_foreign did (rows_of did (db s)) token (db s)"
    using holder_unique [OF keys True] ne by (simp add: code_foreign_def)
  then show ?thesis
    unfolding consumeEmailToken_def
    by (intro code_foreign_rows [where token = token] safe_intro safe_foreign_code ne) simp_all
next
  case False
  from consume_foreign [OF this, of E] show ?thesis by (auto simp: go_bind_def go_ret_def)
qed

lemma guarded_confirm:
  assumes "tbl_keys_ok et_token (email_tokens (db s))" and "\<not> bears E did rq s"
  shows "rows_of did (db (snd (HandleConfirmEmail E rq body s))) = rows_of did (db s)"
proof (cases rule: requireAuth_cases [of E rq "\<lambda>did. DecodeBody body (\<lambda>(addr, token).
     go_bind (consumeEmailToken E did token ''confirm'') (\<lambda>ok.
     if \<not> ok then go_ret invalid_code
     else
       go_bind (time_now E) (\<lambda>now.
       on_error (sql E (update_account did
          (\<lambda>a. a\<lparr>acc_email := Some addr, acc_email_confirmed_at := Some (Stamp now)\<rparr>))) internal_error (\<lambda>_.
       WriteJSON (JObj [])))))" s])
  case 1
  then show ?thesis by (auto simp: HandleConfirmEmail_def)
next
  case (2 e)
  then show ?thesis by (simp add: HandleConfirmEmail_def)
next
  case (3 tok did')
  with assms(2) have ne: "did' \<noteq> did" by (auto simp: bears_def)
  show ?thesis
    unfolding HandleConfirmEmail_def 3(3)
    by (rule rows_DecodeBody, clarify, rule confirm_rows [OF assms(1) ne])
qed

section \<open>Authority\<close>

text \<open>
  What a request must carry to change the rows of an account: its access token, or the
  credential the endpoint is made for.
\<close>

definition authorised :: "'r env \<Rightarrow> config \<Rightarrow> request \<Rightarrow> call \<Rightarrow> did \<Rightarrow> 'r pds \<Rightarrow> bool" where
  "authorised E cfg rq c did s \<longleftrightarrow> bears E did rq s \<or>
     (case c of
        RqCreateSession (Inr (name, password)) \<Rightarrow>
          (\<exists>a. account_named name (db s) = Some a \<and> acc_did a = did \<and> knows_password E (db s) a password)
      | RqRefreshSession (Inr token) \<Rightarrow>
          (\<exists>r \<in> set (auth_sessions (db s)). ses_token_hash r = hashToken E token \<and> ses_did r = did)
      | RqDeleteSession \<Rightarrow>
          (\<exists>tok. rq_header rq ''Authorization'' = ''Bearer '' @ tok \<and>
             (\<exists>r \<in> set (auth_sessions (db s)). ses_token_hash r = hashToken E tok \<and> ses_did r = did))
      | RqCreateAccount _ \<Rightarrow> did \<notin> dids (db s)
      | RqRequestPasswordReset (Inr addr) \<Rightarrow>
          (\<exists>a. find_account (\<lambda>a. acc_email a = Some addr) (db s) = Some a \<and> acc_did a = did)
      | RqResetPassword (Inr (token, _)) \<Rightarrow> holds_code (db s) did token ''reset''
      | RqImportRepo _ \<Rightarrow> AdminToken cfg \<noteq> [] \<and> rq_header rq ''Authorization'' = ''Bearer '' @ AdminToken cfg
      | RqConsole _ \<Rightarrow> authenticated E (AdminToken cfg) rq \<and>
          (rq_method rq = ''GET'' \<or> rq_method rq = ''HEAD'' \<or> sameOrigin E rq)
      | _ \<Rightarrow> False)"

lemma console_rows:
  assumes "\<not> (authenticated E (AdminToken cfg) rq \<and> (rq_method rq = ''GET'' \<or> rq_method rq = ''HEAD'' \<or> sameOrigin E rq))"
  shows "rows_of did (db (snd (console E cfg dir rq w c s))) = rows_of did (db s)"
  using assms by (auto simp: console_def console_auth_def HttpError_def go_ret_def)

text \<open>The writes of the AppView are behind \<open>requireAuth\<close>.\<close>

lemma leaves_app_statements [safe_intro]:
  assumes "did' \<noteq> did"
  shows "leaves did x (savePreferences E did' raw)" "leaves did x (sql E (insert_mute did' sub))"
    "leaves did x (sql E (delete_mute did' sub))"
proof -
  have "filter (\<lambda>r. fst r = did) (map (\<lambda>r. if fst r = did' then (did', raw) else r) t) = filter (\<lambda>r. fst r = did) t" for t
    using assms by (induction t) auto
  then have "filter (\<lambda>r. fst r = did) (tbl_upsert fst (did', raw) t) = filter (\<lambda>r. fst r = did) t" for t
    using assms by (simp add: tbl_upsert_def)
  then show "leaves did x (savePreferences E did' raw)"
    unfolding savePreferences_def by (intro safe_sql) (auto simp: upsert_preferences_iff rows_of_def)
  show "leaves did x (sql E (insert_mute did' sub))"
    by (rule safe_sql) (use assms in \<open>auto simp: insert_mute_iff rows_of_def\<close>)
  show "leaves did x (sql E (delete_mute did' sub))"
    unfolding delete_mute_def by (rule leaves_exec) (simp add: rows_of_def filter_delete [of _ "\<lambda>r. r = (did', sub)"] assms)
qed

lemma guarded_appview: "guarded E rq did (appview E cfg rq c)"
proof (cases "app_writes c")
  case True
  have "guarded E rq did (HandleAppBskyPutPreferences E rq b)" "guarded E rq did (HandleAppBskyMuteActor E rq b2)"
    "guarded E rq did (HandleAppBskyUnmuteActor E rq b2)" for b b2
    unfolding HandleAppBskyPutPreferences_def HandleAppBskyMuteActor_def HandleAppBskyUnmuteActor_def
    by (rule guarded_requireAuth; (intro safe_intro; auto intro!: safe_intro split: json.split); fail)+
  with True show ?thesis by (cases c) (simp_all add: appview_def app_writes_def)
next
  case False
  then show ?thesis by (intro guarded_safe safe_appview_read)
qed

lemma decode_error_rows: "rows_of did (db (snd (DecodeBody (Inl e) k s))) = rows_of did (db s)"
  by (rule rows_DecodeBody) simp

lemma import_rows:
  assumes "\<not> (tok \<noteq> [] \<and> rq_header rq ''Authorization'' = ''Bearer '' @ tok)"
  shows "rows_of did (db (snd (HandleImportRepo E tok rq body s))) = rows_of did (db s)"
  using assms
  by (auto simp: HandleImportRepo_def SecureEqual_def cut_prefix_True WriteXRPCError_def go_ret_def split: prod.split)

text \<open>C6: Only the owner changes an account: whatever request arrives on whatever route, the rows of an
  account (its row, sessions, commits, records, blobs, app passwords, codes, preferences and
  mutes) are the same afterwards, unless the request carries its access token or the
  credential of the endpoint: its password, its refresh token, an unused code of its own, the
  admin token for an import or, with a session of the console and its origin, for the console, its address for asking a reset code, or the DID is new.\<close>

theorem owner_only:
  assumes "database_ok (db s)" and "\<not> authorised E cfg rq c did s"
  shows "rows_of did (db (snd (serve E cfg dir rq c s))) = rows_of did (db s)"
proof -
  have keys: "tbl_keys_ok et_token (email_tokens (db s))" using assms(1) by (simp add: ok_defs)
  have nb: "\<not> bears E did rq s" using assms(2) by (simp add: authorised_def)
  have guarded: "rows_of did (db (snd (h s))) = rows_of did (db s)" if "guarded E rq did h" for h
    using that nb by (auto simp: guarded_def)
  have decode: "rows_of did (db (snd (HandleCreateSession E (Inl e) s))) = rows_of did (db s)"
    "rows_of did (db (snd (HandleRefreshSession E (Inl e) s))) = rows_of did (db s)"
    "rows_of did (db (snd (HandleRequestPasswordReset E (new_sender cfg) (Inl e) s))) = rows_of did (db s)"
    "rows_of did (db (snd (HandleResetPassword E (Inl e) s))) = rows_of did (db s)" for e
    unfolding HandleCreateSession_def HandleRefreshSession_def HandleRequestPasswordReset_def HandleResetPassword_def
    by (rule decode_error_rows)+
  have relay: "rows_of did (db (snd (HandleNotifyOfUpdate E b s))) = rows_of did (db s)" for b
    unfolding HandleNotifyOfUpdate_def by (rule safe_rows) (intro safe_intro)
  show ?thesis
  proof (cases c)
    case (RqCreateSession b)
    then show ?thesis using assms(2)
      by (cases b) (auto simp: serve_defs authorised_def decode login_rows split: prod.splits)
  next
    case (RqRefreshSession b)
    then show ?thesis using assms(2)
      by (cases b) (auto simp: serve_defs authorised_def decode intro!: refresh_rows)
  next
    case RqDeleteSession
    then show ?thesis using assms(2) by (auto simp: serve_defs authorised_def intro!: logout_rows)
  next
    case (RqCreateAccount b)
    then show ?thesis using assms(2) by (simp add: serve_defs authorised_def create_account_rows)
  next
    case (RqRequestPasswordReset b)
    then show ?thesis using assms(2)
      by (cases b) (auto simp: serve_defs authorised_def decode intro!: request_reset_rows)
  next
    case (RqResetPassword b)
    then show ?thesis using assms(2) keys
      by (cases b) (auto simp: serve_defs authorised_def decode intro!: reset_rows split: prod.splits)
  next
    case (RqImportRepo b)
    then show ?thesis using assms(2) by (simp add: serve_defs authorised_def import_rows)
  next
    case (RqConfirmEmail b)
    then show ?thesis using keys nb by (simp add: serve_defs guarded_confirm)
  next
    case (RqApp b)
    then show ?thesis by (simp add: serve_defs guarded [OF guarded_appview])
  next
    case (RqConsole b)
    then show ?thesis using assms(2) by (simp add: serve_defs authorised_def console_rows)
  qed (simp_all add: serve_defs relay guarded [OF guarded_accounts(1)] guarded [OF guarded_accounts(2)]
      guarded [OF guarded_accounts(3)] guarded [OF guarded_accounts(4)] guarded [OF guarded_accounts(5)]
      guarded [OF guarded_accounts(6)] guarded [OF guarded_accounts(7)] guarded [OF guarded_accounts(8)]
      guarded [OF guarded_accounts(9)] guarded [OF guarded_writes(1)] guarded [OF guarded_writes(2)]
      guarded [OF guarded_writes(3)] guarded [OF guarded_writes(4)] safe_rows safe_account_reads
      safe_reading_endpoints safe_other_endpoints safe_did_endpoints)
qed

end
