(* ===== verification/Lifecycle.thy ===== *)
theory Lifecycle
  imports Ownership
begin

text \<open>
  What holds over any sequence of requests: the integrity of the tables, and that a code works
  once, whatever is asked in between. And what the deletion of an account leaves behind.
\<close>

section \<open>Integrity\<close>


section \<open>Reset codes\<close>

lemma read_db: "m s = (r, t) \<Longrightarrow> (\<And>P. safe P m) \<Longrightarrow> db t = db s"
  by (rule quiet_db [OF quietI])

lemma spent_token_refused:
  assumes keys: "tbl_keys_ok et_token (email_tokens (db s))" and spent: "token \<in> spent_tokens (db s)"
  shows "\<exists>e t. findEmailToken E token purpose s = (Inl e, t) \<and> \<not> panics e \<and> db t = db s"
proof -
  have used: "et_used_at r \<noteq> None" if "r \<in> set (email_tokens (db s))" "et_token r = token" for r
    using that spent keys by (auto simp: spent_tokens_def tbl_keys_ok_def distinct_map inj_on_def)
  have "et_used_at r \<noteq> None" if "find (\<lambda>r. et_token r = token \<and> et_purpose r = purpose) (email_tokens (db s)) = Some r" for r
    using that used [of r] by (auto simp: find_Some_iff)
  then show ?thesis
    by (cases "find (\<lambda>r. et_token r = token \<and> et_purpose r = purpose) (email_tokens (db s))")
       (auto simp: findEmailToken_def go_bind_def go_raise_def sql_def q_row_def Let_def panics_def)
qed

lemma spent_reset_refused:
  assumes "tbl_keys_ok et_token (email_tokens (db s))" and "token \<in> spent_tokens (db s)"
  shows "fst (HandleResetPassword E (Inr (token, pw)) s) = Inr invalid_code \<and>
    db (snd (HandleResetPassword E (Inr (token, pw)) s)) = db s"
  using spent_token_refused [OF assms, of E "''reset''"]
  by (auto simp: HandleResetPassword_def DecodeBody_def on_error_def go_of_def)

text \<open>The database after a reset: the hash of the code's holder, and the mark on the code.\<close>

definition reset_done :: "did \<Rightarrow> string \<Rightarrow> string \<Rightarrow> int \<Rightarrow> database \<Rightarrow> database" where
  "reset_done did hash token now d = d\<lparr>
     accounts := tbl_update (\<lambda>a. acc_did a = did) (\<lambda>a. a\<lparr>acc_password_hash := hash\<rparr>) (accounts d),
     email_tokens := tbl_update (\<lambda>r. et_token r = token) (\<lambda>r. r\<lparr>et_used_at := Some (Stamp now)\<rparr>) (email_tokens d)\<rparr>"

lemma reset_spends:
  assumes "holds_code d did token purpose"
  shows "token \<in> spent_tokens (reset_done did hash token now d)"
proof -
  from assms obtain r where r: "r \<in> set (email_tokens d)" "et_token r = token"
    by (auto simp: holds_code_def)
  then have "r\<lparr>et_used_at := Some (Stamp now)\<rparr> \<in> set (email_tokens (reset_done did hash token now d))"
    by (auto simp: reset_done_def tbl_update_def image_iff intro!: bexI [of _ r])
  with r show ?thesis
    by (auto simp: spent_tokens_def image_iff intro!: exI [of _ "r\<lparr>et_used_at := Some (Stamp now)\<rparr>"])
qed

lemma HandleResetPassword_run:
  assumes "no_faults E" and "HandleResetPassword E (Inr (token, pw)) s = (Inr (Json v), t)"
  obtains did hash now u w where "holds_code (db s) did token ''reset''" "HashPassword E pw u = (Inr hash, w)"
    "db t = reset_done did hash token now (db s)"
proof -
  from assms(2) obtain did addr hash u w x where
    find: "findEmailToken E token ''reset'' s = (Inr (did, addr), u)"
    and hash: "HashPassword E pw u = (Inr hash, w)"
    and upd: "sql E (update_account did (\<lambda>a. a\<lparr>acc_password_hash := hash\<rparr>)) w = (Inr (), x)"
    and mark: "markEmailTokenUsed E token x = (Inr (), t)"
    by (auto simp: HandleResetPassword_def DecodeBody_def on_error_Json invalid_code_def go_of_iff go_bind_Inr_iff WriteJSON_iff)
  have "db u = db s" using find by (rule read_db) (intro safe_intro)
  moreover have "db w = db u" using hash by (rule read_db) (intro safe_intro)
  ultimately have w: "db w = db s" by simp
  from upd have x: "db x = (db w)\<lparr>accounts := tbl_update (\<lambda>a. acc_did a = did)
      (\<lambda>a. a\<lparr>acc_password_hash := hash\<rparr>) (accounts (db w))\<rparr>"
    by (auto simp: update_account_def go_inv)
  from mark obtain now y where now: "time_now E x = (Inr now, y)"
    and t: "ignoring (sql E (mark_used token now)) y = (Inr (), t)"
    by (auto simp: markEmailTokenUsed_def go_bind_Inr_iff)
  have "db y = db x" using now by (rule read_db) (intro safe_intro)
  with t assms(1) have "db t = (db x)\<lparr>email_tokens := tbl_update (\<lambda>r. et_token r = token)
      (\<lambda>r. r\<lparr>et_used_at := Some (Stamp now)\<rparr>) (email_tokens (db x))\<rparr>"
    by (auto simp: mark_used_def ignoring_iff sql_def q_exec_def Let_def no_faults_def)
  then have "db t = reset_done did hash token now (db s)" by (simp add: x w reset_done_def)
  with findEmailToken_holds [OF find] hash that show thesis by blast
qed

text \<open>C10: A reset code works once: a reset that succeeds presented an unused code issued to an account for
  this purpose; it changes the password hash of that account to a fresh hash of the new
  password, marks the code, and changes nothing else (the sessions of the account stay valid).
  After any further requests, of anyone, in any order and with any failures, the code is
  refused and the attempt changes nothing.\<close>

theorem reset_single_use:
  assumes "no_faults E" and "database_ok (db s)"
    and "HandleResetPassword E (Inr (token, pw)) s = (Inr (Json v), t)"
  shows "(\<exists>did hash now u w. holds_code (db s) did token ''reset'' \<and> HashPassword E pw u = (Inr hash, w) \<and>
      db t = reset_done did hash token now (db s)) \<and>
    (let later = sv_pds (respond_all F cfg dir vs \<lparr>sv_limiter = l, sv_pds = t\<rparr>) in
      fst (HandleResetPassword F (Inr (token, pw')) later) = Inr invalid_code \<and>
      db (snd (HandleResetPassword F (Inr (token, pw')) later)) = db later)"
proof -
  let ?later = "sv_pds (respond_all F cfg dir vs \<lparr>sv_limiter = l, sv_pds = t\<rparr>)"
  from HandleResetPassword_run [OF assms(1,3)] obtain did hash now u w where
    reset: "holds_code (db s) did token ''reset''" "HashPassword E pw u = (Inr hash, w)"
    "db t = reset_done did hash token now (db s)" .
  have "database_ok (db t)"
    using preservesD [OF schema.safe_email_endpoints(4) [unfolded safe_def] _ assms(3)] assms(2) by simp
  then have ok: "database_ok (db ?later)" by (intro schema.respond_all_keeps) simp
  have "spent_since (db t) (db ?later)" by (rule spent.respond_all_keeps) (simp add: spent_since_def)
  with reset_spends [OF reset(1)] reset(3) have "token \<in> spent_tokens (db ?later)"
    by (auto simp: spent_since_def)
  with spent_reset_refused [of ?later token F pw'] ok reset show ?thesis
    by (auto simp: ok_defs Let_def)
qed

section \<open>Invite codes\<close>

lemma new_identity_Json:
  assumes "new_identity E cfg h k s = (Inr (Json v), t)"
  obtains did doc signing recovery u where "k did doc signing recovery u = (Inr (Json v), t)" "db u = db s"
proof -
  have id [simp]: "identity_failure m e \<noteq> Json v" for m e by (simp add: identity_failure_def)
  show thesis
  proof (cases "DIDMethod cfg = ''plc''")
    case True
    with assms obtain k1 k2 did op doc u1 u2 u3 u4 where
      run: "generate_key E s = (Inr k1, u1)" "generate_key E u1 = (Inr k2, u2)"
      "plc_create E (new_client (PlcURL cfg)) k1 k2 h (PublicURL cfg) u2 = (Inr (did, op), u3)"
      "ResolveDidDoc E (new_client (PlcURL cfg)) did u3 = (Inr doc, u4)" and k: "k did doc k1 k2 u4 = (Inr (Json v), t)"
      by (auto simp: new_identity_def on_error_Json Let_def)
    have "db u1 = db s" using run(1) by (rule read_db) (intro safe_intro)
    moreover have "db u2 = db u1" using run(2) by (rule read_db) (intro safe_intro)
    moreover have "db u3 = db u2" using run(3) by (rule read_db) (intro safe_intro)
    moreover have "db u4 = db u3" using run(4) by (rule read_db) (intro safe_intro)
    ultimately have "db u4 = db s" by simp
    with k that show thesis by simp
  next
    case False
    with assms obtain ks u1 where run: "CreateDidWeb E h (PublicURL cfg) s = (Inr ks, u1)"
      and k: "k (ky_did ks) (json_marshal (ky_did_doc ks)) (ky_signing ks) (ky_recovery ks) u1 = (Inr (Json v), t)"
      by (auto simp: new_identity_def on_error_Json)
    have "db u1 = db s" using run by (rule read_db) (intro safe_intro)
    with k that show thesis by simp
  qed
qed

lemma off_writer_accounts: "off_writer did (\<lambda>s. accounts (db s))"
proof -
  have "accounts d' = accounts (db s)" if "others did d' = others did (db s)" for d' and s :: "'r pds"
    using arg_cong [OF that, of accounts] by (simp add: others_def)
  then show ?thesis by (auto simp: off_writer_def off_handle_def)
qed

lemma spent_run:
  assumes "\<And>d0. safe (spent_since d0) m" and "m s = (r, t)"
  shows "invites (db s) \<subseteq> invites (db t)" and "spent_invites (db s) \<subseteq> spent_invites (db t)"
  using preservesD [OF assms(1) [of "db s", unfolded safe_def] _ assms(2)] by (simp_all add: spent_since_def)

lemma use_invite_spends:
  assumes "code \<in> invites d"
  shows "code \<in> spent_invites (d\<lparr>invite_codes := tbl_update (\<lambda>r. iv_code r = code)
    (\<lambda>r. r\<lparr>iv_used_by := Some did, iv_used_at := Some st\<rparr>) (invite_codes d)\<rparr>)"
proof -
  from assms obtain r where r: "r \<in> set (invite_codes d)" "iv_code r = code" by (auto simp: invites_def)
  let ?r = "r\<lparr>iv_used_by := Some did, iv_used_at := Some st\<rparr>"
  from r have "?r \<in> set (tbl_update (\<lambda>r. iv_code r = code) (\<lambda>r. r\<lparr>iv_used_by := Some did, iv_used_at := Some st\<rparr>) (invite_codes d))"
    by (auto simp: tbl_update_def image_iff intro!: bexI [of _ r])
  with r show ?thesis by (auto simp: spent_invites_def image_iff intro!: exI [of _ ?r])
qed

lemma register_account_run:
  assumes "no_faults E" and "InviteRequired cfg" and "ci_invite input = Some code" and "code \<noteq> []"
    and "code \<in> invites (db s)"
    and "register_account E cfg input handle did doc signing recovery s = (Inr (Json v), t)"
  shows "code \<in> spent_invites (db t) \<and>
    (\<exists>a. accounts (db t) = accounts (db s) @ [a] \<and> acc_handle a = handle \<and> acc_did a = did)"
proof -
  from assms(2-4,6) obtain hash u1 se u2 re u3 now u4 a u5 u6 used u7 u8 access refresh where
    run: "HashPassword E (coalesce (ci_password input)) s = (Inr hash, u1)" "Encrypt E signing u1 = (Inr se, u2)"
      "Encrypt E recovery u2 = (Inr re, u3)" "time_now E u3 = (Inr now, u4)"
    and ins: "sql E (insert_account a) u4 = (Inr (), u5)" and a: "acc_handle a = handle" "acc_did a = did"
    and create: "CreateAccount E did u5 = (Inr (), u6)"
    and use: "time_now E u6 = (Inr used, u7)" "ignoring (sql E (use_invite code did used)) u7 = (Inr (), u8)"
    and mint: "mintSession E did [] u8 = (Inr (access, refresh), t)"
    by (fastforce simp: register_account_def given_def coalesce_def on_error_Json go_bind_Inr_iff WriteJSON_iff)
  have "db u1 = db s" using run(1) by (rule read_db) (intro safe_intro)
  moreover have "db u2 = db u1" using run(2) by (rule read_db) (intro safe_intro)
  moreover have "db u3 = db u2" using run(3) by (rule read_db) (intro safe_intro)
  moreover have "db u4 = db u3" using run(4) by (rule read_db) (intro safe_intro)
  moreover have "db u7 = db u6" using use(1) by (rule read_db) (intro safe_intro)
  ultimately have quiet: "db u4 = db s" "db u7 = db u6" by simp_all
  from ins quiet have accounts5: "accounts (db u5) = accounts (db s) @ [a]"
    by (auto simp: go_inv insert_account_iff)
  have accounts6: "accounts (db u6) = accounts (db u5)"
    by (rule keepsD [OF keeps_CreateAccount [OF off_writer_accounts] create])
  have "code \<in> invites (db u7)"
    using assms(5) quiet spent_run(1) [OF spent.safe_statements(1) ins] spent_run(1) [OF spent.safe_CreateAccount create]
    by auto
  moreover from use(2) assms(1) have u8: "db u8 = (db u7)\<lparr>invite_codes := tbl_update (\<lambda>r. iv_code r = code)
      (\<lambda>r. r\<lparr>iv_used_by := Some did, iv_used_at := Some (Stamp used)\<rparr>) (invite_codes (db u7))\<rparr>"
    by (auto simp: Accounts.use_invite_def ignoring_iff sql_def q_exec_def Let_def no_faults_def)
  ultimately have "code \<in> spent_invites (db u8)" by (simp add: use_invite_spends)
  with spent_run(2) [OF spent.safe_sessions(1) mint] have "code \<in> spent_invites (db t)" by auto
  moreover have "accounts (db t) = accounts (db u8)"
    using mintSession_issues [OF mint] by (auto simp: issues_def)
  ultimately show ?thesis using a accounts5 accounts6 u8 quiet by auto
qed

text \<open>An invite code that a request may use, as \<open>require_invite\<close> finds it.\<close>

definition open_invite :: "database \<Rightarrow> string \<Rightarrow> bool" where
  "open_invite d code \<longleftrightarrow> code \<noteq> [] \<and>
     (\<exists>iv. tbl_get iv_code code (invite_codes d) = Some iv \<and> iv_used_by iv = None \<and> iv_disabled_at iv = None)"

lemma require_invite_Json:
  assumes "InviteRequired cfg" and "require_invite E cfg invite k s = (Inr (Json v), t)"
  obtains code u where "invite = Some code" "open_invite (db s) code" "k u = (Inr (Json v), t)" "db u = db s"
  using assms
  by (auto simp: require_invite_def open_invite_def on_error_Json WriteXRPCError_iff sql_def q_row_def Let_def
      split: option.splits if_splits)

lemma spent_invite_closed:
  assumes "tbl_keys_ok iv_code (invite_codes d)" and "code \<in> spent_invites d"
  shows "\<not> open_invite d code"
proof
  assume "open_invite d code"
  then obtain iv where "iv \<in> set (invite_codes d)" "iv_code iv = code" "iv_used_by iv = None"
    by (auto simp: open_invite_def dest: tbl_get_Some)
  with assms show False by (auto simp: spent_invites_def tbl_keys_ok_def distinct_map inj_on_def)
qed

text \<open>\<open>refuses h s\<close>: the handler answers with an error and leaves the database alone.\<close>

definition refuses :: "'r handler \<Rightarrow> 'r pds \<Rightarrow> bool" where
  "refuses h s \<longleftrightarrow> db (snd (h s)) = db s \<and> (\<nexists>v. fst (h s) = Inr (Json v))"

lemma refuses_on_error:
  assumes "\<And>P. safe P m" and "\<And>e v. f e \<noteq> Json v" and "\<And>x u. m s = (Inr x, u) \<Longrightarrow> db u = db s \<Longrightarrow> refuses (k x) u"
  shows "refuses (on_error m f k) s"
proof -
  obtain r u where m: "m s = (r, u)" by fastforce
  then have "db u = db s" using assms(1) by (rule read_db)
  with m assms(2) assms(3) [of _ u] show ?thesis by (cases r) (auto simp: refuses_def on_error_def)
qed

lemma refuses_error: "refuses (WriteXRPCError n x m) s"
  by (simp add: refuses_def WriteXRPCError_def go_ret_def)

lemma refuses_invite:
  assumes "InviteRequired cfg" and "\<not> open_invite (db s) code"
  shows "refuses (require_invite E cfg (Some code) k) s"
proof (cases "code = []")
  case True
  with assms(1) show ?thesis by (simp add: require_invite_def refuses_error)
next
  case False
  with assms have "refuses (on_error (sql E (q_row (\<lambda>d. tbl_get iv_code code (invite_codes d))))
      (\<lambda>_. XrpcError 400 ''InvalidInviteCode'' (Text ''invalid invite code''))
      (\<lambda>iv. if iv_used_by iv \<noteq> None \<or> iv_disabled_at iv \<noteq> None
        then WriteXRPCError 400 ''InviteCodeInvalid'' (Text ''invite code is not available'') else k)) s"
    by (intro refuses_on_error safe_intro) (auto simp: refuses_error open_invite_def go_inv split: option.splits)
  with assms False show ?thesis by (simp add: require_invite_def)
qed

lemma closed_invite_refused:
  assumes "InviteRequired cfg" and "ci_invite input = Some code" and "\<not> open_invite (db s) code"
  shows "refuses (HandleCreateAccount E cfg (Inr input)) s"
  unfolding HandleCreateAccount_def DecodeBody_def assms(2)
proof (rule refuses_on_error)
  fix x u
  assume x: "go_of (Inr input) s = (Inr x, u)"
  then have "x = input" "u = s" by (auto simp: go_inv)
  show "refuses (on_error (go_of (syntax_handle E (ci_handle x))) (\<lambda>e. XrpcError 400 ''InvalidHandle'' (ErrText e))
      (\<lambda>handle. on_error (sql E (q_rows (count_handle handle))) internal_error (\<lambda>existing.
        if existing > 0 then WriteXRPCError 409 ''HandleAlreadyExists'' (Text ''handle is already taken'')
        else require_invite E cfg (ci_invite x) (new_identity E cfg handle (register_account E cfg x handle))))) u"
  proof (rule refuses_on_error, rule safe_intro, simp, rule refuses_on_error, rule safe_intro, simp)
    fix h n and v w :: "'a pds"
    assume "db v = db u" "db w = db v"
    with \<open>u = s\<close> have "db w = db s" by simp
    with assms \<open>x = input\<close> show "refuses (if n > 0 then WriteXRPCError 409 ''HandleAlreadyExists'' (Text ''handle is already taken'')
        else require_invite E cfg (ci_invite x) (new_identity E cfg h (register_account E cfg x h))) w"
      by (simp add: refuses_error refuses_invite)
  qed
qed (simp_all add: safe_pure invalid_request_def)

lemma HandleCreateAccount_run:
  assumes "InviteRequired cfg" and "HandleCreateAccount E cfg (Inr input) s = (Inr (Json v), t)"
  obtains handle code did doc k1 k2 u where "syntax_handle E (ci_handle input) = Inr handle"
    "ci_invite input = Some code" "open_invite (db s) code"
    "register_account E cfg input handle did doc k1 k2 u = (Inr (Json v), t)" "db u = db s"
proof -
  from assms obtain handle u where handle: "syntax_handle E (ci_handle input) = Inr handle"
    and req: "require_invite E cfg (ci_invite input) (new_identity E cfg handle (register_account E cfg input handle)) u =
      (Inr (Json v), t)" and u: "db u = db s"
    by (auto simp: HandleCreateAccount_def DecodeBody_def on_error_Json go_of_iff WriteXRPCError_iff sql_def q_rows_def
        Let_def split: if_splits)
  from require_invite_Json [OF assms(1) req] obtain code w where code: "ci_invite input = Some code"
    "open_invite (db u) code" and new: "new_identity E cfg handle (register_account E cfg input handle) w = (Inr (Json v), t)"
    and w: "db w = db u" .
  from new_identity_Json [OF new] obtain did doc k1 k2 x where
    "register_account E cfg input handle did doc k1 k2 x = (Inr (Json v), t)" "db x = db w" .
  with handle code u w that show thesis by simp
qed

text \<open>C11: An invite code admits one account: where invites are required, a successful registration named a
  code that existed, was unused and enabled, created one account with the parsed handle, and
  spent the code. After any further requests, of anyone and with any failures, a registration
  with that code is refused and changes nothing in the database.\<close>

theorem invite_single_use:
  assumes "no_faults E" and "database_ok (db s)" and "InviteRequired cfg"
    and "HandleCreateAccount E cfg (Inr input) s = (Inr (Json v), t)"
    and "ci_invite again = ci_invite input"
  shows "(\<exists>code a. ci_invite input = Some code \<and> open_invite (db s) code \<and> code \<in> spent_invites (db t) \<and>
      accounts (db t) = accounts (db s) @ [a] \<and> syntax_handle E (ci_handle input) = Inr (acc_handle a)) \<and>
    (let later = sv_pds (respond_all F cfg' dir vs \<lparr>sv_limiter = l, sv_pds = t\<rparr>) in
      refuses (HandleCreateAccount F cfg (Inr again)) later)"
proof -
  let ?later = "sv_pds (respond_all F cfg' dir vs \<lparr>sv_limiter = l, sv_pds = t\<rparr>)"
  from HandleCreateAccount_run [OF assms(3,4)] obtain handle code did doc k1 k2 u where
    handle: "syntax_handle E (ci_handle input) = Inr handle" and code: "ci_invite input = Some code" "open_invite (db s) code"
    and reg: "register_account E cfg input handle did doc k1 k2 u = (Inr (Json v), t)" and u: "db u = db s" .
  from code(2) have "code \<noteq> []" "code \<in> invites (db u)"
    using u by (auto simp: open_invite_def invites_def dest: tbl_get_Some)
  from register_account_run [OF assms(1,3) code(1) this reg] u obtain a where
    spent: "code \<in> spent_invites (db t)" and a: "accounts (db t) = accounts (db s) @ [a]" "acc_handle a = handle" by auto
  have "database_ok (db t)"
    using preservesD [OF schema.safe_account_endpoints(1) [unfolded safe_def] _ assms(4)] assms(2) by simp
  then have "database_ok (db ?later)" by (intro schema.respond_all_keeps) simp
  then have keys: "tbl_keys_ok iv_code (invite_codes (db ?later))" by (simp add: ok_defs)
  have "spent_since (db t) (db ?later)" by (rule spent.respond_all_keeps) (simp add: spent_since_def)
  with spent have "\<not> open_invite (db ?later) code" by (intro spent_invite_closed [OF keys]) (auto simp: spent_since_def)
  from closed_invite_refused [OF assms(3) _ this, of again F] assms(5) code(1)
  have refused: "refuses (HandleCreateAccount F cfg (Inr again)) ?later" by simp
  from code spent a handle have "ci_invite input = Some code \<and> open_invite (db s) code \<and> code \<in> spent_invites (db t) \<and>
      accounts (db t) = accounts (db s) @ [a] \<and> syntax_handle E (ci_handle input) = Inr (acc_handle a)" by simp
  with refused show ?thesis unfolding Let_def by blast
qed

section \<open>Deleting an account\<close>

text \<open>What is left of the rows of an account: the codes once sent to it.\<close>

definition erased :: "did \<Rightarrow> database \<Rightarrow> database" where
  "erased did d = rows_of did d\<lparr>accounts := [], auth_sessions := [], repo_commits := [], repo_records := [],
     repo_block_revs := [], blobs := [], app_passwords := [], app_preferences := [], mutes := []\<rparr>"

lemma filter_tbl_delete_self: "filter (\<lambda>r. k r = x) (tbl_delete (\<lambda>r. k r = x) t) = []"
  by (auto simp: tbl_delete_def filter_empty_conv)

lemma token_of_unique: "token_of E did tok s \<Longrightarrow> token_of E did' tok s \<Longrightarrow> did' = did"
  by (auto simp: token_of_def)

lemma DeleteForDID_db:
  assumes "DeleteForDID E did s = (r, t)"
  shows "\<exists>bs. db t = (db s)\<lparr>blobs := bs\<rparr>"
proof -
  let ?P = "\<lambda>d. \<exists>bs. d = (db s)\<lparr>blobs := bs\<rparr>"
  have "safe ?P (sql E (q_exec (\<lambda>d. d\<lparr>blobs := tbl_delete (\<lambda>r. bl_did r = did) (blobs d)\<rparr>)))"
    by (rule safe_exec) auto
  then have "safe ?P (DeleteForDID E did)"
    unfolding DeleteForDID_def remove_file_def by (intro safe_intro safe_modify) simp_all
  from preservesD [OF this [unfolded safe_def] _ assms] show ?thesis by (metis database.surjective database.update_convs(7))
qed

lemma DeleteAccount_run:
  assumes "DeleteAccount E did s = (Inr (), t)"
  obtains bs where "db t = (db s)\<lparr>blobs := bs,
    repo_commits := tbl_delete (\<lambda>r. cm_did r = did) (repo_commits (db s)),
    repo_records := tbl_delete (\<lambda>r. rr_did r = did) (repo_records (db s)),
    repo_block_revs := tbl_delete (\<lambda>r. br_did r = did) (repo_block_revs (db s))\<rparr>"
proof -
  let ?w = "s\<lparr>repos := (repos s)(did := None)\<rparr>"
  from assms obtain v where w: "(case blob_root s of None \<Rightarrow> go_ret () | Some _ \<Rightarrow> DeleteForDID E did) ?w = (Inr (), v)"
    and clear: "clear_repo E did v = (Inr (), t)"
    by (auto simp: DeleteAccount_def go_inv)
  obtain bs where "db v = (db s)\<lparr>blobs := bs\<rparr>"
  proof (cases "blob_root s")
    case None
    with w have "db v = (db s)\<lparr>blobs := blobs (db s)\<rparr>" by (auto simp: go_inv)
    then show thesis by (rule that)
  next
    case (Some r)
    with w that DeleteForDID_db [of E did ?w] show thesis by auto
  qed
  with clear that show thesis
    by (auto simp: clear_repo_def delete_commits_of_def delete_records_of_def delete_block_revs_of_def go_inv)
qed

lemma emit_rows: "rows_of did (db (snd (ignoring (EmitAccount E did' active status) s))) = rows_of did (db s)"
proof (rule safe_rows)
  show "leaves did x (ignoring (EmitAccount E did' active status))" for x
    unfolding EmitAccount_def publish_def set_seq_def Let_def
    by (intro safe_intro safe_modify safe_sql; auto simp: go_inv rows_of_def split: sum.splits)
qed

text \<open>C12: A deletion is complete: a deletion that succeeds was asked with an access token of the account and
  its password; afterwards none of its rows is left in the tables of accounts, sessions,
  commits, records, revisions, blobs, app passwords, preferences and mutes (only codes once
  mailed to it remain), and the rows of every other account are as they were.\<close>

theorem deleteAccount_complete:
  assumes "HandleDeleteAccount E rq (Inr password) s = (Inr (Json v), t)"
  shows "\<exists>tok did a. rq_header rq ''Authorization'' = ''Bearer '' @ tok \<and> token_of E did tok s \<and>
    account_of did (db s) = Some a \<and> VerifyPassword E (acc_password_hash a) password = Inr True \<and>
    rows_of did (db t) = erased did (db s) \<and>
    (\<forall>other. other \<noteq> did \<longrightarrow> rows_of other (db t) = rows_of other (db s))"
proof -
  from assms obtain tok did where tok: "rq_header rq ''Authorization'' = ''Bearer '' @ tok" "token_of E did tok s"
    and run: "DecodeBody (Inr password) (\<lambda>password.
     on_error (sql E (q_row (\<lambda>d. map_option acc_password_hash (account_of did d)))) internal_error (\<lambda>hash.
     go_bind (password_ok E hash password) (\<lambda>valid.
     if \<not> valid then WriteXRPCError 401 ''AuthenticationRequired'' (Text ''invalid password'')
     else
       on_error (DeleteAccount E did) internal_error (\<lambda>_.
       on_error (sql E (delete_account_row did)) internal_error (\<lambda>_.
       go_bind (ignoring (EmitAccount E did False (Some ''deleted''))) (\<lambda>_.
       WriteJSON (JObj []))))))) s = (Inr (Json v), t)"
    unfolding HandleDeleteAccount_def by (rule requireAuth_Json)
  then obtain hash u valid u1 u2 u3 where
    hash: "sql E (q_row (\<lambda>d. map_option acc_password_hash (account_of did d))) s = (Inr hash, u)"
    and ok: "VerifyPassword E hash password = Inr True"
    and del: "DeleteAccount E did u = (Inr (), u1)" and row: "sql E (delete_account_row did) u1 = (Inr (), u2)"
    and emit: "ignoring (EmitAccount E did False (Some ''deleted'')) u2 = (Inr (), t)"
    by (auto simp: DecodeBody_def on_error_Json go_of_iff go_bind_Inr_iff WriteJSON_iff WriteXRPCError_iff split: if_splits)
  from hash obtain a where a: "account_of did (db s) = Some a" "hash = acc_password_hash a" and u: "db u = db s"
    by (auto simp: go_inv split: option.splits)
  from DeleteAccount_run [OF del] obtain bs where bs: "db u1 = (db u)\<lparr>blobs := bs,
    repo_commits := tbl_delete (\<lambda>r. cm_did r = did) (repo_commits (db u)),
    repo_records := tbl_delete (\<lambda>r. rr_did r = did) (repo_records (db u)),
    repo_block_revs := tbl_delete (\<lambda>r. br_did r = did) (repo_block_revs (db u))\<rparr>" .
  from row have u2: "db u2 = cascade_delete did (db u1)" by (auto simp: delete_account_row_def go_inv)
  have "rows_of did (db t) = rows_of did (db u2)" using emit_rows [of did E did False "Some ''deleted''" u2] emit by simp
  also have "\<dots> = erased did (db s)" by (simp add: u2 bs u cascade_delete_def rows_of_def erased_def filter_tbl_delete_self)
  finally have mine: "rows_of did (db t) = erased did (db s)" .
  have "rows_of other (db t) = rows_of other (db s)" if "other \<noteq> did" for other
  proof -
    have "\<not> bears E other rq s"
    proof
      assume "bears E other rq s"
      with tok(1) have "token_of E other tok s" by (simp add: bears_def)
      with tok(2) that show False by (auto dest: token_of_unique)
    qed
    with guarded_accounts(4) [of E rq other "Inr password", unfolded guarded_def] assms show ?thesis by (metis snd_conv)
  qed
  with tok a ok mine show ?thesis by blast
qed

end
