(* ===== verification/Api_Runs.thy ===== *)
theory Api_Runs
  imports Batch_Runs Import Config Plc Demo RateLimit Schema Frames
begin

text \<open>
  The properties of imports, keys and passwords, tokens, settings, identities, the rate limiter,
  the migrations and the frames applied on concrete inputs.
\<close>

section \<open>Import\<close>

definition import_run :: "(go_error + unit) \<times> ref_repo pds" where
  "import_run = ImportRepo fine ''did:a'' ''did:a|r|p/a|cx#x'' demo_state"

lemma import_run_facts:
  "fst import_run = Inr () \<and> map rr_rkey (repo_records (db (snd import_run))) = [''a'']"
  by code_simp


theorem toJSON_roundtrip_witness:
  "ofJSON (drop 1) (toJSON (\<lambda>c. CHR ''b'' # c) (GMap [(''l'', GList [GCid ''c'', GBytes ''hi'', GStr ''s'']), (''n'', GScalar ''1'')])) =
     GMap [(''l'', GList [GCid ''c'', GBytes ''hi'', GStr ''s'']), (''n'', GScalar ''1'')]"
  by (rule toJSON_roundtrip) (simp_all)

section \<open>Keys, passwords and tokens\<close>

text \<open>A world whose digests have 32 bytes.\<close>

definition sized :: "ref_repo env" where
  "sized = fine\<lparr>argon2 := (\<lambda>p salt time mem threads n. take n (p @ replicate n CHR ''.'')),
     sha256 := (\<lambda>b. take 32 (b @ replicate 32 CHR ''.'')),
     aes_open := (\<lambda>k n c. Inr (butlast c))\<rparr>"

lemma sized_sel [simp]:
  "argon2 sized = (\<lambda>p salt time mem threads n. take n (p @ replicate n CHR ''.''))"
  "length (sha256 sized b) = 32" "entropy sized n k = replicate k (char_of (n mod 256))"
  "aes_open sized key nonce (aes_seal sized key nonce p) = Inr p"
  "secret sized = ''key''"
  by (simp_all add: sized_def fine_def demo_env_def)

theorem Encrypt_Decrypt_witness: "\<exists>x t. Encrypt sized ''sk'' demo_state = (Inr x, t) \<and> Decrypt sized x = Inr ''sk''"
proof -
  obtain x t where run: "Encrypt sized ''sk'' demo_state = (Inr x, t)"
    by (simp add: Encrypt_def enc_key_def new_cipher_def go_defs rand_read_def sized_def fine_def demo_env_def)
  have "Decrypt sized x = Inr ''sk''" by (rule Encrypt_Decrypt [OF run]) simp_all
  with run show ?thesis by blast
qed

theorem HashPassword_VerifyPassword_witness:
  "\<exists>x t. HashPassword sized ''pw'' demo_state = (Inr x, t) \<and> VerifyPassword sized x ''pw'' = Inr True \<and>
     VerifyPassword sized x ''px'' = Inr False"
proof -
  obtain x t where run: "HashPassword sized ''pw'' demo_state = (Inr x, t)"
    by (simp add: HashPassword_def go_defs rand_read_def sized_def fine_def demo_env_def)
  have "VerifyPassword sized x ''pw'' = Inr True" "VerifyPassword sized x ''px'' = Inr False"
    by (subst HashPassword_VerifyPassword [OF run]; simp)+
  with run show ?thesis by blast
qed

theorem mint_parse_witness:
  "\<exists>tok t. mintAccessJWT fine ''k'' ''did:a'' demo_state = (Inr tok, t) \<and>
     fst (parseAccessJWT fine ''k'' tok t) = Inr ''did:a'' \<and>
     fst (parseAccessJWT fine ''k'' tok (t\<lparr>tick := 9000\<rparr>)) = Inl (Failure ''token expired'')"
proof -
  obtain tok t where run: "mintAccessJWT fine ''k'' ''did:a'' demo_state = (Inr tok, t)"
    by (simp add: mintAccessJWT_def go_defs time_now_def)
  then have t: "tick t \<le> 1" by (auto simp: mintAccessJWT_def go_inv demo_state_def)
  let ?c = "\<lparr>cl_sub = ''did:a'', cl_iat = 1000, cl_exp = 8200\<rparr>"
  have un: "takeWhile (\<lambda>c. c \<noteq> CHR ''-'') (replicate n c @ ''-'' @ r) = replicate n c" if "c \<noteq> CHR ''-''" for n c r
    using that by (induction n) simp_all
  have law: "claims_parse fine (claims_json fine ?c) = Inr ?c"
    using un [of "CHR ''i''" 1000 "replicate 8200 CHR ''e'' @ ''-'' @ ''did:a''"] un [of "CHR ''e''" 8200 "''did:a''"]
    by (simp add: fine_def demo_env_def demo_claims_def demo_unclaims_def Let_def)
  have tick: "clock fine (tick demo_state) = 1000" by (simp add: demo_state_def)
  note parse = mint_parse [OF run, unfolded tick, simplified, OF law [simplified]]
  show ?thesis using run parse [of t] parse [of "t\<lparr>tick := 9000\<rparr>"] t by auto
qed

section \<open>Settings\<close>

definition demo_payload :: "string \<Rightarrow> settings_payload" where
  "demo_payload port = \<lparr>sp_public_url = ''http://h'', sp_service_did = [], sp_did_method = ''web'',
     sp_invite_required = True, sp_admin_token = ''t'', sp_smtp_host = ''m'', sp_smtp_port = port,
     sp_smtp_user = [], sp_smtp_pass = [], sp_smtp_from = []\<rparr>"

definition put_run :: "string \<Rightarrow> (go_error + response) \<times> ref_repo pds" where
  "put_run port = settingsPut fine List.rev (Inr (demo_payload port)) demo_state"

definition accepted :: json where
  "accepted = JObj [(''ok'', jbool True), (''restartRequired'', jbool True)]"

lemma put_valid:
  "\<not> isl (validate_all fine (List.rev (toMap (demo_payload ''25''))))"
  "\<not> isl (validate_all fine (List.rev (toMap (demo_payload []))))"
  by code_simp+

lemma SetSetting_runs: "fst (go_foreach (\<lambda>(k, v). SetSetting fine k v) kvs s) = Inr ()"
  by (induction kvs arbitrary: s) (auto simp: go_defs SetSetting_def sql_def q_exec_def split: prod.splits)

lemma put_run_facts: "fst (put_run ''25'') = Inr (Json accepted)" "fst (put_run []) = Inr (Json accepted)"
proof -
  have "fst (settingsPut fine List.rev (Inr p) s) = Inr (Json accepted)"
    if "\<not> isl (validate_all fine (List.rev (toMap p)))" for p and s :: "ref_repo pds"
  proof -
    obtain s' where "go_foreach (\<lambda>(k, v). SetSetting fine k v) (List.rev (toMap p)) s = (Inr (), s')"
      using SetSetting_runs by (metis surj_pair fst_conv)
    then show ?thesis
      using that by (auto simp: settingsPut_def DecodeBody_def on_error_def go_defs WriteJSON_def accepted_def Let_def isl_def
          split: sum.splits)
  qed
  then show "fst (put_run ''25'') = Inr (Json accepted)" "fst (put_run []) = Inr (Json accepted)"
    by (simp_all add: put_run_def put_valid)
qed

lemma put_run_eq:
  "settingsPut fine List.rev (Inr (demo_payload ''25'')) demo_state = (Inr (Json accepted), snd (put_run ''25''))"
  "settingsPut fine List.rev (Inr (demo_payload [])) demo_state = (Inr (Json accepted), snd (put_run []))"
  using put_run_facts by (simp_all add: put_run_def prod_eq_iff)

lemma fine_url_empty: "url_parse fine [] = Inr u \<Longrightarrow> url_host u = []"
  by (simp add: fine_def demo_env_def demo_url_def)


theorem empty_port_stays_pending_witness:
  "\<not> settingsEqual (settings (db (snd (put_run []))))
     (settingsFromConfig (boot_config Map.empty (db (snd (put_run [])))))"
  by (rule empty_port_stays_pending [OF put_run_eq(2) set_rev])
     (simp_all add: toMap_def demo_state_def empty_db_def demo_payload_def fine_url_empty)

section \<open>Identities\<close>

definition plc_run :: "(go_error + did \<times> plc_operation) \<times> ref_repo pds" where
  "plc_run = plc_create sized ''https://plc'' ''k1'' ''k2'' ''a.ex'' ''h'' demo_state"

lemma plc_run_succeeds: "\<not> isl (fst plc_run)"
  by code_simp

theorem plc_create_did_witness:
  "has_prefix (fst (projr (fst plc_run))) ''did:plc:'' \<and> length (fst (projr (fst plc_run))) = 32"
proof -
  have "plc_create sized ''https://plc'' ''k1'' ''k2'' ''a.ex'' ''h'' demo_state =
      (Inr (fst (projr (fst plc_run)), snd (projr (fst plc_run))), snd plc_run)"
    using run_eq [OF plc_run_succeeds] by (simp add: plc_run_def)
  from plc_create_did [OF this] show ?thesis by simp
qed

section \<open>The rate limiter\<close>

text \<open>Twelve requests of one client at once, one of another, and one a second later.\<close>

definition burst :: "arrival list" where
  "burst = replicate 12 \<lparr>ar_now = 0, ar_sec = 1, ar_key = ''1.2.3.4''\<rparr> @
     [\<lparr>ar_now = 0, ar_sec = 1, ar_key = ''5.6.7.8''\<rparr>, \<lparr>ar_now = 1000000000, ar_sec = 2, ar_key = ''1.2.3.4''\<rparr>]"

lemma burst_ok: "in_order 0 burst" "burst \<noteq> []" "ar_now (last burst) - ar_now (hd burst) = 1000000000"
  by (simp_all add: in_order_def burst_def numeral_eq_Suc)

theorem login_attempts_bounded_witness:
  "of_nat (admitted ''1.2.3.4'' (reached authLimiter []) burst) \<le> (15 :: rat)"
  using login_attempts_bounded [of 0 "[]" burst "''1.2.3.4''"] burst_ok by (simp add: seconds_def)

theorem denied_client_recovers_witness:
  "fst (admit (reached authLimiter burst) \<lparr>ar_now = 1200000000, ar_sec = 2, ar_key = ''1.2.3.4''\<rparr>)"
  by (rule denied_client_recovers [OF burst_ok(1)]) (simp add: burst_def)

theorem gc_invisible_witness: "admits authLimiter burst = admits_no_gc authLimiter burst"
  by (rule gc_invisible [OF burst_ok(1)])

section \<open>Migrations\<close>

text \<open>The fifth statement of the first start fails; the second start goes on.\<close>

theorem migrate_reaches_latest_witness:
  "\<exists>j \<le> 7. snd (snd (migrate (\<lambda>k. k = 5) (0, schema_at 0))) = schema_at j \<and>
     snd (snd (migrate (\<lambda>k. False) (9, schema_at j))) = schema_at 7"
proof -
  obtain r t where run: "migrate (\<lambda>k. k = 5) (0, schema_at 0) = (r, t)" by (metis surj_pair)
  from migrate_reaches_latest [OF _ run] obtain j where j: "j \<le> 7" "snd t = schema_at j" by auto
  obtain r' t' where run': "migrate (\<lambda>k. False) (9, schema_at j) = (r', t')" by (metis surj_pair)
  from migrate_reaches_latest [OF j(1) run'] have "snd t' = schema_at 7" by simp
  with j run run' show ?thesis by auto
qed

section \<open>Frames\<close>

text \<open>An encoder of heads in unary: the major type, the argument, an end mark.\<close>

definition unary_read :: "string \<Rightarrow> go_error + nat \<times> nat \<times> string" where
  "unary_read s =
     (case s of
        [] \<Rightarrow> Inl (Lib ''EOF'')
      | c # r \<Rightarrow>
          let xs = takeWhile (\<lambda>x. x = CHR ''x'') r
          in Inr (of_char c, length xs, drop (Suc (length xs)) r))"

definition unary_cbor :: cbor where
  "unary_cbor = \<lparr>
     cb_head = (\<lambda>m n. char_of m # replicate n CHR ''x'' @ ''.''),
     cb_read = unary_read,
     cb_string = (\<lambda>s. case unary_read s of
         Inl e \<Rightarrow> Inl e
       | Inr (m, n, r) \<Rightarrow> if m = 3 then Inr (take n r, drop n r) else Inl (Lib ''expected text'')),
     cb_commit = (\<lambda>s. Inl (Lib ''unused'')), cb_identity = (\<lambda>s. Inl (Lib ''unused'')),
     cb_account = (\<lambda>s. Inl (Lib ''unused'')), cb_info = (\<lambda>s. Inr \<lparr>fe_name = s, fe_message = None\<rparr>)\<rparr>"

lemma unary_read_head:
  assumes "m < 8"
  shows "unary_read (char_of m # replicate n CHR ''x'' @ ''.'' @ r) = Inr (m, n, r)"
proof -
  have "takeWhile (\<lambda>x. x = CHR ''x'') (replicate n CHR ''x'' @ ''.'' @ r) = replicate n CHR ''x''"
    by (induction n) simp_all
  with assms show ?thesis by (simp add: unary_read_def Let_def)
qed

lemma unary_cbor_reads: "cbor_reads unary_cbor"
  using unary_read_head [of 3] unary_read_head
  by (simp add: cbor_reads_def unary_cbor_def write_string_def)

theorem header_roundtrip_witness:
  "decodeHeader unary_cbor (writeHeader unary_cbor 1 ''#commit'' @ ''body'') = Inr ((''#commit'', 1), ''body'')"
  by (rule header_roundtrip [OF unary_cbor_reads]) simp_all

theorem readInt64_negative_overflow_witness:
  "readInt64 unary_cbor (cb_head unary_cbor MajNegativeInt (2 ^ 63 + 5)) = Inr (2 ^ 63 - 6, [])"
proof -
  have "(2 :: nat) ^ 63 \<le> 2 ^ 63 + 5" "(2 :: nat) ^ 63 + 5 < 2 ^ 64" by simp_all
  from readInt64_negative_overflow [OF unary_cbor_reads this, of "[]"]
  have "readInt64 unary_cbor (cb_head unary_cbor MajNegativeInt (2 ^ 63 + 5) @ []) = Inr (2 ^ 64 - 1 - int (2 ^ 63 + 5), [])"
    by blast
  moreover have "(2 :: int) ^ 64 - 1 - int (2 ^ 63 + 5) = 2 ^ 63 - 6" by simp
  ultimately show ?thesis by (simp only: append_Nil2)
qed

end
