(* ===== verification/Server_Runs.thy ===== *)
theory Server_Runs
  imports Lifecycle Api_Runs
begin

text \<open>
  The properties of the sessions, of the codes, of accounts and of the whole server applied on
  concrete requests.
\<close>

section \<open>A small server\<close>

text \<open>The world of \<open>Api_Runs\<close> with short claims: a token lasts to the second 9999.\<close>

definition quick :: "ref_repo env" where
  "quick = fine\<lparr>argon2 := (\<lambda>p salt time mem threads n. take n (p @ replicate n CHR ''.'')), aes_open := (\<lambda>k n c. Inr (butlast c)),
     claims_json := cl_sub, claims_parse := (\<lambda>b. Inr \<lparr>cl_sub = b, cl_iat = 0, cl_exp = 9999\<rparr>)\<rparr>"

lemma quick_no_faults: "no_faults quick"
  by (simp add: no_faults_def quick_def fine_def demo_env_def)

definition quick_config :: config where
  "quick_config = \<lparr>ListenAddr = '':2583'', DatabasePath = ''db'', DataDir = ''data'', ServiceDID = [],
     PublicURL = ''https://h'', Secret = ''key'', PlcURL = ''https://plc'', DIDMethod = ''web'', InviteRequired = True,
     AdminToken = ''admin'', TrustProxy = False, BlobSizeLimit = 100, AppviewProxyURL = [], SMTPHost = [],
     SMTPPort = [], SMTPUser = [], SMTPPass = [], SMTPFrom = []\<rparr>"

lemma quick_config_sel [simp]: "InviteRequired quick_config" "DIDMethod quick_config = ''web''" "DIDMethod quick_config \<noteq> ''plc''"
  by (simp_all add: quick_config_def)

text \<open>A request that carries a text in its \<open>Authorization\<close> header.\<close>

definition asks :: "string \<Rightarrow> request" where
  "asks auth = \<lparr>rq_method = ''POST'', rq_host = ''h'', rq_path = ''/xrpc'', rq_remote = ''1.2.3.4:5'',
     rq_header = (\<lambda>k. if k = ''Authorization'' then auth else []), rq_query = (\<lambda>k. []), rq_raw_query = [], rq_cookie = (\<lambda>k. None)\<rparr>"

lemma quick_sel [simp]:
  "\<not> fault quick n" "clock quick n = 1000 + int n" "sha256 quick x = ''s'' @ x" "subsec quick n = 0"
  "argon2 quick = (\<lambda>p salt time mem threads n. take n (p @ replicate n CHR ''.''))"
  "entropy quick n k = replicate k (char_of (n mod 256))" "claims_json quick = cl_sub" "secret quick = ''key''"
  "claims_parse quick b = Inr \<lparr>cl_sub = b, cl_iat = 0, cl_exp = 9999\<rparr>"
  "aes_open quick k2 nonce (aes_seal quick k2 nonce p) = Inr p" "p256_parse quick = Inr" "ix_new quick = demo_new"
  "ix_commit quick = demo_commit" "ix_signed quick = rp_signed" "p256_sign quick k3 m = Inr ''sig''"
  "event_body quick sq e = Inr ''body''" "car_header quick roots = Inr (''H'' @ concat roots)"
  "cid_cast quick = demo_cast" "syntax_handle quick = demo_name" "p256_generate quick n = Inr (''k'' @ replicate n CHR ''i'')"
  "p256_multibase quick k4 = Inr (''z'' @ k4)"
  by (simp_all add: quick_def fine_def demo_env_def)

text \<open>A stored password, the two accounts, and a session, an invite code and a reset code.\<close>

definition hashed :: "string \<Rightarrow> nat \<Rightarrow> string" where
  "hashed pw n = projr (fst (HashPassword quick pw (demo_state\<lparr>tick := n\<rparr>)))"

lemma HashPassword_quick: "HashPassword quick pw s = (Inr (hashed pw (tick s)), s\<lparr>tick := Suc (tick s)\<rparr>)"
  by (simp add: HashPassword_def hashed_def go_defs rand_read_def)

lemma hashed_pw: "VerifyPassword quick (hashed ''pw'' 0) ''pw'' = Inr True"
  by (subst VerifyPassword_hash [OF HashPassword_quick [of "''pw''" demo_state, unfolded demo_state_def, simplified]])
     simp_all

definition live_db :: database where
  "live_db = empty_db\<lparr>
     accounts := [(demo_account ''did:a'' ''a.ex'')\<lparr>acc_password_hash := hashed ''pw'' 0\<rparr>, demo_account ''did:b'' ''b.ex''],
     auth_sessions := [\<lparr>ses_token_hash = hashToken quick ''tok'', ses_did = ''did:a'', ses_created_at = Stamp 0,
       ses_expires_at = Stamp 5000, ses_app_password = None\<rparr>],
     invite_codes := [\<lparr>iv_code = ''inv'', iv_created_by = ''did:b'', iv_created_at = Stamp 0, iv_used_by = None,
       iv_used_at = None, iv_disabled_at = None\<rparr>],
     email_tokens := [\<lparr>et_token = ''code'', et_did = ''did:a'', et_purpose = ''reset'', et_email = ''a@ex'',
       et_expires_at = Stamp 5000, et_used_at = None\<rparr>]\<rparr>"

definition live :: "ref_repo pds" where
  "live = demo_state\<lparr>db := live_db\<rparr>"

lemma live_db_sel [simp]:
  "accounts live_db = [(demo_account ''did:a'' ''a.ex'')\<lparr>acc_password_hash := hashed ''pw'' 0\<rparr>, demo_account ''did:b'' ''b.ex'']"
  "invite_codes live_db = [\<lparr>iv_code = ''inv'', iv_created_by = ''did:b'', iv_created_at = Stamp 0, iv_used_by = None,
     iv_used_at = None, iv_disabled_at = None\<rparr>]"
  "repo_commits live_db = []" "repo_blocks live_db = []" "repo_block_revs live_db = []" "firehose_events live_db = []"
  "map ses_token_hash (auth_sessions live_db) = [hashToken quick ''tok'']"
  "tick live = 0" "db live = live_db" "repos live = Map.empty" "public_url live = []" "em_seq (emitter live) = 0" "blob_root live = None"
  by (simp_all add: live_def live_db_def demo_state_def empty_db_def)

lemma live_ok: "database_ok (db live)"
  by (simp add: live_def live_db_def empty_db_def demo_account_def ok_defs tbl_keys_ok_def)

text \<open>A refresh token the world issues is not the stored one.\<close>

lemma hashToken_length: "hashToken quick x = hashToken quick y \<Longrightarrow> length x = length y"
  by (drule arg_cong [of _ _ length]) (simp add: hashToken_def)

lemma fresh_token [simp]:
  "hashToken quick (hex_encode (replicate 32 c)) \<noteq> hashToken quick ''tok''"
  "hashToken quick ''tok'' \<noteq> hashToken quick (hex_encode (replicate 32 c))"
  by (auto dest: hashToken_length)

lemmas run_simps = DecodeBody_def on_error_def go_defs sql_def q_row_def q_rows_def q_exec_def q_try_def Let_def WriteJSON_def
  time_now_def rand_read_def now_after_def tbl_get_def tbl_has_def tbl_insert_def ignoring_def demo_account_def find_account_def

lemma login_runs: "\<exists>v t. HandleCreateSession quick (Inr (''a.ex'', ''pw'')) live = (Inr (Json v), t)"
  by (simp add: HandleCreateSession_def lookupAccount_def account_named_def has_prefix_def str_contains_def nocase_eq_def
      ascii_lower_def password_ok_def hashed_pw mintSession_def mintAccessJWT_def insert_session_def run_simps live_db_def)

lemma refresh_runs: "\<exists>v t. HandleRefreshSession quick (Inr ''tok'') live = (Inr (Json v), t)"
  by (simp add: HandleRefreshSession_def check_refresh_def delete_session_def mintSession_def mintAccessJWT_def
      insert_session_def run_simps live_db_def tbl_delete_def)

lemma reset_runs: "\<exists>v t. HandleResetPassword quick (Inr (''code'', ''new'')) live = (Inr (Json v), t)"
  by (simp add: HandleResetPassword_def findEmailToken_def HashPassword_quick update_account_def markEmailTokenUsed_def
      mark_used_def run_simps live_db_def tbl_update_def)

lemma quick_cipher [simp]: "new_cipher (enc_key quick) = Inr (enc_key quick)"
  by (simp add: new_cipher_def enc_key_def)

lemma quick_keys:
  "Encrypt quick m s = (Inr (boxed quick (enc_key quick) (replicate 12 (char_of (tick s mod 256))) m), s\<lparr>tick := Suc (tick s)\<rparr>)"
  "Decrypt quick (boxed quick (enc_key quick) (replicate 12 c) m) = Inr m"
  by (simp add: Encrypt_def boxed_def go_defs rand_read_def) (rule Decrypt_boxed; simp)

definition join_input :: create_input where
  "join_input = \<lparr>ci_handle = ''c.ex'', ci_invite = Some ''inv'', ci_password = Some ''pw'', ci_email = None\<rparr>"

text \<open>The first commit of an account on empty tables.\<close>

definition first_block :: "did \<Rightarrow> bytes" where
  "first_block did = demo_block did ''r'' []"

definition first_commit :: "did \<Rightarrow> int \<Rightarrow> database \<Rightarrow> database" where
  "first_commit did now d = d\<lparr>
     repo_blocks := [\<lparr>blk_cid = demo_cid (first_block did), blk_data = first_block did, blk_size = length (first_block did)\<rparr>],
     repo_commits := [\<lparr>cm_did = did, cm_rev = ''r'', cm_cid = demo_cid (first_block did), cm_prev = None,
       cm_data = demo_cid (first_block did), cm_sig = ''sig'', cm_created_at = Stamp now\<rparr>],
     repo_block_revs := [\<lparr>br_did = did, br_cid = demo_cid (first_block did), br_rev = ''r''\<rparr>]\<rparr>"

lemma top_row_single [simp]: "top_row key [] = None" "top_row key [r] = Some r"
  by (simp_all add: top_row_def order_desc_def)

lemma open_runs:
  assumes "repo_commits (db s) = []" and "repos s did = None"
  shows "open_repo quick did s = (Inr (demo_new did), s\<lparr>tick := Suc (tick s), repos := (repos s)(did \<mapsto> demo_new did)\<rparr>)"
  using assms by (simp add: open_repo_def or_no_rows_def head_row_def commits_of_def run_simps)

lemma commit_runs:
  assumes "tbl_get acc_did did (accounts (db s)) = Some a" and "acc_signing_key a = boxed quick (enc_key quick) (replicate 12 c) m"
    and "repo_commits (db s) = []" "repo_blocks (db s) = []" "repo_block_revs (db s) = []"
    and "repos s did = Some (demo_new did)" and "recorded s = Some []"
  shows "\<exists>res t now. commit quick did s = (Inr res, t) \<and> cr_prev_rev res = [] \<and> db t = first_commit did now (db s) \<and>
    public_url t = public_url s \<and> emitter t = emitter s"
  using assms
  by (auto simp: commit_def signed_of_def signingKey_def quick_keys lib_call_def demo_commit_def rec_put_def bs_put_def
      insert_commit_def rec_drain_def upsert_block_rev_def run_simps demo_new_def no_commit_def demo_rev_def
      first_commit_def first_block_def tbl_ignore_def tbl_upsert_def)

lemma CreateAccount_runs:
  assumes "tbl_get acc_did did (accounts (db s)) = Some a" and "acc_signing_key a = boxed quick (enc_key quick) (replicate 12 c) m"
    and "repo_commits (db s) = []" "repo_blocks (db s) = []" "repo_block_revs (db s) = []" "firehose_events (db s) = []"
    and "repos s did = None" and "public_url s = []" and "em_seq (emitter s) = 0"
  shows "\<exists>t. CreateAccount quick did s = (Inr (), t) \<and> auth_sessions (db t) = auth_sessions (db s) \<and>
    accounts (db t) = accounts (db s)"
proof -
  let ?s = "s\<lparr>tick := Suc (tick s), repos := (repos s)(did \<mapsto> demo_new did), recorded := Some []\<rparr>"
  obtain res t now where run: "commit quick did ?s = (Inr res, t)" "cr_prev_rev res = []" "db t = first_commit did now (db s)"
    "public_url t = []" "emitter t = emitter s"
    using commit_runs [of did ?s a c m] assms by auto
  show ?thesis
    using assms run
    by (simp add: CreateAccount_def open_runs rec_begin_def emitCommit_def w_buffer_def WriteRepoCAR_def w_lift_def Head_def
        RepoCids_def publish_def set_seq_def notifyRelays_def run_simps first_commit_def head_row_def commits_of_def
        demo_cast_def demo_cid_def block_revs_of_def writeCarHeader_def w_emit_def write_blocks_def bs_get_def
        writeCarBlock_def)
qed

lemma mint_runs:
  assumes "tbl_has acc_did did (accounts (db s))" and "map ses_token_hash (auth_sessions (db s)) = [hashToken quick ''tok'']"
  shows "\<exists>access refresh t. mintSession quick did [] s = (Inr (access, refresh), t)"
  using assms
  by (auto simp: mintSession_def mintAccessJWT_def insert_session_def run_simps list_ex_iff map_eq_Cons_conv)

lemma join_runs: "\<exists>v t. HandleCreateAccount quick quick_config (Inr join_input) live = (Inr (Json v), t)"
proof -
  define k where "k = (\<lambda>did doc signing recovery. register_account quick quick_config join_input ''c.ex'' did doc signing recovery)"
  have reg: "\<exists>v t. k ''did:web:c.ex'' doc signing recovery s = (Inr (Json v), t)"
    if asm: "db s = live_db" "repos s = Map.empty" "public_url s = []" "em_seq (emitter s) = 0" for doc signing recovery s
  proof -
    define a where "a = \<lparr>acc_did = ''did:web:c.ex'', acc_handle = ''c.ex'', acc_email = Some [], acc_password_hash = hashed ''pw'' (tick s),
        acc_recovery_key = boxed quick (enc_key quick) (replicate 12 (char_of (Suc (Suc (tick s)) mod 256))) recovery,
        acc_signing_key = boxed quick (enc_key quick) (replicate 12 (char_of (Suc (tick s) mod 256))) signing,
        acc_created_at = Stamp (1000 + int (tick s + 3)), acc_did_doc = Some doc,
        acc_deactivated_at = None, acc_email_confirmed_at = None\<rparr>"
    let ?u = "s\<lparr>tick := tick s + 4, db := live_db\<lparr>accounts := accounts live_db @ [a]\<rparr>\<rparr>"
    have ins: "sql quick (insert_account a) (s\<lparr>tick := Suc (Suc (Suc (tick s)))\<rparr>) = (Inr (), ?u)"
      using asm by (simp add: insert_account_def run_simps a_def)
    have got: "tbl_get acc_did ''did:web:c.ex'' (accounts (db ?u)) = Some a"
      by (simp add: tbl_get_def demo_account_def a_def)
    have key: "acc_signing_key a = boxed quick (enc_key quick) (replicate 12 (char_of (Suc (tick s) mod 256))) signing"
      by (simp add: a_def)
    obtain t where create: "CreateAccount quick ''did:web:c.ex'' ?u = (Inr (), t)" "auth_sessions (db t) = auth_sessions live_db"
      "accounts (db t) = accounts live_db @ [a]"
      using CreateAccount_runs [OF got key] asm by auto
    obtain u now where use: "go_bind (time_now quick) (\<lambda>used. ignoring (sql quick (use_invite ''inv'' ''did:web:c.ex'' used))) t = (Inr (), u)"
      "auth_sessions (db u) = auth_sessions live_db" "accounts (db u) = accounts live_db @ [a]"
      using create by (simp add: Accounts.use_invite_def run_simps)
    obtain access refresh w where mint: "mintSession quick ''did:web:c.ex'' [] u = (Inr (access, refresh), w)"
      using mint_runs [of "''did:web:c.ex''" u] use by (auto simp: a_def live_db_def empty_db_def tbl_has_def)
    show ?thesis
      using ins create use mint
      by (simp add: k_def register_account_def HashPassword_quick quick_keys join_input_def coalesce_def given_def
          on_error_def go_bind_def time_now_def WriteJSON_def go_ret_def a_def)
  qed
  show ?thesis
    unfolding HandleCreateAccount_def DecodeBody_def require_invite_def new_identity_def CreateDidWeb_def
    using reg
    by (simp add: demo_name_def count_handle_def run_simps generate_key_def k_def join_input_def)
qed

text \<open>The token of the first account, and its farewell.\<close>

definition a_token :: string where
  "a_token = sign_token quick (mac_key quick) \<lparr>cl_sub = ''did:a'', cl_iat = 0, cl_exp = 9999\<rparr>"

definition a_request :: request where
  "a_request = asks (''Bearer '' @ a_token)"

lemma a_header: "rq_header a_request ''Authorization'' = ''Bearer '' @ a_token"
  by (simp add: a_request_def asks_def)

lemma a_token_parses: "tick s < 5000 \<Longrightarrow> parseAccessJWT quick (mac_key quick) a_token s = (Inr ''did:a'', s)"
  by (simp add: a_token_def parse_signed)

lemma a_token_of: "token_of quick did a_token live \<longleftrightarrow> did = ''did:a''"
proof -
  from a_token_parses [of live] have "token_of quick ''did:a'' a_token live"
    by (auto simp: token_of_def elim!: parseAccessJWT_InrD)
  then show ?thesis by (auto dest: token_of_unique)
qed

lemma behind_token:
  assumes "tick s < 5000"
  shows "requireAuth quick a_request k s = k ''did:a'' s"
proof -
  have "a_token \<noteq> []" by (simp add: a_token_def sign_token_def Let_def)
  then show ?thesis
    using a_token_parses [OF assms] cut_prefix_append [of "''Bearer ''" a_token]
    by (simp add: requireAuth_def bearerToken_def a_header on_error_def del: append.simps)
qed

lemma leave_runs: "\<exists>v t. HandleDeleteAccount quick a_request (Inr ''pw'') live = (Inr (Json v), t)"
  by (simp add: HandleDeleteAccount_def behind_token DecodeBody_def on_error_def go_of_def sql_def q_row_def Let_def
      account_of_def find_account_def demo_account_def password_ok_def hashed_pw go_bind_def go_ret_def
      DeleteAccount_def go_modify_def go_reads_def clear_repo_def delete_commits_of_def delete_records_of_def
      delete_block_revs_of_def q_exec_def delete_account_row_def ignoring_def WriteJSON_def split: prod.split)

section \<open>Witnesses\<close>


theorem createSession_sound_witness:
  "\<exists>v t access refresh. HandleCreateSession quick (Inr (''a.ex'', ''pw'')) live = (Inr (Json v), t) \<and>
     issues quick ''did:a'' [] (db live) (db t) access refresh"
proof -
  obtain v t where run: "HandleCreateSession quick (Inr (''a.ex'', ''pw'')) live = (Inr (Json v), t)"
    using login_runs by blast
  have name: "account_named ''a.ex'' (db live) = Some ((demo_account ''did:a'' ''a.ex'')\<lparr>acc_password_hash := hashed ''pw'' 0\<rparr>)"
    by (simp add: account_named_def find_account_def demo_account_def has_prefix_def str_contains_def nocase_eq_def)
  have "app_passwords (db live) = []" by (simp add: live_db_def empty_db_def)
  with createSession_sound [OF run] name run show ?thesis by (auto simp: demo_account_def)
qed

theorem refresh_rotates_witness:
  "\<exists>v t. HandleRefreshSession quick (Inr ''tok'') live = (Inr (Json v), t) \<and>
     fst (HandleRefreshSession quick (Inr ''tok'') t) = Inr invalid_refresh"
proof -
  obtain v t where run: "HandleRefreshSession quick (Inr ''tok'') live = (Inr (Json v), t)"
    using refresh_runs by blast
  from run have new: "ses_token_hash ` set (auth_sessions (db t)) \<subseteq> {hashToken quick (hex_encode (replicate 32 c)) | c. True}"
    by (auto simp: HandleRefreshSession_def check_refresh_def delete_session_def mintSession_def mintAccessJWT_def
        insert_session_def run_simps live_db_def tbl_delete_def)
  from refresh_rotates [OF run] show ?thesis
  proof (elim exE conjE)
    fix row exp access refresh handle
    assume i: "issues quick (ses_did row) (coalesce (ses_app_password row))
        ((db live)\<lparr>auth_sessions := tbl_delete (\<lambda>r. ses_token_hash r = hashToken quick ''tok'') (auth_sessions (db live))\<rparr>)
        (db t) access refresh"
      and again: "hashToken quick refresh \<noteq> hashToken quick ''tok'' \<longrightarrow>
        fst (HandleRefreshSession quick (Inr ''tok'') t) = Inr invalid_refresh \<and>
        db (snd (HandleRefreshSession quick (Inr ''tok'') t)) = db t"
    from i have "hashToken quick refresh \<in> ses_token_hash ` set (auth_sessions (db t))"
      by (auto simp: issues_def new_session_def)
    with new have "hashToken quick refresh \<noteq> hashToken quick ''tok''" by auto
    with again run show ?thesis by blast
  qed
qed

theorem owner_only_witness:
  "rows_of ''did:b'' (db (snd (serve quick quick_config ''/b'' a_request (RqDeleteAccount (Inr ''pw'')) live))) =
   rows_of ''did:b'' (db live)"
proof (rule owner_only [OF live_ok])
  show "\<not> authorised quick quick_config a_request (RqDeleteAccount (Inr ''pw'')) ''did:b'' live"
    by (simp add: authorised_def bears_def a_header a_token_of del: append.simps)
qed

theorem reset_single_use_witness:
  "\<exists>v t. HandleResetPassword quick (Inr (''code'', ''new'')) live = (Inr (Json v), t) \<and>
     fst (HandleResetPassword quick (Inr (''code'', ''newer'')) t) = Inr invalid_code"
proof -
  obtain v t where run: "HandleResetPassword quick (Inr (''code'', ''new'')) live = (Inr (Json v), t)"
    using reset_runs by blast
  from reset_single_use [OF quick_no_faults live_ok run, of quick quick_config "''/b''" "[]" authLimiter "''newer''"] run
  show ?thesis by (auto simp: Let_def)
qed

theorem invite_single_use_witness:
  "\<exists>v t. HandleCreateAccount quick quick_config (Inr join_input) live = (Inr (Json v), t) \<and>
     ''inv'' \<in> spent_invites (db t) \<and> refuses (HandleCreateAccount quick quick_config (Inr (join_input\<lparr>ci_handle := ''d.ex''\<rparr>))) t"
proof -
  obtain v t where run: "HandleCreateAccount quick quick_config (Inr join_input) live = (Inr (Json v), t)"
    using join_runs by blast
  from invite_single_use [OF quick_no_faults live_ok _ run, where again = "join_input\<lparr>ci_handle := ''d.ex''\<rparr>"
      and vs = "[]" and F = quick]
  show ?thesis using run by (auto simp: Let_def join_input_def)
qed

theorem deleteAccount_complete_witness:
  "\<exists>v t. HandleDeleteAccount quick a_request (Inr ''pw'') live = (Inr (Json v), t) \<and>
     accounts (rows_of ''did:a'' (db t)) = []"
proof -
  obtain v t where run: "HandleDeleteAccount quick a_request (Inr ''pw'') live = (Inr (Json v), t)"
    using leave_runs by blast
  from deleteAccount_complete [OF run] obtain tok did where "rq_header a_request ''Authorization'' = ''Bearer '' @ tok"
    "token_of quick did tok live" "rows_of did (db t) = erased did (db live)" by blast
  then have "accounts (rows_of ''did:a'' (db t)) = []" by (simp add: a_header a_token_of erased_def del: append.simps)
  with run show ?thesis by blast
qed

end
