(* ===== verification/Console_Login.thy ===== *)
theory Console_Login
  imports Console
begin

text \<open>
  What the login limiter of the console guarantees, and what it does not: in any window of
  fifteen seconds it compares at most five tokens per client key, and the key is a header the
  client chooses.
\<close>

section \<open>Spacing\<close>

text \<open>Of an ordered list of times, any one and the \<open>n\<close>-th after it are at least \<open>w\<close> apart.\<close>

definition spaced :: "int \<Rightarrow> nat \<Rightarrow> int list \<Rightarrow> bool" where
  "spaced w n ts \<longleftrightarrow> (\<forall>i. i + n < length ts \<longrightarrow> ts ! (i + n) - ts ! i \<ge> w)"

lemma spaced_snoc:
  assumes "spaced w n ts" and "n \<le> length ts \<Longrightarrow> t - ts ! (length ts - n) \<ge> w" and "0 < n"
  shows "spaced w n (ts @ [t])"
  unfolding spaced_def
proof (intro allI impI)
  fix i
  assume i: "i + n < length (ts @ [t])"
  show "(ts @ [t]) ! (i + n) - (ts @ [t]) ! i \<ge> w"
  proof (cases "i + n < length ts")
    case True
    with assms(1) show ?thesis by (simp add: spaced_def nth_append)
  next
    case False
    with i have "i + n = length ts" by simp
    then have "i = length ts - n" "n \<le> length ts" "i < length ts" using assms(3) by simp_all
    with assms(2) show ?thesis by (simp add: nth_append)
  qed
qed

lemma few_recent:
  assumes "sorted ts" and "length (filter (\<lambda>t. t > c) ts) < n" and "n \<le> length ts"
  shows "ts ! (length ts - n) \<le> (c :: int)"
proof (rule ccontr)
  assume "\<not> ts ! (length ts - n) \<le> c"
  then have first: "c < ts ! (length ts - n)" by simp
  have "\<forall>t \<in> set (drop (length ts - n) ts). t > c"
  proof
    fix t
    assume "t \<in> set (drop (length ts - n) ts)"
    then obtain j where j: "j < n" "t = ts ! (length ts - n + j)" using assms(3) by (auto simp: in_set_conv_nth)
    then have "ts ! (length ts - n) \<le> t" using assms(1,3) by (auto intro!: sorted_nth_mono)
    with first show "t > c" by simp
  qed
  then have "filter (\<lambda>t. t > c) (drop (length ts - n) ts) = drop (length ts - n) ts" by simp
  moreover have "filter (\<lambda>t. t > c) ts = filter (\<lambda>t. t > c) (take (length ts - n) ts) @ filter (\<lambda>t. t > c) (drop (length ts - n) ts)"
    by (simp flip: filter_append)
  ultimately have "length (filter (\<lambda>t. t > c) ts) \<ge> n" using assms(3) by simp
  with assms(2) show False by simp
qed

section \<open>The limiter and its history\<close>

text \<open>\<open>tracks l now key ts\<close>: \<open>ts\<close> are the admitted times of \<open>key\<close>, and the limiter still has those that matter.\<close>

definition tracks :: "login_limiter \<Rightarrow> int \<Rightarrow> string \<Rightarrow> int list \<Rightarrow> bool" where
  "tracks l now key ts \<longleftrightarrow> sorted ts \<and> (\<forall>t \<in> set ts. t \<le> now) \<and> spaced (ll_window l) (nat (ll_limit l)) ts \<and>
     (\<forall>c \<ge> now - ll_window l. filter (\<lambda>t. t > c) (ll_hits l key) = filter (\<lambda>t. t > c) ts)"

lemma tracks_new: "tracks (new_login_limiter limit window) now key []"
  by (simp add: tracks_def new_login_limiter_def spaced_def)

lemma tracks_allow:
  assumes tr: "tracks l now key ts" and now: "now \<le> now'" and pos: "0 < ll_limit l" "0 < ll_window l"
    and run: "login_allow l now' key' = (ok, l')"
  shows "tracks l' now' key (if ok \<and> key' = key then ts @ [now'] else ts)"
    and "ll_limit l' = ll_limit l \<and> ll_window l' = ll_window l"
proof -
  let ?w = "ll_window l" and ?n = "nat (ll_limit l)"
  show pars: "ll_limit l' = ll_limit l \<and> ll_window l' = ll_window l"
    using run by (auto simp: login_allow_def Let_def split: if_splits)
  from tr now have ts: "sorted ts" "\<forall>t \<in> set ts. t \<le> now'" "spaced ?w ?n ts"
    "filter (\<lambda>t. t > c) (ll_hits l key) = filter (\<lambda>t. t > c) ts" if "c \<ge> now' - ?w" for c
    using that by (force simp: tracks_def)+
  have keep: "recent l now' key = filter (\<lambda>t. t > now' - ?w) ts" using ts(4) by (simp add: recent_def)
  have sub: "filter (\<lambda>t. t > c) (recent l now' key) = filter (\<lambda>t. t > c) ts" if "c \<ge> now' - ?w" for c
    using that unfolding keep filter_filter by (intro filter_cong) auto
  show "tracks l' now' key (if ok \<and> key' = key then ts @ [now'] else ts)"
  proof (cases "key' = key")
    case False
    then have "ll_hits l' key = ll_hits l key" using run by (auto simp: login_allow_def Let_def split: if_splits)
    with False ts pars show ?thesis by (auto simp: tracks_def)
  next
    case True
    show ?thesis
    proof (cases ok)
      case False
      then have "ll_hits l' key = recent l now' key" using run True by (auto simp: login_allow_def Let_def split: if_splits)
      with False ts(1-3) [of now'] pos pars sub show ?thesis by (auto simp: tracks_def)
    next
      case ok: True
      with run True have hits: "ll_hits l' key = recent l now' key @ [now']" and few: "int (length (recent l now' key)) < ll_limit l"
        by (auto simp: login_allow_def Let_def split: if_splits)
      have "spaced ?w ?n (ts @ [now'])"
      proof (rule spaced_snoc)
        assume "?n \<le> length ts"
        with few have "ts ! (length ts - ?n) \<le> now' - ?w"
          using ts(1) [of now'] pos by (intro few_recent) (simp_all add: keep)
        then show "now' - ts ! (length ts - ?n) \<ge> ?w" by simp
      qed (use ts(3) [of now'] pos in simp_all)
      with ok True ts(1,2) [of now'] pos pars sub hits show ?thesis
        by (auto simp: tracks_def sorted_append)
    qed
  qed
qed

section \<open>Attempts\<close>

text \<open>An attempt to log in; its token is compared when the reply is not \<open>429\<close> and the body has a token.\<close>

record attempt =
  at_now :: int
  at_request :: request
  at_body :: "go_error + string"

definition compared :: "attempt \<Rightarrow> response \<Rightarrow> bool" where
  "compared a r \<longleftrightarrow>
     (case at_body a of Inl e \<Rightarrow> False | Inr tok \<Rightarrow> tok \<noteq> [] \<and> r \<noteq> PlainError 429 (Text ''too many attempts''))"

fun guesses :: "'r env \<Rightarrow> config \<Rightarrow> login_limiter \<Rightarrow> attempt list \<Rightarrow> string \<Rightarrow> int list" where
  "guesses E cfg l [] key = []"
| "guesses E cfg l (a # as) key =
     (case console_login E cfg (at_now a) (at_request a) (at_body a) l of ((r, ck), l') \<Rightarrow>
        (if compared a r \<and> console_client (at_request a) = key then [at_now a] else []) @ guesses E cfg l' as key)"

lemma login_cases:
  assumes "console_login E cfg (at_now a) (at_request a) (at_body a) l = ((r, ck), l')"
  shows "(\<not> compared a r \<and> l' = l) \<or>
    (\<exists>ok. login_allow l (at_now a) (console_client (at_request a)) = (ok, l') \<and> (compared a r \<longleftrightarrow> ok))"
  using assms by (auto simp: console_login_def compared_def reply_ok_def split: sum.splits prod.splits if_splits)

lemma tracks_later: "tracks l now key ts \<Longrightarrow> now \<le> now' \<Longrightarrow> tracks l now' key ts"
  by (force simp: tracks_def)

lemma guesses_spaced:
  assumes "tracks l now key ts" and "0 < ll_limit l" and "0 < ll_window l"
    and "sorted (now # map at_now as)"
  shows "spaced (ll_window l) (nat (ll_limit l)) (ts @ guesses E cfg l as key)"
  using assms
proof (induction as arbitrary: l now ts)
  case Nil
  then show ?case by (simp add: tracks_def)
next
  case (Cons a as)
  obtain r ck l' where run: "console_login E cfg (at_now a) (at_request a) (at_body a) l = ((r, ck), l')"
    by (metis surj_pair)
  have mono: "now \<le> at_now a" "sorted (at_now a # map at_now as)" using Cons.prems(4) by simp_all
  let ?ts = "if compared a r \<and> console_client (at_request a) = key then ts @ [at_now a] else ts"
  have "tracks l' (at_now a) key ?ts \<and> ll_limit l' = ll_limit l \<and> ll_window l' = ll_window l"
    using login_cases [OF run]
  proof (elim disjE exE conjE)
    assume "\<not> compared a r" "l' = l"
    with tracks_later [OF Cons.prems(1) mono(1)] show ?thesis by simp
  next
    fix ok
    assume "login_allow l (at_now a) (console_client (at_request a)) = (ok, l')" "compared a r \<longleftrightarrow> ok"
    with tracks_allow [OF Cons.prems(1) mono(1) Cons.prems(2,3), of "console_client (at_request a)" ok l']
    show ?thesis by simp
  qed
  with Cons.IH [of l' "at_now a" ?ts] Cons.prems mono have "spaced (ll_window l) (nat (ll_limit l)) (?ts @ guesses E cfg l' as key)"
    by simp
  then show ?case by (auto simp: run split: if_splits)
qed

text \<open>C33: Tokens cannot be guessed fast: in any sequence of attempts to log in to the console, in the order
  of their times, of the attempts of one client key whose token the server compared, each one is
  at least fifteen seconds after the fifth before it.\<close>

theorem console_guesses_bounded:
  assumes "sorted (map at_now as)" and "ts = guesses E cfg loginLimiter as key" and "i + 5 < length ts"
  shows "ts ! (i + 5) - ts ! i \<ge> 15 * 1000000000"
proof (cases as)
  case Nil
  with assms show ?thesis by simp
next
  case (Cons a bs)
  have "spaced (15 * 1000000000) 5 ([] @ guesses E cfg loginLimiter as key)"
    using guesses_spaced [of loginLimiter "at_now a" key "[]" as E cfg] tracks_new [of 5 "15 * 1000000000" "at_now a" key] assms(1) Cons
    by (simp add: loginLimiter_def new_login_limiter_def)
  with assms(2,3) show ?thesis by (simp add: spaced_def)
qed

text \<open>
  The key is the header \<open>X-Forwarded-For\<close>, taken whole from whoever sends it: an attempt with a
  value the limiter has not seen is never refused.
\<close>

lemma new_header_passes:
  assumes "rq_header (at_request a) ''X-Forwarded-For'' = xf" and "xf \<noteq> []" and "ll_hits l xf = []" and "0 < ll_limit l"
    and "at_body a = Inr tok" and "tok \<noteq> []"
    and "console_login E cfg (at_now a) (at_request a) (at_body a) l = ((r, ck), l')"
  shows "compared a r"
  using assms by (auto simp: console_login_def console_client_def login_allow_def recent_def compared_def reply_ok_def Let_def
      split: if_splits)

end
