(* ===== verification/Views.thy ===== *)
theory Views
  imports App_Contract "HOL-Library.Multiset"
begin

text \<open>
  Properties of the AppView: the snapshot of the viewer state against the queries per item,
  the pages of the timeline, the depth of a thread.
\<close>

section \<open>Steps that always return\<close>

text \<open>\<open>returns m Q\<close>: from every state \<open>m\<close> ends with a value, and the value satisfies \<open>Q\<close>.\<close>

definition returns :: "('s, 'a) go \<Rightarrow> ('a \<Rightarrow> bool) \<Rightarrow> bool" where
  "returns m Q \<longleftrightarrow> (\<forall>s. \<exists>x t. m s = (Inr x, t) \<and> Q x)"

abbreviation (input) "ends m \<equiv> returns m (\<lambda>x. True)"

named_theorems returns_intro \<open>steps that always return\<close>

lemma returnsE: "returns m Q \<Longrightarrow> (\<And>x t. m s = (Inr x, t) \<Longrightarrow> Q x \<Longrightarrow> thesis) \<Longrightarrow> thesis"
  unfolding returns_def by blast

lemma returns_ret [returns_intro]: "Q x \<Longrightarrow> returns (go_ret x) Q"
  by (simp add: returns_def go_ret_def)

lemma returns_bind:
  assumes "returns m R" and "\<And>x. R x \<Longrightarrow> returns (k x) Q"
  shows "returns (go_bind m k) Q"
  unfolding returns_def
proof
  fix s
  obtain x t where "m s = (Inr x, t)" "R x" by (rule returnsE [OF assms(1)])
  with assms(2) show "\<exists>y u. go_bind m k s = (Inr y, u) \<and> Q y" by (auto simp: returns_def go_bind_run)
qed

lemma returns_ends_bind [returns_intro]: "ends m \<Longrightarrow> (\<And>x. returns (k x) Q) \<Longrightarrow> returns (go_bind m k) Q"
  by (rule returns_bind)

lemma ends_steps [returns_intro]:
  "ends (go_try m)" "ends (scan_or z m)" "ends (time_now E)"
  by (auto simp: returns_def go_try_def scan_or_def time_now_def split: prod.split sum.split)

lemma returns_cases [returns_intro]:
  "returns m Q \<Longrightarrow> returns n Q \<Longrightarrow> returns (if b then m else n) Q"
  "returns m Q \<Longrightarrow> (\<And>x. returns (k x) Q) \<Longrightarrow> returns (case o1 of None \<Rightarrow> m | Some x \<Rightarrow> k x) Q"
  "(\<And>x. returns (l x) Q) \<Longrightarrow> (\<And>x. returns (k x) Q) \<Longrightarrow> returns (case s1 of Inl x \<Rightarrow> l x | Inr x \<Rightarrow> k x) Q"
  "(\<And>x y. returns (c x y) Q) \<Longrightarrow> returns (case p of (x, y) \<Rightarrow> c x y) Q"
  by (auto split: option.split sum.split prod.split)

lemma returns_collect: "(\<And>x. returns (f x) (list_all Q)) \<Longrightarrow> returns (go_collect f xs) (list_all Q)"
proof (induction xs)
  case (Cons x xs)
  then show ?case by (auto intro!: returns_ret returns_bind [of _ "list_all Q"])
qed (simp add: returns_ret)

lemma ends_profiles [returns_intro]: "ends (profileViewer E v sub)" "ends (profileBasic E cfg did v)"
  unfolding profileBasic_def profileRecord_def profileViewer_def hasFollow_def blockURI_def recordForSubject_def isMuted_def
  by (intro returns_intro TrueI)+

lemma ends_posts [returns_intro]: "ends (postView E cfg did rkey cid value v)"
  unfolding postView_def postViewer_def likeURI_def repostURI_def recordForSubject_def countMatches_def Let_def
  by (intro returns_intro TrueI)

section \<open>Threads\<close>

text \<open>The replies nest at most \<open>n\<close> deep.\<close>

fun thread_within :: "nat \<Rightarrow> json \<Rightarrow> bool" where
  "thread_within 0 v \<longleftrightarrow> member ''replies'' v = None"
| "thread_within (Suc n) v \<longleftrightarrow>
     (case member ''replies'' v of None \<Rightarrow> True | Some (JArr ts) \<Rightarrow> list_all (thread_within n) ts | Some x \<Rightarrow> x = jnull)"

lemma within_leaf: "thread_within n (notFoundPost uri)" "thread_within n (JObj [(''post'', pv)])"
  by (cases n; simp add: notFoundPost_def member_def)+

lemma within_replies:
  "thread_within (Suc n) (JObj [(''post'', pv), (''replies'', jnull)])"
  "list_all (thread_within n) ts \<Longrightarrow> thread_within (Suc n) (JObj [(''post'', pv), (''replies'', JArr ts)])"
  by (simp_all add: member_def)

lemma threadView_returns: "returns (threadView E cfg did v depth rkey) (thread_within depth)"
proof (induction depth arbitrary: rkey)
  case 0
  show ?case by (auto intro!: returns_intro simp: within_leaf simp del: thread_within.simps)
next
  case (Suc depth)
  have "returns (go_bind (threadView E cfg did v depth k) (\<lambda>t. go_ret [t])) (list_all (thread_within depth))" for k
    by (rule returns_bind [OF Suc]) (simp add: returns_ret)
  then have "returns (go_collect (\<lambda>k. go_bind (threadView E cfg did v depth k) (\<lambda>t. go_ret [t])) ks)
      (list_all (thread_within depth))" for ks
    by (rule returns_collect)
  then show ?case
    by (auto intro!: returns_intro returns_bind [of "go_collect f ks" for f ks] simp: within_leaf within_replies simp del: thread_within.simps)
qed

text \<open>C31: A thread ends: whatever the posts refer to, also when replies form a cycle or a post replies to
  itself, and whatever statement fails, \<open>threadView\<close> returns a value, leaves the tables as they
  are, and the replies in it are nested at most as deep as the depth it was given (five for
  \<open>getPostThread\<close>).\<close>

theorem thread_bounded:
  "\<exists>t u. threadView E cfg did v depth rkey s = (Inr t, u) \<and> db u = db s \<and> thread_within depth t"
proof -
  obtain t u where run: "threadView E cfg did v depth rkey s = (Inr t, u)" "thread_within depth t"
    by (rule returnsE [OF threadView_returns])
  have "safe (\<lambda>d. d = db s) (threadView E cfg did v depth rkey)" by (rule safe_threads)
  then have "db u = db s" using run(1) unfolding safe_def by (auto dest: preservesD)
  with run show ?thesis by blast
qed

section \<open>The snapshot and the queries\<close>

text \<open>
  What a snapshot of one collection needs to agree with the queries: no two records of the
  viewer refer to the same subject, and subjects are texts.
\<close>

definition once_each :: "'r env \<Rightarrow> did \<Rightarrow> string \<Rightarrow> string \<Rightarrow> database \<Rightarrow> bool" where
  "once_each E did collection path d \<longleftrightarrow>
     distinct (List.map_filter (extract_text E path) (records_in did collection d)) \<and>
     list_all (\<lambda>r. case json_extract E (rr_value r) path of SqlNumber x \<Rightarrow> False | _ \<Rightarrow> True) (records_in did collection d)"

lemma extract_agree:
  "(case json_extract E (rr_value r) path of SqlNumber x \<Rightarrow> False | _ \<Rightarrow> True) \<Longrightarrow>
     extract_is E path want r \<longleftrightarrow> extract_text E path r = Some want"
  by (auto simp: extract_is_def extract_text_def split: sql_value.splits)

abbreviation (input) "subjects_of E path rs \<equiv>
  List.map_filter (\<lambda>r. map_option (\<lambda>x. (rr_rkey r, x)) (extract_text E path r)) rs"

lemma map_filter_Cons: "List.map_filter f (x # xs) = (case f x of None \<Rightarrow> List.map_filter f xs | Some y \<Rightarrow> y # List.map_filter f xs)"
  by (simp add: List.map_filter_simps)

lemma snd_subjects: "map snd (subjects_of E path rs) = List.map_filter (extract_text E path) rs"
  by (induction rs) (auto simp: map_filter_Cons List.map_filter_simps split: option.split)

lemma set_texts: "x \<in> set (List.map_filter (extract_text E path) rs) \<longleftrightarrow> (\<exists>r \<in> set rs. extract_text E path r = Some x)"
  by (induction rs) (auto simp: map_filter_Cons List.map_filter_simps split: option.split)

lemma fold_fill: "fold (\<lambda>(rkey, x) m. m(x \<mapsto> prefix @ rkey)) rows m0 y =
    (case map_of (rev (map prod.swap rows)) y of None \<Rightarrow> m0 y | Some k \<Rightarrow> Some (prefix @ k))"
  by (induction rows arbitrary: m0) (auto simp: map_add_def split: option.split)

lemma find_subject:
  "distinct (map snd (subjects_of E path rs)) \<Longrightarrow> map_of (map prod.swap (subjects_of E path rs)) x =
     map_option rr_rkey (find (\<lambda>r. extract_text E path r = Some x) rs)"
  by (induction rs) (auto simp: map_filter_Cons List.map_filter_simps split: option.split)

lemma map_of_rev: "distinct (map fst xs) \<Longrightarrow> map_of (rev xs) = map_of xs"
  by (subst map_of_inject_set) (simp_all flip: rev_map)

lemma find_agree: "list_all (\<lambda>r. p r = q r) rs \<Longrightarrow> find p rs = find q rs"
  by (induction rs) auto

lemma fill_agrees:
  assumes "once_each E did col path d"
  shows "fill prefix (subjects_of E path (records_in did col d)) x =
    map_option (\<lambda>k. prefix @ k) (map_option rr_rkey (find (extract_is E path x) (records_in did col d)))"
proof -
  let ?rs = "records_in did col d"
  have dist: "distinct (map snd (subjects_of E path ?rs))" using assms by (simp add: once_each_def snd_subjects)
  then have "map_of (rev (map prod.swap (subjects_of E path ?rs))) x = map_of (map prod.swap (subjects_of E path ?rs)) x"
    by (subst map_of_rev) (use dist in \<open>simp_all add: o_def\<close>)
  also have "\<dots> = map_option rr_rkey (find (\<lambda>r. extract_text E path r = Some x) ?rs)"
    by (rule find_subject [OF dist])
  also have "find (\<lambda>r. extract_text E path r = Some x) ?rs = find (extract_is E path x) ?rs"
    by (rule find_agree) (use assms in \<open>auto simp: once_each_def list_all_iff extract_agree\<close>)
  finally show ?thesis by (simp add: fill_def fold_fill split: option.split)
qed

lemma fold_mark: "fold (\<lambda>x m. m(x := True)) xs m0 y \<longleftrightarrow> y \<in> set xs \<or> m0 y"
  by (induction xs arbitrary: m0) auto

lemma mark_iff: "mark xs y \<longleftrightarrow> y \<in> set xs"
  by (simp add: mark_def fold_mark)

lemma mark_agrees:
  assumes "list_all (\<lambda>r. case json_extract E (rr_value r) path of SqlNumber x \<Rightarrow> False | _ \<Rightarrow> True) (records_in did col d)"
  shows "mark (map snd (subjects_of E path (records_in did col d))) x \<longleftrightarrow>
    map_option rr_rkey (find (extract_is E path x) (records_in did col d)) \<noteq> None"
  using assms by (auto simp: mark_iff snd_subjects set_texts find_None_iff list_all_iff extract_agree)

text \<open>The runs without failures.\<close>

lemma calm_rows: "\<not> fault E (tick s) \<Longrightarrow> sql E (q_rows f) s = (Inr (f (db s)), s\<lparr>tick := Suc (tick s)\<rparr>)"
  by (simp add: sql_def q_rows_def Let_def)

lemma calm_scan: "\<not> fault E (tick s) \<Longrightarrow> scan_or z (sql E (q_rows f)) s = (Inr (f (db s)), s\<lparr>tick := Suc (tick s)\<rparr>)"
  by (simp add: scan_or_def calm_rows)

definition record_of :: "'r env \<Rightarrow> did \<Rightarrow> string \<Rightarrow> string \<Rightarrow> string \<Rightarrow> database \<Rightarrow> string option" where
  "record_of E did col path want d = map_option rr_rkey (find (extract_is E path want) (records_in did col d))"

lemma postViewer_run:
  assumes "\<And>n. \<not> fault E n" and "v \<noteq> []"
  shows "fst (postViewer E v uri s) = Inr (JObj
    (entry ''like'' (map_option JStr (map_option (\<lambda>k. ''at://'' @ v @ ''/app.bsky.feed.like/'' @ k) (record_of E v ''app.bsky.feed.like'' ''$.subject.uri'' uri (db s)))) @
     entry ''repost'' (map_option JStr (map_option (\<lambda>k. ''at://'' @ v @ ''/app.bsky.feed.repost/'' @ k) (record_of E v ''app.bsky.feed.repost'' ''$.subject.uri'' uri (db s))))))"
  using assms by (simp add: postViewer_def likeURI_def repostURI_def recordForSubject_def calm_scan go_bind_def go_ret_def
      record_of_def option.map_comp o_def)

lemma profileViewer_run:
  assumes "\<And>n. \<not> fault E n" and "v \<noteq> []"
  shows "fst (profileViewer E v did s) = Inr (JObj
    (entry ''following'' (flag (record_of E v ''app.bsky.graph.follow'' ''$.subject'' did (db s) \<noteq> None) (JStr (''at://'' @ did))) @
     entry ''blocking'' (map_option JStr (map_option (\<lambda>k. ''at://'' @ v @ ''/app.bsky.graph.block/'' @ k) (record_of E v ''app.bsky.graph.block'' ''$.subject'' did (db s)))) @
     entry ''muted'' (flag ((v, did) \<in> set (mutes (db s))) (jbool True))))"
  using assms by (simp add: profileViewer_def hasFollow_def blockURI_def isMuted_def recordForSubject_def calm_scan go_bind_def
      go_ret_def record_of_def option.map_comp o_def)

text \<open>What a user looking at his own rows expects of them.\<close>

definition viewer_once :: "'r env \<Rightarrow> did \<Rightarrow> database \<Rightarrow> bool" where
  "viewer_once E v d \<longleftrightarrow>
     once_each E v ''app.bsky.feed.like'' ''$.subject.uri'' d \<and> once_each E v ''app.bsky.feed.repost'' ''$.subject.uri'' d \<and>
     once_each E v ''app.bsky.graph.follow'' ''$.subject'' d \<and> once_each E v ''app.bsky.graph.block'' ''$.subject'' d"

lemma loadViewerState_run:
  assumes "\<And>n. \<not> fault E n" and "v \<noteq> []" and "viewer_once E v (db s)" and "loadViewerState E v s = (Inr vs, t)"
  shows "vs_likes vs x = map_option (\<lambda>k. ''at://'' @ v @ ''/app.bsky.feed.like/'' @ k) (record_of E v ''app.bsky.feed.like'' ''$.subject.uri'' x (db s))"
    and "vs_reposts vs x = map_option (\<lambda>k. ''at://'' @ v @ ''/app.bsky.feed.repost/'' @ k) (record_of E v ''app.bsky.feed.repost'' ''$.subject.uri'' x (db s))"
    and "vs_follows vs x \<longleftrightarrow> record_of E v ''app.bsky.graph.follow'' ''$.subject'' x (db s) \<noteq> None"
    and "vs_blocks vs x = map_option (\<lambda>k. ''at://'' @ v @ ''/app.bsky.graph.block/'' @ k) (record_of E v ''app.bsky.graph.block'' ''$.subject'' x (db s))"
    and "vs_mutes vs x \<longleftrightarrow> (v, x) \<in> set (mutes (db s))"
proof -
  have vs: "vs = \<lparr>
      vs_likes = fill (''at://'' @ v @ ''/app.bsky.feed.like/'') (subjects_of E ''$.subject.uri'' (records_in v ''app.bsky.feed.like'' (db s))),
      vs_reposts = fill (''at://'' @ v @ ''/app.bsky.feed.repost/'') (subjects_of E ''$.subject.uri'' (records_in v ''app.bsky.feed.repost'' (db s))),
      vs_follows = mark (map snd (subjects_of E ''$.subject'' (records_in v ''app.bsky.graph.follow'' (db s)))),
      vs_blocks = fill (''at://'' @ v @ ''/app.bsky.graph.block/'') (subjects_of E ''$.subject'' (records_in v ''app.bsky.graph.block'' (db s))),
      vs_mutes = mark (map snd (filter (\<lambda>r. fst r = v) (mutes (db s))))\<rparr>"
    using assms(1,2,4) by (simp add: loadViewerState_def subject_rows_def muted_subjects_def calm_scan go_bind_def go_ret_def)
  note once = assms(3) [unfolded viewer_once_def]
  show "vs_likes vs x = map_option (\<lambda>k. ''at://'' @ v @ ''/app.bsky.feed.like/'' @ k) (record_of E v ''app.bsky.feed.like'' ''$.subject.uri'' x (db s))"
    "vs_reposts vs x = map_option (\<lambda>k. ''at://'' @ v @ ''/app.bsky.feed.repost/'' @ k) (record_of E v ''app.bsky.feed.repost'' ''$.subject.uri'' x (db s))"
    "vs_blocks vs x = map_option (\<lambda>k. ''at://'' @ v @ ''/app.bsky.graph.block/'' @ k) (record_of E v ''app.bsky.graph.block'' ''$.subject'' x (db s))"
    using once by (simp_all add: vs fill_agrees record_of_def)
  show "vs_follows vs x \<longleftrightarrow> record_of E v ''app.bsky.graph.follow'' ''$.subject'' x (db s) \<noteq> None"
    unfolding vs viewer_state.simps record_of_def by (rule mark_agrees) (use once in \<open>simp add: once_each_def\<close>)
  show "vs_mutes vs x \<longleftrightarrow> (v, x) \<in> set (mutes (db s))"
    by (simp add: vs mark_iff image_iff Bex_def)
qed

lemma inject_post:
  assumes "string_member ''uri'' post = uri" and "uri \<noteq> []" and "member ''viewer'' post = None"
  shows "injectPostViewer vs post = set_member ''viewer'' (JObj (entry ''like'' (map_option JStr (vs_likes vs uri)) @
    entry ''repost'' (map_option JStr (vs_reposts vs uri)))) post"
  using assms by (cases "vs_likes vs uri"; cases "vs_reposts vs uri")
    (simp_all add: injectPostViewer_def mergeViewer_def put_some_def entry_def set_member_def [of "''like''"] set_member_def [of "''repost''"])

lemma inject_profile:
  assumes "string_member ''did'' profile = did" and "did \<noteq> []" and "member ''viewer'' profile = None"
  shows "injectProfileViewer vs profile = set_member ''viewer''
    (JObj (entry ''following'' (flag (vs_follows vs did) (JStr (''at://'' @ did))) @
      entry ''blocking'' (map_option JStr (vs_blocks vs did)) @ entry ''muted'' (flag (vs_mutes vs did) (jbool True)))) profile"
  using assms by (cases "vs_follows vs did"; cases "vs_blocks vs did"; cases "vs_mutes vs did")
    (simp_all add: injectProfileViewer_def mergeViewer_def put_some_def entry_def flag_def set_member_def [of "''following''"]
      set_member_def [of "''blocking''"] set_member_def [of "''muted''"])

text \<open>C30: The snapshot and the queries agree: when no statement fails and the viewer has at most one like,
  repost, follow and block per subject, the viewer state that \<open>loadViewerState\<close> and
  \<open>injectPostViewer\<close> or \<open>injectProfileViewer\<close> put into a post or a profile of the upstream is the
  one that \<open>postViewer\<close> and \<open>profileViewer\<close> query for a local one.\<close>

theorem snapshot_agrees:
  assumes "\<And>n. \<not> fault E n" and "v \<noteq> []" and "viewer_once E v (db s)"
    and "loadViewerState E v s = (Inr vs, t)" and "db s' = db s"
  shows "(uri \<noteq> [] \<longrightarrow> string_member ''uri'' post = uri \<longrightarrow> member ''viewer'' post = None \<longrightarrow>
      (\<exists>w. fst (postViewer E v uri s') = Inr w \<and> injectPostViewer vs post = set_member ''viewer'' w post)) \<and>
    (did \<noteq> [] \<longrightarrow> string_member ''did'' profile = did \<longrightarrow> member ''viewer'' profile = None \<longrightarrow>
      (\<exists>w. fst (profileViewer E v did s') = Inr w \<and> injectProfileViewer vs profile = set_member ''viewer'' w profile))"
proof (intro conjI impI)
  note snapshot = loadViewerState_run [OF assms(1-4)]
  assume "uri \<noteq> []" "string_member ''uri'' post = uri" "member ''viewer'' post = None"
  note inject = inject_post [OF this(2,1,3), of vs]
  show "\<exists>w. fst (postViewer E v uri s') = Inr w \<and> injectPostViewer vs post = set_member ''viewer'' w post"
    unfolding inject snapshot postViewer_run [OF assms(1,2)] assms(5) by (intro exI conjI) (rule refl)+
next
  note snapshot = loadViewerState_run [OF assms(1-4)]
  assume "did \<noteq> []" "string_member ''did'' profile = did" "member ''viewer'' profile = None"
  note inject = inject_profile [OF this(2,1,3), of vs]
  show "\<exists>w. fst (profileViewer E v did s') = Inr w \<and> injectProfileViewer vs profile = set_member ''viewer'' w profile"
    unfolding inject snapshot profileViewer_run [OF assms(1,2)] assms(5) by (intro exI conjI) (rule refl)+
qed

section \<open>The pages of the timeline\<close>

lemma ends_collect [returns_intro]: "(\<And>x. ends (f x)) \<Longrightarrow> ends (go_collect f xs)"
  by (induction xs) (auto intro!: returns_intro)

lemma ends_timeline_items: "ends (timeline_items E cfg did)"
  unfolding timeline_items_def buildFeed_def feed_item_def followedDIDs_def remoteAuthorFeed_def upstream_or_def
    loadViewerState_def subject_rows_def muted_subjects_def
  by (intro returns_intro TrueI)

text \<open>What the timeline of a state holds, and a request for a page of it.\<close>

definition timeline_rows :: "'r env \<Rightarrow> config \<Rightarrow> did \<Rightarrow> 'r pds \<Rightarrow> json list" where
  "timeline_rows E cfg did s =
     (case fst (timeline_items E cfg did s) of Inr (Some its) \<Rightarrow> stable_desc postCreatedAt its | _ \<Rightarrow> [])"

definition timeline_request ::
  "'r env \<Rightarrow> config \<Rightarrow> did \<Rightarrow> 'r pds \<Rightarrow> string \<Rightarrow> nat \<Rightarrow> go_error + (json list \<times> string option)" where
  "timeline_request E cfg did s cursor limit =
     (case fst (timeline E cfg did cursor limit s) of Inl e \<Rightarrow> Inl e | Inr (page, next) \<Rightarrow> Inr (slice_items page, next))"

definition timeline_ok :: "'r env \<Rightarrow> config \<Rightarrow> did \<Rightarrow> 'r pds \<Rightarrow> bool" where
  "timeline_ok E cfg did s \<longleftrightarrow>
     distinct (map postCreatedAt (timeline_rows E cfg did s)) \<and> (\<forall>it \<in> set (timeline_rows E cfg did s). postCreatedAt it \<noteq> [])"

lemma cut_page_take: "cut_page key n (take (Suc n) xs) = cut_page key n xs"
  by (auto simp: cut_page_def min_def)

lemma timeline_request_page: "timeline_request E cfg did s c n = timeline_page c n (timeline_rows E cfg did s)"
proof -
  obtain its u where run: "timeline_items E cfg did s = (Inr its, u)" by (rule returnsE [OF ends_timeline_items])
  show ?thesis
  proof (cases its)
    case None
    with run show ?thesis
      by (simp add: timeline_request_def timeline_def timeline_rows_def go_bind_run go_ret_def slice_items_def
          timeline_page_def cut_page_def)
  next
    case (Some xs)
    with run show ?thesis
      by (cases "timeline_page c n (stable_desc postCreatedAt xs)")
        (auto simp: timeline_request_def timeline_def timeline_rows_def go_bind_def go_ret_def go_of_def slice_items_def
          split: prod.split)
  qed
qed

lemma stable_desc_order: "stable_desc key xs = order_desc key (rev xs)"
  by (simp add: stable_desc_def order_desc_def)

lemma set_stable_desc: "set (stable_desc key xs) = set xs" "length (stable_desc key xs) = length xs"
  by (simp_all add: stable_desc_def)

lemma stable_desc_sorted: "distinct (map key xs) \<Longrightarrow> sorted_wrt (\<lambda>x y. key y < key x) (stable_desc key xs)"
  unfolding stable_desc_order by (rule order_desc_sorted) (simp add: tbl_keys_ok_def flip: rev_map)

lemma rows_sorted:
  assumes "timeline_ok E cfg did s"
  shows "sorted_wrt (\<lambda>x y. postCreatedAt y < postCreatedAt x) (timeline_rows E cfg did s)"
proof (cases "fst (timeline_items E cfg did s)")
  case (Inr its)
  show ?thesis
  proof (cases its)
    case (Some xs)
    have "mset (map postCreatedAt (stable_desc postCreatedAt xs)) = mset (map postCreatedAt xs)"
      by (simp add: stable_desc_def)
    moreover have "distinct (map postCreatedAt (stable_desc postCreatedAt xs))"
      using assms Inr Some by (simp add: timeline_ok_def timeline_rows_def)
    ultimately have "distinct (map postCreatedAt xs)" by (metis mset_eq_imp_distinct_iff)
    then show ?thesis using Inr Some by (simp add: timeline_rows_def stable_desc_sorted)
  qed (use Inr in \<open>simp add: timeline_rows_def\<close>)
qed (simp add: timeline_rows_def)

interpretation timeline: keyset_pager postCreatedAt "\<lambda>a b. b < a" "timeline_rows E cfg did"
  "timeline_request E cfg did" "timeline_ok E cfg did" for E cfg did
  by unfold_locales (auto simp: rows_sorted timeline_ok_def timeline_request_page timeline_page_def cut_page_take)

text \<open>C32: The pages of the timeline: when the posts of the timeline have pairwise distinct, non-empty
  creation times, the pages a client reads by passing every cursor on, with any positive limit,
  are together the posts of the timeline, newest first, each once, and the reading ends.\<close>

theorem timeline_pages:
  assumes "timeline_ok E cfg did s" and "0 < limit" and "length (timeline_rows E cfg did s) < fuel"
  shows "walk_pages (\<lambda>c. timeline_request E cfg did s c limit) fuel [] = Inr (timeline_rows E cfg did s) \<and>
    sorted_wrt (\<lambda>x y. postCreatedAt y < postCreatedAt x) (timeline_rows E cfg did s)"
  using timeline.walk_complete [of E cfg did s limit fuel] assms rows_sorted by blast

text \<open>
  Without distinct times a page cut between posts of the same time loses the rest of them: the
  next page starts strictly before the time of the last post shown.
\<close>

lemma timeline_ties:
  assumes "cut_page postCreatedAt n its = Inr (page, Some c)" and "c \<noteq> []"
    and "it \<in> set (drop n its)" and "postCreatedAt it = c"
  shows "timeline_page c n its = Inr (later, next) \<Longrightarrow> it \<notin> set later"
  using assms by (auto simp: timeline_page_def cut_page_def split: if_splits dest: in_set_takeD)

section \<open>Runs of a feed\<close>

lemma createdAt_inject: "postCreatedAt (inject_item vs it) = postCreatedAt it"
proof (cases "member ''post'' it")
  case (Some p)
  show ?thesis
  proof (cases p)
    case (JObj m)
    obtain w where "it = JObj w" using Some by (auto simp: member_def split: json.splits)
    then have post: "member ''post'' (set_member ''post'' x it) = Some x" for x
      by (simp add: member_def set_member_def AList.update_conv')
    have "member ''record'' (injectPostViewer vs p) = member ''record'' p"
      by (simp add: injectPostViewer_def Let_def set_member_def member_def JObj AList.update_conv')
    with Some JObj post show ?thesis by (simp add: inject_item_def postCreatedAt_def)
  qed (use Some in \<open>simp_all add: inject_item_def\<close>)
qed (simp add: inject_item_def)

lemma profileBasic_local:
  assumes "\<not> fault E (tick s)" and "account_of did (db s) = Some a"
  shows "\<exists>x u. profileBasic E cfg did v s = (Inr (Some x), u)"
proof -
  define rest where "rest = (\<lambda>a :: account. go_bind (profileRecord E cfg did) (\<lambda>p.
      go_bind (if v = [] then go_ret [] else go_bind (profileViewer E v did) (\<lambda>v. go_ret [(''viewer'', v)])) (\<lambda>viewer.
      go_ret (Some (JObj ([(''did'', JStr did), (''handle'', JStr (acc_handle a))] @
        text_entry ''displayName'' (pf_display_name p) @ text_entry ''avatar'' (pf_avatar p) @ viewer))))))"
  have "returns (rest a) (\<lambda>x. \<exists>y. x = Some y)"
    unfolding rest_def profileRecord_def by (intro returns_intro TrueI exI) (rule refl)
  then obtain x u where "rest a (s\<lparr>tick := Suc (tick s)\<rparr>) = (Inr x, u)" "\<exists>y. x = Some y" by (rule returnsE)
  moreover have "profileBasic E cfg did v s = rest a (s\<lparr>tick := Suc (tick s)\<rparr>)"
    using assms by (simp add: profileBasic_def rest_def go_bind_def go_try_def sql_def q_row_def Let_def)
  ultimately show ?thesis by auto
qed

lemma post_record_createdAt:
  "json_read E value = Inr (JObj m) \<Longrightarrow> string_member ''createdAt'' (post_record E value) = string_member ''createdAt'' (JObj m)"
  by (simp add: post_record_def read_map_def is_map_def string_member_def member_def set_member_def AList.update_conv' Let_def)

lemma feed_item_run:
  assumes "\<And>n. \<not> fault E n" and "account_of did (db s) = Some a" and "json_read E (li_value it) = Inr (JObj m)"
  shows "\<exists>x u. feed_item E cfg did v [] it s = (Inr [x], u) \<and> db u = db s \<and> postCreatedAt x = string_member ''createdAt'' (JObj m)"
proof -
  obtain y w where basic: "profileBasic E cfg did v s = (Inr (Some y), w)" using profileBasic_local assms(1,2) by blast
  let ?post = "postView E cfg did (li_rkey it) (li_cid it) (li_value it) v"
  have "\<exists>p u. ?post s = (Inr (Some p), u) \<and> member ''record'' p = Some (post_record E (li_value it))"
  proof -
    show ?thesis using basic assms(1)
      by (auto simp: postView_def go_bind_def time_now_def countMatches_def calm_scan postViewer_def likeURI_def repostURI_def
          recordForSubject_def go_ret_def Let_def member_def split: prod.split sum.split)
  qed
  then obtain p u where post: "?post s = (Inr (Some p), u)" "member ''record'' p = Some (post_record E (li_value it))" by blast
  have "safe (\<lambda>d. d = db s) ?post" by (rule safe_feeds)
  then have "db u = db s" using post(1) unfolding safe_def by (auto dest: preservesD)
  moreover have "feed_item E cfg did v [] it s = (Inr [JObj [(''post'', p)]], u)"
    using post(1) by (simp add: feed_item_def postMatchesFilter_def go_bind_def go_ret_def some_items_def)
  moreover have "postCreatedAt (JObj [(''post'', p)]) = string_member ''createdAt'' (JObj m)"
    using post(2) post_record_createdAt [OF assms(3)] by (simp add: postCreatedAt_def member_def)
  ultimately show ?thesis by blast
qed

end
