(* ===== verification/Views_Runs.thy ===== *)
theory Views_Runs
  imports Views Console_Login Demo
begin

text \<open>
  The properties of the AppView and of the console applied on the demonstration world: an
  account with two posts and a like, and six logins of one client.
\<close>

section \<open>The login\<close>

definition home_config :: config where
  "home_config = (FromEnv Map.empty)\<lparr>AppviewProxyURL := [], AdminToken := ''t''\<rparr>"

definition from_h :: request where
  "from_h = \<lparr>rq_method = ''POST'', rq_host = ''h'', rq_path = ''/'', rq_remote = ''1.2.3.4:5'',
     rq_header = (\<lambda>k. if k = ''X-Forwarded-For'' then ''h'' else []), rq_query = (\<lambda>k. []), rq_raw_query = [],
     rq_cookie = (\<lambda>k. None)\<rparr>"

definition guess :: "int \<Rightarrow> attempt" where
  "guess t = \<lparr>at_now = t, at_request = from_h, at_body = Inr ''x''\<rparr>"

definition six :: "attempt list" where
  "six = [guess 0, guess 0, guess 0, guess 0, guess 0, guess 1, guess 15000000000]"

lemma six_guesses: "guesses fine home_config loginLimiter six ''h'' = [0, 0, 0, 0, 0, 15000000000]"
  by (simp add: six_def guess_def from_h_def home_config_def console_login_def console_client_def login_allow_def recent_def
      compared_def loginLimiter_def new_login_limiter_def tokenEqual_def reply_ok_def Let_def)

theorem console_guesses_bounded_witness:
  "guesses fine home_config loginLimiter six ''h'' ! (0 + 5) - guesses fine home_config loginLimiter six ''h'' ! 0 \<ge> 15 * 1000000000"
proof (rule console_guesses_bounded [of six _ fine home_config "''h''"])
  show "sorted (map at_now six)" by (simp add: six_def guess_def)
  show "guesses fine home_config loginLimiter six ''h'' = guesses fine home_config loginLimiter six ''h''" by (rule refl)
  show "0 + 5 < length (guesses fine home_config loginLimiter six ''h'')" by (simp add: six_guesses)
qed

section \<open>The AppView\<close>

definition view_state :: "ref_repo pds" where
  "view_state = demo_state\<lparr>db := (db demo_state)\<lparr>repo_records :=
     [\<lparr>rr_did = ''did:a'', rr_collection = ''app.bsky.feed.post'', rr_rkey = ''k1'', rr_cid = ''cx'', rr_value = ''x''\<rparr>,
      \<lparr>rr_did = ''did:a'', rr_collection = ''app.bsky.feed.post'', rr_rkey = ''k2'', rr_cid = ''cy'', rr_value = ''y''\<rparr>,
      \<lparr>rr_did = ''did:a'', rr_collection = ''app.bsky.feed.like'', rr_rkey = ''k1'', rr_cid = ''cz'', rr_value = ''at://p''\<rparr>],
     mutes := [(''did:a'', ''did:b'')]\<rparr>\<rparr>"

definition liked :: json where
  "liked = JObj [(''uri'', JStr ''at://p'')]"

definition muted_profile :: json where
  "muted_profile = JObj [(''did'', JStr ''did:b'')]"

lemma fine_json [simp]:
  "json_extract fine b path = (if b = [] then SqlNull else SqlText b)"
  "json_read fine b = Inr (if has_prefix b ''['' then JArr [JStr b] else JObj [(''subject'', JStr b), (''createdAt'', JStr b)])"
  by (simp_all add: fine_def demo_env_def)

lemma view_once: "viewer_once fine ''did:a'' (db view_state)"
  by (simp add: viewer_once_def once_each_def view_state_def demo_state_def records_in_def extract_text_def map_filter_Cons
      List.map_filter_simps)

theorem snapshot_agrees_witness:
  "\<exists>vs t. loadViewerState fine ''did:a'' view_state = (Inr vs, t) \<and>
    (\<exists>w. fst (postViewer fine ''did:a'' ''at://p'' view_state) = Inr w \<and> injectPostViewer vs liked = set_member ''viewer'' w liked) \<and>
    (\<exists>w. fst (profileViewer fine ''did:a'' ''did:b'' view_state) = Inr w \<and>
       injectProfileViewer vs muted_profile = set_member ''viewer'' w muted_profile)"
proof -
  obtain vs t where load: "loadViewerState fine ''did:a'' view_state = (Inr vs, t)"
    by (simp add: loadViewerState_def subject_rows_def muted_subjects_def calm_scan go_bind_def go_ret_def)
  have args: "string_member ''uri'' liked = ''at://p''" "member ''viewer'' liked = None"
    "string_member ''did'' muted_profile = ''did:b''" "member ''viewer'' muted_profile = None"
    by (simp_all add: liked_def muted_profile_def string_member_def member_def)
  have calm: "\<not> fault fine n" for n by simp
  have some: "''did:a'' \<noteq> []" "''at://p'' \<noteq> []" "''did:b'' \<noteq> []" by simp_all
  note agrees = snapshot_agrees [OF calm some(1) view_once load refl, of "''at://p''" liked "''did:b''" muted_profile]
  show ?thesis
    using load agrees [THEN conjunct1, rule_format, OF some(2) args(1,2)] agrees [THEN conjunct2, rule_format, OF some(3) args(3,4)]
    by blast
qed

lemma view_items:
  "\<exists>u. ListRecordsDesc fine ''did:a'' postCollection [] 50 view_state =
    (Inr ([\<lparr>li_rkey = ''k2'', li_cid = ''cy'', li_value = ''y''\<rparr>, \<lparr>li_rkey = ''k1'', li_cid = ''cx'', li_value = ''x''\<rparr>], None), u) \<and>
    db u = db view_state"
  by (simp add: ListRecordsDesc_def records_in_def view_state_def demo_state_def postCollection_def order_desc_def calm_rows
      go_bind_def go_of_def list_item_of_def demo_cast_def cut_page_def)

lemma view_feed: "\<exists>u x y. buildFeed fine home_config ''did:a'' [] 50 ''did:a'' [] view_state = (Inr (Some [y, x], None), u) \<and>
    postCreatedAt y = ''y'' \<and> postCreatedAt x = ''x'' \<and> db u = db view_state"
proof -
  obtain u where items: "ListRecordsDesc fine ''did:a'' postCollection [] 50 view_state =
      (Inr ([\<lparr>li_rkey = ''k2'', li_cid = ''cy'', li_value = ''y''\<rparr>, \<lparr>li_rkey = ''k1'', li_cid = ''cx'', li_value = ''x''\<rparr>], None), u)"
    "db u = db view_state"
    using view_items by blast
  have acc: "account_of ''did:a'' (db s) = Some (demo_account ''did:a'' ''a.ex'')" if "db s = db view_state" for s
    using that by (simp add: view_state_def demo_state_def account_of_def find_account_def demo_account_def)
  have run: "\<exists>x t. feed_item fine home_config ''did:a'' ''did:a'' [] it s = (Inr [x], t) \<and> db t = db s \<and> postCreatedAt x = li_value it"
    if "db s = db view_state" "\<not> has_prefix (li_value it) ''[''" for s it
    using feed_item_run [of fine "''did:a''" s _ it "[(''subject'', JStr (li_value it)), (''createdAt'', JStr (li_value it))]" home_config "''did:a''"]
      acc [OF that(1)] that(2) by (simp add: string_member_def member_def)
  obtain y v where y: "feed_item fine home_config ''did:a'' ''did:a'' [] \<lparr>li_rkey = ''k2'', li_cid = ''cy'', li_value = ''y''\<rparr> u = (Inr [y], v)"
    "db v = db u" "postCreatedAt y = ''y''"
    using run [OF items(2), of "\<lparr>li_rkey = ''k2'', li_cid = ''cy'', li_value = ''y''\<rparr>"] by (auto simp: has_prefix_def)
  obtain x w where x: "feed_item fine home_config ''did:a'' ''did:a'' [] \<lparr>li_rkey = ''k1'', li_cid = ''cx'', li_value = ''x''\<rparr> v = (Inr [x], w)"
    "db w = db v" "postCreatedAt x = ''x''"
    using run [of v "\<lparr>li_rkey = ''k1'', li_cid = ''cx'', li_value = ''x''\<rparr>"] y items(2) by (auto simp: has_prefix_def)
  show ?thesis using items x y by (simp add: buildFeed_def go_bind_def go_try_def go_ret_def)
qed

lemma view_rows: "map postCreatedAt (timeline_rows fine home_config ''did:a'' view_state) = [''y'', ''x'']"
proof -
  obtain u x y where feed: "buildFeed fine home_config ''did:a'' [] 50 ''did:a'' [] view_state = (Inr (Some [y, x], None), u)"
    "postCreatedAt y = ''y''" "postCreatedAt x = ''x''" "db u = db view_state"
    using view_feed by blast
  have follows: "followedDIDs fine ''did:a'' u = (Inr [], u\<lparr>tick := Suc (tick u)\<rparr>)"
    using feed(4) by (simp add: followedDIDs_def calm_scan records_in_def view_state_def)
  have load: "\<exists>vs t. loadViewerState fine ''did:a'' s = (Inr vs, t)" for s
    by (simp add: loadViewerState_def subject_rows_def muted_subjects_def calm_scan go_bind_def go_ret_def)
  obtain vs t where vs: "loadViewerState fine ''did:a'' (u\<lparr>tick := Suc (tick u)\<rparr>) = (Inr vs, t)" using load by blast
  have "fst (timeline_items fine home_config ''did:a'' view_state) = Inr (Some [inject_item vs y, inject_item vs x])"
    by (simp add: timeline_items_def go_bind_def feed(1) follows vs go_ret_def injectFeed_def slice_append_def)
  then show ?thesis
    using feed(2,3) by (simp add: timeline_rows_def stable_desc_def sort_key_def createdAt_inject)
qed

theorem timeline_pages_witness:
  "walk_pages (\<lambda>c. timeline_request fine home_config ''did:a'' view_state c 1) 3 [] =
      Inr (timeline_rows fine home_config ''did:a'' view_state) \<and>
    sorted_wrt (\<lambda>x y. postCreatedAt y < postCreatedAt x) (timeline_rows fine home_config ''did:a'' view_state) \<and>
    map postCreatedAt (timeline_rows fine home_config ''did:a'' view_state) = [''y'', ''x'']"
proof -
  let ?rows = "timeline_rows fine home_config ''did:a'' view_state"
  have "postCreatedAt it \<noteq> []" if "it \<in> set ?rows" for it
  proof -
    from that have "postCreatedAt it \<in> set (map postCreatedAt ?rows)" by simp
    then show ?thesis unfolding view_rows by auto
  qed
  then have ok: "timeline_ok fine home_config ''did:a'' view_state" by (simp add: timeline_ok_def view_rows)
  have "length (map postCreatedAt ?rows) = 2" by (simp add: view_rows)
  then have "length ?rows < 3" by simp
  with ok have "walk_pages (\<lambda>c. timeline_request fine home_config ''did:a'' view_state c 1) 3 [] = Inr ?rows \<and>
      sorted_wrt (\<lambda>x y. postCreatedAt y < postCreatedAt x) ?rows"
    by (intro timeline_pages) simp_all
  with view_rows show ?thesis by blast
qed

end
