(* ===== verification/Supervisor.thy ===== *)
theory Supervisor
  imports Main
begin

text \<open>
  The supervisor of \<open>internal/tunnel/tunnel.go\<close>: the goroutine of \<open>run\<close>, the calls \<open>Start\<close>,
  \<open>Stop\<close> and \<open>Restart\<close> of other goroutines, the child processes, and the configuration file, as
  interleaved steps. A section of the code under the mutex is one step. A process is a
  number; \<open>su_read\<close> is the version of the configuration it has read, once it has.
\<close>

section \<open>States and steps\<close>

text \<open>
  Where the goroutine is: not started; at the head of its loop; with the generation it has read,
  before \<open>Ready\<close>; with a process started and not yet stored in \<open>cmd\<close>; in \<open>cmd.Wait\<close>; after
  it; with \<open>cmd\<close> cleared and the comparison of generations made; in \<open>wait\<close>; and returned, with
  \<open>done\<close> closed.
\<close>

datatype su_pc =
    Idle | Top | Checking nat | Spawned nat nat | Waits nat nat | Exited nat nat | Cleared bool | Backoff | Ended

record supervisor =
  su_pc :: su_pc
  su_generation :: nat
  su_cmd :: "nat option"
  su_running :: bool
  su_canceled :: bool
  su_config :: nat
  su_next :: nat
  su_live :: "nat set"
  su_told :: "nat set"
  su_read :: "nat \<Rightarrow> nat option"

definition new_supervisor :: supervisor where
  "new_supervisor = \<lparr>su_pc = Idle, su_generation = 0, su_cmd = None, su_running = False, su_canceled = False,
     su_config = 0, su_next = 0, su_live = {}, su_told = {}, su_read = Map.empty\<rparr>"

text \<open>
  The goroutine. \<open>Ready\<close> and \<open>cmd.Start\<close> may fail; \<open>select\<close> in \<open>wait\<close> takes either branch when
  both are possible.
\<close>

inductive su_run :: "supervisor \<Rightarrow> supervisor \<Rightarrow> bool" where
  run_ends: "su_pc s = Top \<Longrightarrow> su_canceled s \<Longrightarrow> su_run s (s\<lparr>su_pc := Ended\<rparr>)"
| run_generation: "su_pc s = Top \<Longrightarrow> \<not> su_canceled s \<Longrightarrow> su_run s (s\<lparr>su_pc := Checking (su_generation s)\<rparr>)"
| run_not_started: "su_pc s = Checking g \<Longrightarrow> su_run s (s\<lparr>su_pc := Backoff\<rparr>)"
| run_starts: "su_pc s = Checking g \<Longrightarrow>
    su_run s (s\<lparr>su_pc := Spawned g (su_next s), su_live := insert (su_next s) (su_live s), su_next := Suc (su_next s)\<rparr>)"
| run_stores: "su_pc s = Spawned g p \<Longrightarrow> su_run s (s\<lparr>su_pc := Waits g p, su_cmd := Some p, su_running := True\<rparr>)"
| run_waited: "su_pc s = Waits g p \<Longrightarrow> p \<notin> su_live s \<Longrightarrow> su_run s (s\<lparr>su_pc := Exited g p\<rparr>)"
| run_clears: "su_pc s = Exited g p \<Longrightarrow>
    su_run s (s\<lparr>su_pc := Cleared (su_generation s \<noteq> g), su_cmd := None, su_running := False\<rparr>)"
| run_canceled: "su_pc s = Cleared c \<Longrightarrow> su_canceled s \<Longrightarrow> su_run s (s\<lparr>su_pc := Ended\<rparr>)"
| run_changed: "su_pc s = Cleared True \<Longrightarrow> \<not> su_canceled s \<Longrightarrow> su_run s (s\<lparr>su_pc := Top\<rparr>)"
| run_exited: "su_pc s = Cleared False \<Longrightarrow> \<not> su_canceled s \<Longrightarrow> su_run s (s\<lparr>su_pc := Backoff\<rparr>)"
| run_wait_canceled: "su_pc s = Backoff \<Longrightarrow> su_canceled s \<Longrightarrow> su_run s (s\<lparr>su_pc := Ended\<rparr>)"
| run_wait_over: "su_pc s = Backoff \<Longrightarrow> su_run s (s\<lparr>su_pc := Top\<rparr>)"

text \<open>\<open>Start\<close>: the second call finds \<open>m.cancel\<close> set and returns.\<close>

definition su_Start :: "supervisor \<Rightarrow> supervisor" where
  "su_Start s = (if su_pc s = Idle then s\<lparr>su_pc := Top\<rparr> else s)"

text \<open>\<open>signal\<close> with SIGTERM asks the process in \<open>cmd\<close> to end; with SIGKILL it is gone.\<close>

definition su_terminate :: "supervisor \<Rightarrow> supervisor" where
  "su_terminate s = (case su_cmd s of None \<Rightarrow> s | Some p \<Rightarrow> s\<lparr>su_told := insert p (su_told s)\<rparr>)"

definition su_kill :: "supervisor \<Rightarrow> supervisor" where
  "su_kill s = (case su_cmd s of None \<Rightarrow> s | Some p \<Rightarrow> s\<lparr>su_live := su_live s - {p}\<rparr>)"

text \<open>The first half of \<open>Restart\<close>, and of \<open>Stop\<close>; the second half is \<open>signal\<close>.\<close>

definition su_bump :: "supervisor \<Rightarrow> supervisor" where
  "su_bump s = s\<lparr>su_generation := Suc (su_generation s)\<rparr>"

definition su_cancel :: "supervisor \<Rightarrow> supervisor" where
  "su_cancel s = (if su_pc s = Idle then s else s\<lparr>su_canceled := True\<rparr>)"

text \<open>\<open>Provision\<close> replaces the configuration; a process reads it once and may end at any time.\<close>

definition su_provision :: "supervisor \<Rightarrow> supervisor" where
  "su_provision s = s\<lparr>su_config := Suc (su_config s)\<rparr>"

inductive su_other :: "supervisor \<Rightarrow> supervisor \<Rightarrow> bool" where
  other_start: "su_other s (su_Start s)"
| other_bump: "su_other s (su_bump s)"
| other_terminate: "su_other s (su_terminate s)"
| other_kill: "su_other s (su_kill s)"
| other_cancel: "su_other s (su_cancel s)"
| other_reads: "p \<in> su_live s \<Longrightarrow> su_read s p = None \<Longrightarrow> su_other s (s\<lparr>su_read := (su_read s)(p \<mapsto> su_config s)\<rparr>)"
| other_dies: "p \<in> su_live s \<Longrightarrow> su_other s (s\<lparr>su_live := su_live s - {p}\<rparr>)"

inductive su_step :: "supervisor \<Rightarrow> supervisor \<Rightarrow> bool" where
  step_run: "su_run s t \<Longrightarrow> su_step s t"
| step_other: "su_other s t \<Longrightarrow> su_step s t"

text \<open>Runs in which the configuration stays, and all runs.\<close>

definition su_steps :: "supervisor \<Rightarrow> supervisor \<Rightarrow> bool" where
  "su_steps = su_step\<^sup>*\<^sup>*"

inductive su_reachable :: "supervisor \<Rightarrow> bool" where
  reach_new: "su_reachable new_supervisor"
| reach_step: "su_reachable s \<Longrightarrow> su_step s t \<Longrightarrow> su_reachable t"
| reach_provision: "su_reachable s \<Longrightarrow> su_reachable (su_provision s)"

lemmas su_defs = su_Start_def su_terminate_def su_kill_def su_bump_def su_cancel_def su_provision_def

section \<open>The invariant\<close>

text \<open>
  A live process is the one the goroutine has just started or waits for; \<open>cmd\<close> and \<open>running\<close>
  are set exactly while it waits, up to their reset; numbers of processes to come are unused.
\<close>

definition su_ok :: "supervisor \<Rightarrow> bool" where
  "su_ok s \<longleftrightarrow>
     su_running s = (su_cmd s \<noteq> None) \<and> (su_pc s = Idle \<longrightarrow> \<not> su_canceled s) \<and>
     (\<forall>p \<in> su_told s. p < su_next s) \<and> (\<forall>p. su_read s p \<noteq> None \<longrightarrow> p < su_next s) \<and>
     (case su_pc s of
        Spawned g p \<Rightarrow> su_cmd s = None \<and> su_live s \<subseteq> {p} \<and> p < su_next s
      | Waits g p \<Rightarrow> su_cmd s = Some p \<and> su_live s \<subseteq> {p} \<and> p < su_next s
      | Exited g p \<Rightarrow> su_cmd s = Some p \<and> su_live s = {} \<and> p < su_next s
      | _ \<Rightarrow> su_cmd s = None \<and> su_live s = {})"

lemma su_ok_new: "su_ok new_supervisor"
  by (simp add: su_ok_def new_supervisor_def)

lemma su_ok_run: "su_run s t \<Longrightarrow> su_ok s \<Longrightarrow> su_ok t"
  by (induction rule: su_run.induct) (auto simp: su_ok_def less_Suc_eq)

lemma su_ok_other: "su_other s t \<Longrightarrow> su_ok s \<Longrightarrow> su_ok t"
  by (induction rule: su_other.induct) (auto simp: su_ok_def su_defs split: su_pc.splits option.splits)

lemma su_ok_step: "su_step s t \<Longrightarrow> su_ok s \<Longrightarrow> su_ok t"
  by (auto simp: su_step.simps intro: su_ok_run su_ok_other)

lemma su_ok_provision: "su_ok s \<Longrightarrow> su_ok (su_provision s)"
  by (auto simp: su_ok_def su_provision_def split: su_pc.splits)

lemma su_ok_reachable: "su_reachable s \<Longrightarrow> su_ok s"
  by (induction rule: su_reachable.induct) (auto intro: su_ok_new su_ok_step su_ok_provision)

text \<open>C36: Of the processes the supervisor starts at most one is alive, \<open>Running\<close> tells the truth about
the stored process, and once the goroutine has returned (which \<open>Stop\<close> waits for) none is alive or
stored, whatever calls, failures and deaths are interleaved.\<close>

theorem one_process:
  assumes "su_reachable s"
  shows "card (su_live s) \<le> 1 \<and> finite (su_live s) \<and> (su_running s \<longleftrightarrow> su_cmd s \<noteq> None) \<and>
    (su_pc s = Ended \<longrightarrow> su_live s = {} \<and> su_cmd s = None)"
proof -
  have "su_ok s" by (rule su_ok_reachable) (rule assms)
  moreover from this obtain p where "su_live s \<subseteq> {p}" by (auto simp: su_ok_def split: su_pc.splits)
  moreover from this have "card (su_live s) \<le> 1" by (metis card_insert_if card.empty card_mono finite.emptyI finite_insert
        empty_iff One_nat_def)
  ultimately show ?thesis by (auto simp: su_ok_def dest: finite_subset split: su_pc.splits)
qed

text \<open>The first process started, stopped, and gone.\<close>

definition first_process :: supervisor where
  "first_process = (su_Start new_supervisor)\<lparr>su_pc := Spawned 0 0, su_live := {0}, su_next := 1\<rparr>"

lemma reach_start: "su_reachable (su_Start new_supervisor)"
  by (rule reach_step [OF reach_new]) (rule step_other, rule other_start)

lemma reach_first_process: "su_reachable first_process"
proof -
  let ?s = "su_Start new_supervisor" and ?c = "(su_Start new_supervisor)\<lparr>su_pc := Checking 0\<rparr>"
  have "su_run ?s ?c"
    using run_generation [of ?s] by (simp add: su_Start_def new_supervisor_def)
  moreover have "su_run ?c first_process"
    using run_starts [of ?c 0] by (simp add: first_process_def su_Start_def new_supervisor_def)
  ultimately show ?thesis using reach_start by (meson reach_step step_run)
qed

theorem one_process_witness: "card (su_live first_process) \<le> 1 \<and> su_live first_process = {0}"
  using one_process [OF reach_first_process] by (simp add: first_process_def)

section \<open>Stopping\<close>

primrec su_rank :: "su_pc \<Rightarrow> nat" where
  "su_rank Idle = 0"
| "su_rank Top = 1"
| "su_rank (Checking g) = 5"
| "su_rank (Spawned g p) = 4"
| "su_rank (Waits g p) = 3"
| "su_rank (Exited g p) = 2"
| "su_rank (Cleared c) = 1"
| "su_rank Backoff = 2"
| "su_rank Ended = 0"

lemma rank_run: "su_run s t \<Longrightarrow> su_canceled s \<Longrightarrow> su_rank (su_pc t) < su_rank (su_pc s) \<and> su_canceled t"
  by (induction rule: su_run.induct) auto

lemma rank_runs: "(su_run ^^ n) s t \<Longrightarrow> su_canceled s \<Longrightarrow> n + su_rank (su_pc t) \<le> su_rank (su_pc s) \<and> su_canceled t"
proof (induction n arbitrary: t)
  case (Suc n)
  from Suc.prems obtain u where "(su_run ^^ n) s u" "su_run u t" by auto
  with Suc rank_run [of u t] show ?case by fastforce
qed simp

lemma rank_le: "su_rank pc \<le> 5"
  by (cases pc) simp_all

text \<open>A canceled goroutine that has not returned can go on, or waits for a process that a kill ends.\<close>

lemma canceled_progress:
  assumes "su_ok s" and "su_canceled s" and "su_pc s \<noteq> Ended"
  shows "(\<exists>t. su_run s t) \<or> (\<exists>t. su_run (su_kill s) t)"
proof (cases "su_pc s")
  case (Waits g p)
  then have "su_cmd s = Some p" using assms(1) by (simp add: su_ok_def)
  with Waits have "su_run (su_kill s) ((su_kill s)\<lparr>su_pc := Exited g p\<rparr>)"
    by (intro run_waited) (simp_all add: su_kill_def)
  then show ?thesis by blast
qed (use assms in \<open>auto simp: su_ok_def intro: su_run.intros\<close>)

text \<open>C37: Once \<open>Stop\<close> has canceled the supervisor, the goroutine returns after at most five more steps
of its own, and nothing but a live process it waits for can hold it up, which the kill of \<open>Stop\<close>
ends.\<close>

theorem stop_returns:
  assumes "su_reachable s" and "su_canceled s"
  shows "(\<forall>n t. (su_run ^^ n) s t \<longrightarrow> n \<le> 5) \<and>
    (su_pc s \<noteq> Ended \<longrightarrow> (\<exists>t. su_run s t) \<or> (\<exists>t. su_run (su_kill s) t))"
proof (intro conjI allI impI)
  fix n t
  assume "(su_run ^^ n) s t"
  with rank_runs assms(2) have "n + su_rank (su_pc t) \<le> su_rank (su_pc s)" by blast
  with rank_le [of "su_pc s"] show "n \<le> 5" by linarith
next
  assume "su_pc s \<noteq> Ended"
  with canceled_progress su_ok_reachable assms show "(\<exists>t. su_run s t) \<or> (\<exists>t. su_run (su_kill s) t)" by blast
qed

theorem stop_returns_witness:
  "\<exists>t. su_run (su_cancel first_process) t \<or> su_run (su_kill (su_cancel first_process)) t"
proof -
  have "su_reachable (su_cancel first_process)"
    by (rule reach_step [OF reach_first_process]) (rule step_other, rule other_cancel)
  then show ?thesis
    using stop_returns [of "su_cancel first_process"] by (auto simp: su_cancel_def first_process_def)
qed

text \<open>
  A supervisor that was stopped stays so: \<open>Start\<close> finds its \<open>cancel\<close> set. The page that restarts
  the program stops it before the re-exec, and goes on without a tunnel when that fails.
\<close>

lemma stopped_for_good: "su_steps s t \<Longrightarrow> su_pc s = Ended \<Longrightarrow> su_pc t = Ended"
  unfolding su_steps_def
  by (induction rule: rtranclp_induct)
    (auto simp: su_step.simps su_run.simps su_other.simps su_defs split: option.splits)

section \<open>Restarting\<close>

text \<open>Every live process has been asked to end, or runs or will run the configuration \<open>c\<close>.\<close>

definition up_to_date :: "nat \<Rightarrow> supervisor \<Rightarrow> bool" where
  "up_to_date c s \<longleftrightarrow> su_ok s \<and> su_config s = c \<and>
     (\<forall>p \<in> su_live s. p \<in> su_told s \<or> su_read s p = None \<or> su_read s p = Some c)"

lemma up_to_date_run: "su_run s t \<Longrightarrow> up_to_date c s \<Longrightarrow> up_to_date c t"
proof -
  assume run: "su_run s t" and ok: "up_to_date c s"
  then have t: "su_ok t" by (auto simp: up_to_date_def intro: su_ok_run)
  have fresh: "su_read s (su_next s) = None" using ok by (auto simp: up_to_date_def su_ok_def)
  from run show ?thesis using t fresh ok by (cases rule: su_run.cases) (auto simp: up_to_date_def)
qed

lemma up_to_date_other: "su_other s t \<Longrightarrow> up_to_date c s \<Longrightarrow> up_to_date c t"
proof -
  assume other: "su_other s t" and ok: "up_to_date c s"
  then have t: "su_ok t" by (auto simp: up_to_date_def intro: su_ok_other)
  from other show ?thesis using t ok
    by (cases rule: su_other.cases) (auto simp: up_to_date_def su_defs split: option.splits)
qed

lemma up_to_date_steps: "su_steps s t \<Longrightarrow> up_to_date c s \<Longrightarrow> up_to_date c t"
  unfolding su_steps_def
  by (induction rule: rtranclp_induct) (auto simp: su_step.simps intro: up_to_date_run up_to_date_other)

lemma up_to_date_terminate:
  assumes "su_ok s" and "\<And>g p. su_pc s \<noteq> Spawned g p"
  shows "up_to_date (su_config s) (su_terminate s)"
proof -
  have "su_ok (su_terminate s)" using assms(1) by (rule su_ok_other [OF other_terminate])
  then show ?thesis using assms
    by (cases "su_pc s") (auto simp: up_to_date_def su_ok_def su_terminate_def split: option.splits)
qed

text \<open>C38: When the signal of \<open>Restart\<close> does not fall between the start of a process and its being stored
in \<open>cmd\<close>, every process alive later has been asked to end, or reads the configuration written before,
until the configuration is written again.\<close>

theorem restart_reaches:
  assumes "su_reachable s" and "\<And>g p. su_pc s \<noteq> Spawned g p" and "su_steps (su_terminate (su_bump s)) t" and "p \<in> su_live t"
  shows "su_config t = su_config s \<and> (p \<in> su_told t \<or> su_read t p = None \<or> su_read t p = Some (su_config s))"
proof -
  have "su_ok (su_bump s)" using su_ok_reachable [OF assms(1)] by (rule su_ok_other [OF other_bump])
  moreover have "su_pc (su_bump s) \<noteq> Spawned g q" for g q using assms(2) by (simp add: su_bump_def)
  ultimately have "up_to_date (su_config (su_bump s)) (su_terminate (su_bump s))" by (rule up_to_date_terminate)
  then have "up_to_date (su_config s) (su_terminate (su_bump s))" by (simp add: su_bump_def)
  from up_to_date_steps [OF assms(3) this] assms(4) show ?thesis by (auto simp: up_to_date_def)
qed

definition served :: supervisor where
  "served = first_process\<lparr>su_pc := Waits 0 0, su_cmd := Some 0, su_running := True\<rparr>"

lemma reach_served: "su_reachable served"
  using run_stores [of first_process 0 0] reach_first_process
  by (auto simp: first_process_def served_def intro: reach_step step_run)

theorem restart_reaches_witness: "0 \<in> su_told (su_terminate (su_bump (su_provision served)))"
proof -
  have "su_steps (su_terminate (su_bump (su_provision served))) (su_terminate (su_bump (su_provision served)))"
    by (simp add: su_steps_def)
  from restart_reaches [OF reach_provision [OF reach_served] _ this, of 0]
  show ?thesis by (simp add: su_defs served_def first_process_def)
qed


end
