(* ===== verification/Command.thy ===== *)
theory Command
  imports Integrity
begin

text \<open>
  The commands of \<open>cmd/pocketpds/main.go\<close> beside the server itself: the choice of the command,
  \<open>accounts\<close> with \<open>delete\<close> and \<open>recover\<close>, the installation of the tunnel's binary
  (\<open>internal/tunnel/install.go\<close>), the account \<open>serve -seed\<close> creates (\<open>internal/db/seed.go\<close>), and
  what \<open>serve\<close> does before it listens. What a command prints is its value. \<open>opened\<close> is
  the outcome of \<open>db.Open\<close>, whose migrations are in \<open>Schema\<close>.
\<close>

section \<open>The choice of the command\<close>

datatype command = Serve "string list" | AccountsCmd "string list" | TunnelCmd "string list" | VersionCmd | UsageCmd

definition main_args :: "string list \<Rightarrow> string list" where
  "main_args args =
     (case args of [] \<Rightarrow> [''serve''] | a # as \<Rightarrow> if has_prefix a ''-'' then ''serve'' # args else args)"

definition main_command :: "string list \<Rightarrow> command" where
  "main_command args =
     (case main_args args of
        [] \<Rightarrow> UsageCmd
      | a # as \<Rightarrow>
          if a = ''serve'' then Serve as
          else if a = ''accounts'' then AccountsCmd as
          else if a = ''tunnel'' then TunnelCmd as
          else if a = ''version'' then VersionCmd
          else UsageCmd)"

section \<open>accounts\<close>

definition with_store :: "'r env \<Rightarrow> go_error + unit \<Rightarrow> ('r pds, 'a) go \<Rightarrow> ('r pds, 'a) go" where
  "with_store E opened k =
     (if secret E = [] then go_raise (Failure ''POCKETPDS_SECRET is required'')
      else case opened of Inl e \<Rightarrow> go_raise (Wrap ''open database'' e) | Inr u \<Rightarrow> k)"

text \<open>The verb \<open>%-ns\<close> of \<open>fmt\<close>, on ASCII.\<close>

definition pad_right :: "nat \<Rightarrow> string \<Rightarrow> string" where
  "pad_right n s = s @ replicate (n - length s) CHR '' ''"

definition account_line :: "string \<Rightarrow> string \<Rightarrow> string \<Rightarrow> string \<Rightarrow> string" where
  "account_line did handle email act =
     pad_right 45 did @ '' '' @ pad_right 30 handle @ '' '' @ pad_right 25 email @ '' '' @ act @ newline"

definition account_row_line :: "account \<Rightarrow> string" where
  "account_row_line a = account_line (acc_did a) (acc_handle a) (coalesce (acc_email a))
     (if acc_deactivated_at a \<noteq> None then ''no'' else ''yes'')"

definition list_accounts :: "'r env \<Rightarrow> go_error + unit \<Rightarrow> ('r pds, string) go" where
  "list_accounts E opened =
     with_store E opened
       (go_bind (sql E (q_rows (\<lambda>d. order_asc (stamp_text E \<circ> acc_created_at) (accounts d)))) (\<lambda>rows.
        go_ret (account_line ''DID'' ''HANDLE'' ''EMAIL'' ''ACTIVE'' @ concat (map account_row_line rows))))"

definition no_account :: "string \<Rightarrow> go_error" where
  "no_account handle = Failure (''no account with handle '' @ go_quote handle)"

text \<open>\<open>DELETE FROM accounts WHERE handle = ?\<close>, with its cascades and \<open>RowsAffected\<close>.\<close>

definition delete_by_handle :: "string \<Rightarrow> (database, nat) go" where
  "delete_by_handle handle d =
     (let rows = filter (\<lambda>a. acc_handle a = handle) (accounts d)
      in (Inr (length rows), fold cascade_delete (map acc_did rows) d))"

definition deleteAccount :: "'r env \<Rightarrow> string \<Rightarrow> go_error + unit \<Rightarrow> string \<Rightarrow> ('r pds, string) go" where
  "deleteAccount E dir opened handle =
     with_store E opened
       (go_bind (os_call E ''mkdir'' (go_ret ())) (\<lambda>_.
        go_bind (go_modify (\<lambda>s. s\<lparr>blob_root := Some dir\<rparr>)) (\<lambda>_.
        go_bind (go_try (sql E (q_row (find_account (\<lambda>a. acc_handle a = handle))))) (\<lambda>r.
        case r of
          Inl e \<Rightarrow> go_raise (no_account handle)
        | Inr a \<Rightarrow>
            go_bind (DeleteAccount E (acc_did a)) (\<lambda>_.
            go_bind (sql E (delete_by_handle handle)) (\<lambda>n.
            if n = 0 then go_raise (no_account handle)
            else go_ret (''deleted account '' @ go_quote handle @ newline)))))))"

definition recoverAccount :: "'r env \<Rightarrow> go_error + unit \<Rightarrow> string \<Rightarrow> ('r pds, string) go" where
  "recoverAccount E opened handle =
     with_store E opened
       (go_bind (go_try (sql E (q_row (find_account (\<lambda>a. acc_handle a = handle))))) (\<lambda>r.
        case r of
          Inl e \<Rightarrow> go_raise (no_account handle)
        | Inr a \<Rightarrow>
            go_bind (go_wrap ''decrypt recovery key'' (go_of (Decrypt E (acc_recovery_key a)))) (\<lambda>raw.
            go_ret (''did: '' @ acc_did a @ newline @ ''recovery key (hex): '' @ hex_encode raw @ newline))))"

definition accounts_cmd :: "'r env \<Rightarrow> string \<Rightarrow> go_error + unit \<Rightarrow> string list \<Rightarrow> ('r pds, string) go" where
  "accounts_cmd E dir opened args =
     (case args of
        [] \<Rightarrow> list_accounts E opened
      | a # as \<Rightarrow>
          if a = ''delete'' then
            (case as of [] \<Rightarrow> go_raise (Failure ''usage: pocketpds accounts delete <handle>'') | h # _ \<Rightarrow> deleteAccount E dir opened h)
          else if a = ''recover'' then
            (case as of [] \<Rightarrow> go_raise (Failure ''usage: pocketpds accounts recover <handle>'') | h # _ \<Rightarrow> recoverAccount E opened h)
          else list_accounts E opened)"

section \<open>tunnel\<close>

text \<open>
  The binary is downloaded to a temporary file beside the target, which the rename replaces; the
  temporary file is gone on every path. \<open>goos\<close> and \<open>goarch\<close> are the constants of the build.
\<close>

definition BinaryPath :: "os_env \<Rightarrow> string" where
  "BinaryPath env = getenv env ''POCKETPDS_CLOUDFLARED_BIN'' ''/usr/local/bin/cloudflared''"

definition assetName :: "string \<Rightarrow> string \<Rightarrow> go_error + string" where
  "assetName goos goarch =
     (if goarch \<in> {''arm64'', ''amd64'', ''386'', ''arm''} then Inr (''cloudflared-'' @ goos @ ''-'' @ goarch)
      else Inl (Failure (''unsupported architecture '' @ go_quote goarch)))"

definition Install :: "'r env \<Rightarrow> string \<Rightarrow> string \<Rightarrow> string \<Rightarrow> ('r pds, unit) go" where
  "Install E goos goarch target =
     go_bind (go_of (assetName goos goarch)) (\<lambda>asset.
     go_bind (go_wrap ''download cloudflared'' (http_send E
       \<lparr>hq_method = ''GET'', hq_url = ''https://github.com/cloudflare/cloudflared/releases/latest/download/'' @ asset,
        hq_type = [], hq_auth = [], hq_body = []\<rparr>)) (\<lambda>r.
     if hr_status r \<noteq> 200 then go_raise (Failure (''download cloudflared: '' @ hr_line r))
     else
       go_bind (os_call E ''mkdir'' (go_ret ())) (\<lambda>_.
       go_bind (os_call E ''create temp'' (go_ret ())) (\<lambda>_.
       go_bind (os_call E ''copy'' (go_ret ())) (\<lambda>_.
       go_bind (os_call E ''chmod'' (go_ret ())) (\<lambda>_.
       go_bind (os_call E ''close temp'' (go_ret ())) (\<lambda>_.
       os_call E ''rename'' (go_modify (\<lambda>s. s\<lparr>files := (files s)(target \<mapsto> hr_body r)\<rparr>)))))))))"

text \<open>Removing a binary that is not there succeeds.\<close>

definition tunnelCmd :: "'r env \<Rightarrow> os_env \<Rightarrow> string \<Rightarrow> string \<Rightarrow> string list \<Rightarrow> ('r pds, string) go" where
  "tunnelCmd E env goos goarch args =
     (case args of
        [] \<Rightarrow> go_raise (Failure ''usage: pocketpds tunnel [install|uninstall]'')
      | a # as \<Rightarrow>
          let target = BinaryPath env in
          if a = ''install'' then
            go_bind (go_wrap ''install cloudflared'' (Install E goos goarch target)) (\<lambda>_.
            go_ret (''installing cloudflared to '' @ target @ '' ...'' @ newline @ ''installed cloudflared '' @ target @ newline))
          else if a = ''uninstall'' then
            go_bind (os_call E ''remove'' (go_modify (\<lambda>s. s\<lparr>files := (files s)(target := None)\<rparr>))) (\<lambda>_.
            go_ret (''removed '' @ target @ newline))
          else go_raise (Failure (''unknown tunnel subcommand '' @ go_quote a)))"

section \<open>The seed account\<close>

definition SeedDevAccount :: "'r env \<Rightarrow> string \<Rightarrow> string \<Rightarrow> string \<Rightarrow> ('r pds, unit) go" where
  "SeedDevAccount E handle password serviceEndpoint =
     go_bind (sql E (q_rows (\<lambda>d. length (accounts d)))) (\<lambda>n.
     if n > 0 then go_ret ()
     else
       go_bind (CreateDidWeb E handle serviceEndpoint) (\<lambda>ks.
       go_bind (HashPassword E password) (\<lambda>hash.
       go_bind (Encrypt E (ky_signing ks)) (\<lambda>signingEnc.
       go_bind (Encrypt E (ky_recovery ks)) (\<lambda>recoveryEnc.
       go_bind (time_now E) (\<lambda>now.
       go_wrap ''seed dev account'' (sql E (insert_account \<lparr>acc_did = ky_did ks, acc_handle = handle,
         acc_email = Some [], acc_password_hash = hash, acc_recovery_key = recoveryEnc,
         acc_signing_key = signingEnc, acc_created_at = Stamp now, acc_did_doc = Some (json_marshal (ky_did_doc ks)),
         acc_deactivated_at = None, acc_email_confirmed_at = None\<rparr>))))))))"

section \<open>The start of the server\<close>

text \<open>
  \<open>server.New\<close>: the manager with an emitter that reads the last sequence number and an empty
  cache, and the blob store under \<open>dir\<close>; its routes are in \<open>Server\<close>.
\<close>

definition server_New :: "'r env \<Rightarrow> string \<Rightarrow> config \<Rightarrow> ('r pds, unit) go" where
  "server_New E dir cfg =
     go_bind (new_emitter E) (\<lambda>_.
     go_bind (go_modify (\<lambda>s. s\<lparr>repos := Map.empty, recorded := None, public_url := PublicURL cfg, blob_root := None\<rparr>)) (\<lambda>_.
     go_bind (os_call E ''mkdir'' (go_ret ())) (\<lambda>_.
     go_modify (\<lambda>s. s\<lparr>blob_root := Some dir\<rparr>))))"

text \<open>
  \<open>serve\<close> up to the listener: \<open>flags\<close> is the outcome of parsing the flags, whether \<open>-seed\<close> is
  among them. The supervisor of the tunnel, started in between, is in \<open>Supervisor\<close>.
\<close>

definition serve_start :: "'r env \<Rightarrow> os_env \<Rightarrow> string \<Rightarrow> go_error + bool \<Rightarrow> go_error + unit \<Rightarrow> ('r pds, config) go" where
  "serve_start E env dir flags opened =
     (case flags of
        Inl e \<Rightarrow> go_raise (Wrap ''parse flags'' e)
      | Inr seed \<Rightarrow>
          with_store E opened
            (go_bind (go_wrap ''load settings'' (LoadSettings E)) (\<lambda>overrides.
             let cfg = ApplySettings overrides (FromEnv env) in
             go_bind (if seed then go_wrap ''seed dev account'' (SeedDevAccount E ''dev.example.com'' ''password'' (PublicURL cfg))
                      else go_ret ()) (\<lambda>_.
             go_bind (go_wrap ''init server'' (server_New E dir cfg)) (\<lambda>_.
             go_ret cfg)))))"

section \<open>What the commands do to the tables\<close>

lemma filter_distinct_key:
  "distinct (map f xs) \<Longrightarrow> x \<in> set xs \<Longrightarrow> filter (\<lambda>y. f y = f x) xs = [x]"
  by (induction xs) (auto simp: filter_empty_conv intro: rev_image_eqI)

text \<open>Handles are unique, so the command deletes what the endpoint deletes.\<close>

lemma delete_by_handle_row:
  assumes "database_ok d" and "find_account (\<lambda>a. acc_handle a = h) d = Some a"
  shows "delete_by_handle h d = (Inr 1, snd (delete_account_row (acc_did a) d))"
proof -
  have "distinct (map acc_handle (accounts d))" using assms(1) by (simp add: ok_defs tbl_keys_ok_def)
  moreover have "a \<in> set (accounts d)" "acc_handle a = h"
    using assms(2) by (auto simp: find_account_def find_Some_iff)
  ultimately have "filter (\<lambda>a. acc_handle a = h) (accounts d) = [a]"
    using filter_distinct_key [of acc_handle "accounts d" a] by simp
  then show ?thesis by (simp add: delete_by_handle_def delete_account_row_def q_exec_def)
qed

lemma ok_fold_cascade: "database_ok d \<Longrightarrow> database_ok (fold cascade_delete ds d)"
  by (induction ds arbitrary: d) (auto intro: ok_cascade)

lemma safe_with_store: "safe P k \<Longrightarrow> safe P (with_store E opened k)"
  unfolding with_store_def by (intro safe_intro)

text \<open>The commands keep the keys and the references of the tables, as the server does.\<close>

lemma commands_keep_tables:
  "safe database_ok (accounts_cmd E dir opened args)" "safe database_ok (tunnelCmd E env goos goarch args)"
  "safe database_ok (SeedDevAccount E handle password u)" "safe database_ok (serve_start E env dir flags opened)"
proof -
  have del: "safe database_ok (sql E (delete_by_handle h))" for h
    by (rule safe_sql) (auto simp: delete_by_handle_def Let_def intro: ok_fold_cascade)
  have "safe database_ok (list_accounts E opened)"
    unfolding list_accounts_def by (intro safe_with_store safe_intro)
  moreover have "safe database_ok (deleteAccount E dir opened h)" for h
    unfolding deleteAccount_def by (intro safe_with_store safe_intro schema.safe_DeleteAccount del safe_modify) simp
  moreover have "safe database_ok (recoverAccount E opened h)" for h
    unfolding recoverAccount_def by (intro safe_with_store safe_intro)
  ultimately show "safe database_ok (accounts_cmd E dir opened args)"
    unfolding accounts_cmd_def by (intro safe_intro)
  show "safe database_ok (tunnelCmd E env goos goarch args)"
    unfolding tunnelCmd_def Install_def Let_def by (intro safe_intro safe_modify) simp_all
  have "safe database_ok (sql E (insert_account a))" for a by (rule safe_sql) (auto intro: ok_insert_account)
  then show seed: "safe database_ok (SeedDevAccount E handle password u)" for handle password u
    unfolding SeedDevAccount_def by (intro safe_intro)
  show "safe database_ok (serve_start E env dir flags opened)"
    unfolding serve_start_def server_New_def new_emitter_def LoadSettings_def Let_def
    by (intro safe_intro safe_with_store seed safe_modify) simp_all
qed

text \<open>
  A server that started has the stored settings over those of the environment, open handles of
  no repo, no subscriber, and numbers the next event after the last one of the log.
\<close>

lemma serve_start_state:
  assumes "serve_start E env dir (Inr False) (Inr ()) s = (Inr cfg, t)" and "no_faults E"
  shows "cfg = ApplySettings (settings (db s)) (FromEnv env)" "repos t = Map.empty" "blob_root t = Some dir"
    "public_url t = PublicURL cfg" "em_seq (emitter t) = max_seq (firehose_events (db s))" "em_subs (emitter t) = []" "db t = db s"
  using assms
  by (auto simp: serve_start_def with_store_def server_New_def new_emitter_def LoadSettings_def no_faults_def os_call_def
      sql_def q_rows_def go_defs Let_def split: if_splits)

end
