(* ===== verification/Bridge_Props.thy ===== *)
theory Bridge_Props
  imports Bridge_Contract
begin

text \<open>
  Properties of the bridge and of the tunnel's log: rewriting the references of a record to the
  other account and back, publishing what was published, what a profile costs, and the lines of a
  stream cut into writes.
\<close>

section \<open>Rewriting references\<close>

text \<open>A record none of whose values in a map begins with \<open>new\<close>.\<close>

fun free_of :: "string \<Rightarrow> json \<Rightarrow> bool" where
  "free_of new (JObj m) \<longleftrightarrow> list_all (\<lambda>(k, v). (case v of JStr s \<Rightarrow> \<not> has_prefix s new | _ \<Rightarrow> free_of new v)) m"
| "free_of new (JArr xs) \<longleftrightarrow> list_all (free_of new) xs"
| "free_of new v \<longleftrightarrow> True"

lemma rewrite_back_string:
  assumes "old \<noteq> []" and "new \<noteq> []" and "\<not> has_prefix s new"
  shows "(if has_prefix (if has_prefix s old then replace_first old new s else s) new
          then replace_first new old (if has_prefix s old then replace_first old new s else s)
          else (if has_prefix s old then replace_first old new s else s)) = s"
  using assms by (auto simp: replace_first_prefix has_prefix_iff)

text \<open>What becomes of a value in a map.\<close>

definition rewrite_member :: "string \<Rightarrow> string \<Rightarrow> json \<Rightarrow> json" where
  "rewrite_member old new v =
     (case v of
        JStr s \<Rightarrow> if has_prefix s old then JStr (replace_first old new s) else v
      | _ \<Rightarrow> rewriteURIsPrefix old new v)"

lemma rewrite_object: "rewriteURIsPrefix old new (JObj m) = JObj (map (\<lambda>(k, v). (k, rewrite_member old new v)) m)"
  by (simp add: rewrite_member_def)

lemma rewrite_member_back:
  assumes "old \<noteq> []" and "new \<noteq> []" and "\<And>s. v = JStr s \<Longrightarrow> \<not> has_prefix s new"
    and "rewriteURIsPrefix new old (rewriteURIsPrefix old new v) = v"
  shows "rewrite_member new old (rewrite_member old new v) = v"
proof (cases v)
  case (JStr s)
  with assms rewrite_back_string [of old new s] show ?thesis
    by (simp add: rewrite_member_def split: if_splits)
next
  case (JObj m)
  moreover obtain w where "rewriteURIsPrefix old new (JObj m) = JObj w" by simp
  ultimately show ?thesis using assms(4) by (simp add: rewrite_member_def del: rewriteURIsPrefix.simps)
next
  case (JArr xs)
  moreover obtain w where "rewriteURIsPrefix old new (JArr xs) = JArr w" by simp
  ultimately show ?thesis using assms(4) by (simp add: rewrite_member_def del: rewriteURIsPrefix.simps)
qed (simp_all add: rewrite_member_def)

lemma size_member: "(k, v) \<in> set m \<Longrightarrow> size v < size (JObj m)"
  by (induction m) auto

lemma size_element: "v \<in> set xs \<Longrightarrow> size v < size (JArr xs)"
  by (induction xs) auto

lemma rewrite_back:
  assumes "old \<noteq> []" and "new \<noteq> []"
  shows "free_of new v \<Longrightarrow> rewriteURIsPrefix new old (rewriteURIsPrefix old new v) = v"
proof (induction v rule: measure_induct_rule [where f = size])
  case (less v)
  show ?case
  proof (cases v)
    case (JObj m)
    have "rewrite_member new old (rewrite_member old new w) = w" if kw: "(k, w) \<in> set m" for k w
    proof (rule rewrite_member_back)
      have w: "case w of JStr s \<Rightarrow> \<not> has_prefix s new | _ \<Rightarrow> free_of new w"
        using less.prems kw by (auto simp: JObj list_all_iff)
      then show "\<And>s. w = JStr s \<Longrightarrow> \<not> has_prefix s new" by simp
      from w have "free_of new w" by (cases w) simp_all
      with less.IH kw show "rewriteURIsPrefix new old (rewriteURIsPrefix old new w) = w"
        by (metis JObj size_member)
    qed (rule assms)+
    then show ?thesis by (auto simp: JObj rewrite_object simp del: rewriteURIsPrefix.simps(1) intro!: map_idI)
  next
    case (JArr xs)
    with less have "\<forall>w \<in> set xs. rewriteURIsPrefix new old (rewriteURIsPrefix old new w) = w"
      by (metis free_of.simps(2) list_all_iff size_element)
    then show ?thesis by (simp add: JArr map_idI)
  qed simp_all
qed

text \<open>C35: A record whose references are rewritten to the other account and back is the record, unless one of
its references already named the other account: a post that was published and is archived again gets
its own content back.\<close>

theorem rewrite_roundtrip:
  assumes "free_of (uri_prefix remote) rec"
  shows "rewriteURIs (rewriteURIs rec local remote) remote local = rec"
  unfolding rewriteURIs_def using assms by (intro rewrite_back) (simp_all add: uri_prefix_def)

theorem rewrite_roundtrip_witness:
  "rewriteURIs (rewriteURIs (JObj [(''text'', JStr ''hi''), (''subject'', JObj [(''uri'', JStr ''at://a/p/1'')])]) ''a'' ''b'') ''b'' ''a'' =
     JObj [(''text'', JStr ''hi''), (''subject'', JObj [(''uri'', JStr ''at://a/p/1'')])]"
  by (rule rewrite_roundtrip) (simp add: has_prefix_def uri_prefix_def)

section \<open>Publishing what was published\<close>

definition carried :: "string \<Rightarrow> string \<Rightarrow> database \<Rightarrow> bool" where
  "carried direction c d \<longleftrightarrow> tbl_get sync_key (direction, c) (bridge_sync d) \<noteq> None"

lemma synced_run:
  "no_faults E \<Longrightarrow> synced E dn c s = (Inr (carried dn c (db s)), s\<lparr>tick := Suc (tick s)\<rparr>)"
  by (auto simp: synced_def carried_def no_faults_def sql_def q_row_def go_try_def go_bind_def go_ret_def Let_def split: option.split)

lemma carried_ignore:
  "carried dn c d \<Longrightarrow> carried dn c (d\<lparr>bridge_sync := tbl_ignore sync_key r (bridge_sync d)\<rparr>)"
  "carried (sy_direction r) (sy_source_cid r) (d\<lparr>bridge_sync := tbl_ignore sync_key r (bridge_sync d)\<rparr>)"
  by (auto simp: carried_def tbl_ignore_def tbl_get_def tbl_has_def sync_key_def find_None_iff list_ex_iff)

lemma markSynced_run:
  "no_faults E \<Longrightarrow> \<exists>t. markSynced E dn c l r s = (Inr (), t) \<and> carried dn c (db t) \<and> outbox t = outbox s"
  using carried_ignore(2) [of "\<lparr>sy_direction = dn, sy_source_cid = c, sy_local_uri = l, sy_remote_uri = r, sy_synced_at = st\<rparr>" for st]
  by (simp add: markSynced_def time_now_def ignoring_def insert_sync_def no_faults_def sql_def q_exec_def go_bind_def Let_def)

lemma safe_mark:
  "safe (carried dn c) (markSynced E dn' c' l r)" "safe (\<lambda>d. repo_records d = rs) (markSynced E dn' c' l r)"
  unfolding markSynced_def insert_sync_def by (intro safe_intro safe_exec; simp add: carried_ignore)+

lemma safeD: "safe P m \<Longrightarrow> m s = (r, t) \<Longrightarrow> P (db s) \<Longrightarrow> P (db t)"
  unfolding safe_def by (auto dest: preservesD)

text \<open>An item without an error line is carried over; one that is carried over sends nothing.\<close>

lemma publish_item_carried:
  assumes "no_faults E" and "publish_item E rank tok did remote it s = (Inr (n, []), t)"
  shows "carried ''publish'' (lo_cid it) (db t)"
proof (cases "carried ''publish'' (lo_cid it) (db s)")
  case True
  with assms show ?thesis by (auto simp: publish_item_def go_bind_def go_ret_def synced_run Let_def)
next
  case False
  let ?s = "s\<lparr>tick := Suc (tick s)\<rparr>"
  obtain rec where rec: "parseRecord E (lo_value it) = Inr rec"
    using assms(2) by (cases "parseRecord E (lo_value it)")
      (simp_all add: publish_item_def Let_def go_bind_def failed_def go_ret_def synced_run [OF assms(1)] False)
  let ?B = "attempt (publishBlobs E rank tok did (rewriteURIs rec did remote))"
  obtain b v where B: "?B ?s = (b, v)" by (cases "?B ?s")
  obtain rec' where b: "b = Inr (Inr rec')"
    using assms(2) rec B by (cases b; cases "projr b")
      (simp_all add: publish_item_def Let_def go_bind_def failed_def go_ret_def synced_run [OF assms(1)] False)
  let ?R = "publish_record E tok remote (lo_collection it) rec'"
  obtain r w where R: "?R v = (r, w)" by (cases "?R v")
  obtain uri where r: "r = Inr (Inr uri)"
    using assms(2) rec B b R by (cases r; cases "projr r")
      (simp_all add: publish_item_def Let_def go_bind_def failed_def go_ret_def synced_run [OF assms(1)] False)
  obtain l u where "markSynced E ''publish'' (lo_cid it) l u w = (Inr (), t)"
    using assms(2) rec B b R r
    by (simp add: publish_item_def go_bind_def go_ret_def synced_run [OF assms(1)] False Let_def split: prod.splits sum.splits)
  then show ?thesis using markSynced_run [OF assms(1), of "''publish''" "lo_cid it" l u w] by auto
qed

lemma publish_item_known:
  "no_faults E \<Longrightarrow> carried ''publish'' (lo_cid it) (db s) \<Longrightarrow>
   publish_item E rank tok did remote it s = (Inr (0, []), s\<lparr>tick := Suc (tick s)\<rparr>)"
  by (simp add: publish_item_def go_bind_def go_ret_def synced_run Let_def)

lemma tally_carried:
  assumes "no_faults E" and "tally (publish_item E rank tok did remote) xs s = (Inr (n, []), t)" and "it \<in> set xs"
  shows "carried ''publish'' (lo_cid it) (db t)"
  using assms(2,3)
proof (induction xs arbitrary: s n)
  case (Cons x xs)
  then obtain k m u where x: "publish_item E rank tok did remote x s = (Inr (k, []), u)"
    and xs: "tally (publish_item E rank tok did remote) xs u = (Inr (m, []), t)"
    by (auto simp: go_inv split: prod.splits)
  have "safe (carried ''publish'' (lo_cid x)) (tally (publish_item E rank tok did remote) xs)"
    by (intro safe_tally safe_publish_item safe_mark)
  from safeD [OF this xs] publish_item_carried [OF assms(1) x] Cons.IH [OF xs] Cons.prems(2) show ?case by auto
qed simp

lemma tally_known:
  assumes "no_faults E" and "\<forall>it \<in> set xs. carried ''publish'' (lo_cid it) (db s)"
  shows "\<exists>n. tally (publish_item E rank tok did remote) xs s = (Inr (0, []), s\<lparr>tick := n\<rparr>)"
  using assms(2)
proof (induction xs arbitrary: s)
  case Nil
  show ?case by (rule exI [of _ "tick s"]) (simp add: go_ret_def)
next
  case (Cons x xs)
  then obtain n where "tally (publish_item E rank tok did remote) xs (s\<lparr>tick := Suc (tick s)\<rparr>) = (Inr (0, []), s\<lparr>tick := n\<rparr>)"
    using Cons.IH [of "s\<lparr>tick := Suc (tick s)\<rparr>"] by auto
  with Cons.prems publish_item_known [OF assms(1)] show ?case by (auto simp: go_bind_def go_ret_def)
qed

text \<open>What is read of the repo depends on its records alone.\<close>

lemma attempt_run:
  "attempt m s = (case fst (m s) of Inl e \<Rightarrow> if panics e then Inl e else Inr (Inl e) | Inr x \<Rightarrow> Inr (Inr x), snd (m s))"
  by (cases "m s"; cases "fst (m s)") (auto simp: attempt_def)

lemma ListRecords_run:
  assumes "no_faults E" and "repo_records (db t) = repo_records (db s)"
  shows "fst (ListRecords E did c cursor most t) = fst (ListRecords E did c cursor most s)"
    and "snd (ListRecords E did c cursor most s) = s\<lparr>tick := Suc (tick s)\<rparr>"
  using assms by (auto simp: ListRecords_def no_faults_def sql_def q_rows_def records_in_def go_of_def go_bind_def Let_def split: sum.split)

lemma GetRecord_run:
  assumes "no_faults E" and "repo_records (db t) = repo_records (db s)"
  shows "fst (GetRecord E did c k t) = fst (GetRecord E did c k s)" and "snd (GetRecord E did c k s) = s\<lparr>tick := Suc (tick s)\<rparr>"
  using assms by (auto simp: GetRecord_def no_faults_def sql_def q_row_def go_of_def go_bind_def go_ret_def Let_def split: sum.split option.split)

text \<open>C34: Publishing twice publishes once: after a run without an error line, the next run reports nothing
published, sends no request and changes no table, whatever the token and the remote account.\<close>

theorem publish_idempotent:
  assumes "no_faults E" and "publish_items E rank tok did remote s = (Inr (n, []), t)"
  shows "\<exists>u. publish_items E rank' tok' did remote' t = (Inr (0, []), u) \<and> outbox u = outbox t \<and> db u = db t"
proof -
  let ?L = "\<lambda>s. ListRecords E did postCollection [] 100000 s" and ?G = "\<lambda>s. GetRecord E did profileCollection ''self'' s"
  let ?s1 = "s\<lparr>tick := Suc (tick s)\<rparr>" and ?t1 = "t\<lparr>tick := Suc (tick t)\<rparr>"
  have "safe (\<lambda>d. repo_records d = repo_records (db s)) (publish_items E rank tok did remote)"
    by (intro safe_publishing safe_mark)
  from safeD [OF this assms(2)] have rs: "repo_records (db t) = repo_records (db s)" by simp
  note list = ListRecords_run(2) [OF assms(1) refl, of did postCollection "[]" 100000]
  obtain items c where L: "fst (?L s) = Inr (items, c)"
    using assms(2) list [of s] by (cases "fst (?L s)"; cases "projl (fst (?L s))")
      (auto simp: publish_items_def go_bind_def attempt_run failed_def go_ret_def split: if_splits)
  obtain p where p: "fst (attempt ?G ?s1) = Inr p"
    using assms(2) L list [of s] by (cases "attempt ?G ?s1"; cases "fst (attempt ?G ?s1)")
      (simp_all add: publish_items_def go_bind_def attempt_run [of ?L])
  let ?all = "map post_item items @ profile_items p"
  have G: "snd (?G ?s1) = s\<lparr>tick := Suc (Suc (tick s))\<rparr>"
    using GetRecord_run(2) [OF assms(1) refl, of did profileCollection "''self''" ?s1] by simp
  have "tally (publish_item E rank tok did remote) ?all (s\<lparr>tick := Suc (Suc (tick s))\<rparr>) = (Inr (n, []), t)"
    using assms(2) L p G ListRecords_run(2) [OF assms(1) refl, of did postCollection "[]" 100000 s]
    by (auto simp: publish_items_def attempt_run go_bind_def split: sum.splits if_splits)
  from tally_carried [OF assms(1) this] have "\<forall>it \<in> set ?all. carried ''publish'' (lo_cid it) (db t)" by blast
  then obtain m where "tally (publish_item E rank' tok' did remote') ?all (t\<lparr>tick := Suc (Suc (tick t))\<rparr>) = (Inr (0, []), t\<lparr>tick := m\<rparr>)"
    using tally_known [OF assms(1), of ?all "t\<lparr>tick := Suc (Suc (tick t))\<rparr>" rank' tok' did remote'] that by (auto simp del: map_append)
  moreover have "attempt ?L t = (Inr (Inr (items, c)), ?t1)"
    using L ListRecords_run(1) [OF assms(1) rs] ListRecords_run(2) [OF assms(1) refl, of did postCollection "[]" 100000 t]
    by (simp add: attempt_run)
  moreover have "attempt ?G ?t1 = (Inr p, t\<lparr>tick := Suc (Suc (tick t))\<rparr>)"
    using p GetRecord_run(1) [OF assms(1), of ?t1 ?s1] rs GetRecord_run(2) [OF assms(1) refl, of did profileCollection "''self''" ?t1]
    by (simp add: attempt_run)
  ultimately show ?thesis by (auto simp: publish_items_def go_bind_def)
qed

section \<open>Profiles\<close>

text \<open>A profile costs two writes: \<open>createRecord\<close> under a fresh key, then \<open>putRecord\<close> under its own.\<close>

lemma bind_leaves: "(\<And>x u. snd (f x u) = u) \<Longrightarrow> snd (go_bind m f s) = snd (m s)"
  by (simp add: go_bind_def split: prod.splits sum.splits)

lemma accepted_leaves: "snd (accepted what r u) = u"
  by (simp add: accepted_def go_raise_def go_ret_def)

lemma bsky_do_outbox:
  "\<exists>rq. outbox (snd (bsky_do E tok verb nsid body [] s)) = outbox s @ [Called rq] \<and> hq_url rq = bskyPDS @ ''/xrpc/'' @ nsid"
  unfolding bsky_do_def bind_leaves [of "accepted nsid", OF accepted_leaves] http_send_def by simp

lemma bsky_write_sends:
  "snd (bsky_createRecord E tok repo c rec s) =
     snd (bsky_do E tok ''POST'' ''com.atproto.repo.createRecord''
       (Some (JObj [(''repo'', JStr repo), (''collection'', JStr c), (''record'', rec)])) [] s)"
  "snd (bsky_putRecord E tok repo c k rec s) =
     snd (bsky_do E tok ''POST'' ''com.atproto.repo.putRecord''
       (Some (JObj [(''repo'', JStr repo), (''collection'', JStr c), (''rkey'', JStr k), (''record'', rec)])) [] s)"
  unfolding bsky_createRecord_def bsky_putRecord_def by (rule bind_leaves, simp add: go_of_def)+

lemma profile_sent_twice:
  assumes "\<And>e. fst (bsky_createRecord E tok remote profileCollection rec s) = Inl e \<Longrightarrow> \<not> panics e"
  shows "\<exists>create put. outbox (snd (publish_record E tok remote profileCollection rec s)) = outbox s @ [Called create, Called put] \<and>
     hq_url create = bskyPDS @ ''/xrpc/com.atproto.repo.createRecord'' \<and> hq_url put = bskyPDS @ ''/xrpc/com.atproto.repo.putRecord''"
proof -
  let ?c = "bsky_createRecord E tok remote profileCollection rec" and ?p = "bsky_putRecord E tok remote profileCollection ''self'' rec"
  let ?t = "snd (?c s)"
  obtain create where c: "outbox ?t = outbox s @ [Called create]" "hq_url create = bskyPDS @ ''/xrpc/com.atproto.repo.createRecord''"
    unfolding bsky_write_sends using bsky_do_outbox [of E tok "''POST''" "''com.atproto.repo.createRecord''"] by fastforce
  obtain put where p: "outbox (snd (?p ?t)) = outbox ?t @ [Called put]" "hq_url put = bskyPDS @ ''/xrpc/com.atproto.repo.putRecord''"
    unfolding bsky_write_sends(2) using bsky_do_outbox [of E tok "''POST''" "''com.atproto.repo.putRecord''"] by fastforce
  have "snd (publish_record E tok remote profileCollection rec s) = snd (?p ?t)"
    using assms by (cases "fst (?c s)") (simp_all add: publish_record_def attempt_run go_bind_def)
  with c p show ?thesis by auto
qed

section \<open>The lines of a log\<close>

lemma str_split_newline:
  "str_split newline s = (case str_cut newline s of None \<Rightarrow> [s] | Some (a, b) \<Rightarrow> a # str_split newline b)"
  by (subst str_split.simps) (simp add: newline_def)

lemma str_split_not_Nil: "str_split newline s \<noteq> []"
  by (subst str_split_newline) (simp split: option.split)

lemma complete_lines_split:
  "complete_lines b = (filter (\<lambda>l. l \<noteq> []) (butlast (str_split newline b)), last (str_split newline b))"
proof (induction b rule: complete_lines.induct)
  case (1 b)
  then show ?case
    by (subst complete_lines.simps, subst (1 2) str_split_newline) (auto simp: str_split_not_Nil split: option.split)
qed

lemma complete_lines_append:
  "complete_lines b = (ls, rest) \<Longrightarrow>
   complete_lines (b @ p) = (ls @ fst (complete_lines (rest @ p)), snd (complete_lines (rest @ p)))"
proof (induction b arbitrary: ls rule: complete_lines.induct)
  case (1 b)
  show ?case
  proof (cases "str_cut newline b")
    case None
    with 1 show ?thesis by (simp add: complete_lines.simps [of b])
  next
    case (Some ab)
    then obtain line after where cut: "str_cut newline b = Some (line, after)" by (cases ab) simp
    then have more: "str_cut newline (b @ p) = Some (line, after @ p)"
      by (auto simp: newline_def str_cut_char_Some)
    obtain ms where ms: "complete_lines after = (ms, rest)"
      using 1(2) cut by (auto simp: complete_lines.simps [of b] split: prod.splits)
    from 1(1) [OF cut refl ms] 1(2) ms cut more show ?thesis
      by (simp add: complete_lines.simps [of b] complete_lines.simps [of "b @ p"] split: if_splits)
  qed
qed

lemma no_newline_left: "complete_lines b = (ls, rest) \<Longrightarrow> CHR 0x0A \<notin> set rest"
proof (induction b arbitrary: ls rule: complete_lines.induct)
  case (1 b)
  show ?case
  proof (cases "str_cut newline b")
    case None
    moreover from this have "CHR 0x0A \<notin> set b" by (simp add: newline_def str_cut_char_None)
    ultimately show ?thesis using 1(2) by (simp add: complete_lines.simps [of b])
  next
    case (Some ab)
    then obtain line after where cut: "str_cut newline b = Some (line, after)" by (cases ab) simp
    obtain ms where "complete_lines after = (ms, rest)"
      using 1(2) cut by (auto simp: complete_lines.simps [of b] split: prod.splits)
    from 1(1) [OF cut refl this] show ?thesis .
  qed
qed

lemma line_writes_from: "CHR 0x0A \<notin> set rest \<Longrightarrow> line_writes rest ps = complete_lines (rest @ concat ps)"
proof (induction ps arbitrary: rest)
  case Nil
  then show ?case by (simp add: complete_lines.simps [of rest] newline_def str_cut_char_None [THEN iffD2])
next
  case (Cons p ps)
  obtain ls rest1 where w: "complete_lines (rest @ p) = (ls, rest1)" by (cases "complete_lines (rest @ p)")
  have "CHR 0x0A \<notin> set rest1"
    by (rule no_newline_left [OF w])
  from Cons.IH [OF this] complete_lines_append [OF w, of "concat ps"] show ?case
    by (simp add: line_write_def w split: prod.split)
qed

text \<open>C40: However the output of the tunnel's process is cut into writes, the log gets the non-empty lines of the
whole stream, in order, each once; what follows the last newline waits in the buffer.\<close>

theorem line_writes_split:
  "line_writes [] ps =
     (filter (\<lambda>l. l \<noteq> []) (butlast (str_split newline (concat ps))), last (str_split newline (concat ps)))"
  using line_writes_from [of "[]" ps] by (simp add: complete_lines_split)

end
