(* ===== verification/Bridge_Runs.thy ===== *)
theory Bridge_Runs
  imports Bridge_Props Demo
begin

text \<open>
  The bridge on the demonstration world: a repo with one post and no profile is published twice.
\<close>

definition bridge_state :: "ref_repo pds" where
  "bridge_state = demo_state\<lparr>db := (db demo_state)\<lparr>repo_records :=
     [\<lparr>rr_did = ''did:a'', rr_collection = ''app.bsky.feed.post'', rr_rkey = ''k1'', rr_cid = ''cx'', rr_value = ''x''\<rparr>]\<rparr>\<rparr>"

definition one_post :: local_item where
  "one_post = \<lparr>lo_collection = postCollection, lo_rkey = ''k1'', lo_cid = ''cx'', lo_value = ''x''\<rparr>"

abbreviation (input) in_order :: visiting where
  "in_order \<equiv> \<lambda>m k. 0"

lemma fine_bridge [simp]:
  "json_read fine b = Inr (if has_prefix b ''['' then JArr [JStr b] else JObj [(''subject'', JStr b), (''createdAt'', JStr b)])"
  "http_call fine n rq = Inr \<lparr>hr_status = 200, hr_line = ''200 OK'', hr_type = [], hr_body = hq_body rq\<rparr>"
  by (simp_all add: fine_def demo_env_def)

lemma bridge_list:
  "ListRecords fine ''did:a'' postCollection [] 100000 bridge_state =
     (Inr ([\<lparr>li_rkey = ''k1'', li_cid = ''cx'', li_value = ''x''\<rparr>], None), bridge_state\<lparr>tick := Suc 0\<rparr>)"
  by (simp add: ListRecords_def records_in_def bridge_state_def demo_state_def postCollection_def go_bind_def go_of_def
      sql_def q_rows_def order_asc_def list_item_of_def demo_cast_def cut_page_def)

lemma bridge_profile:
  "attempt (GetRecord fine ''did:a'' profileCollection ''self'') (bridge_state\<lparr>tick := Suc 0\<rparr>) =
     (Inr (Inl SqlNoRows), bridge_state\<lparr>tick := 2\<rparr>)"
  by (simp add: attempt_def GetRecord_def bridge_state_def demo_state_def go_bind_def sql_def q_row_def
      tbl_get_def profileCollection_def panics_def)

lemma bridge_reads:
  "publish_items fine in_order ''jwt'' ''did:a'' ''did:r'' bridge_state =
     tally (publish_item fine in_order ''jwt'' ''did:a'' ''did:r'') [one_post] (bridge_state\<lparr>tick := 2\<rparr>)"
  by (simp add: publish_items_def go_bind_def attempt_def [of "ListRecords E d c k n" for E d c k n] bridge_list bridge_profile
      one_post_def post_item_def profile_items_def go_ret_def)

lemma walk_text:
  "string_member ''$type'' (JObj m) \<noteq> ''blob'' \<Longrightarrow> list_all (\<lambda>(k, v). \<exists>s. v = JStr s) m \<Longrightarrow>
   walkBlobs rank f (JObj m) s = (Inr (JObj (visit_map rank m)), s)"
proof -
  have walk: "list_all (\<lambda>(k, v). \<exists>s. v = JStr s) es \<Longrightarrow> walk_entries rank f es s = (Inr es, s)" for es
    by (induction es) (auto simp: go_bind_def go_ret_def)
  assume "string_member ''$type'' (JObj m) \<noteq> ''blob''" and "list_all (\<lambda>(k, v). \<exists>s. v = JStr s) m"
  moreover from this have "list_all (\<lambda>(k, v). \<exists>s. v = JStr s) (visit_map rank m)"
    by (simp add: list_all_iff visit_map_def)
  ultimately show ?thesis using walk by (simp add: go_bind_def go_ret_def)
qed

lemma no_uri: "nocase_eq ''subject'' ''uri'' = False" "nocase_eq ''createdAt'' ''uri'' = False"
  by code_simp+

lemma uri_of_reply: "hd b \<noteq> CHR ''['' \<Longrightarrow> b \<noteq> [] \<Longrightarrow> uri_of fine b = Inr []"
  by (cases b) (simp_all add: uri_of_def and_then_def read_struct_def text_field_def json_field_def is_map_def has_prefix_def no_uri)

lemma create_answers:
  "\<exists>t. bsky_createRecord fine tok repo c rec s = (Inr [], t)"
  by (simp add: bsky_createRecord_def bsky_do_def http_send_def accepted_def go_bind_def go_ret_def go_of_def uri_of_reply)

definition read_post :: json where
  "read_post = JObj [(''subject'', JStr ''x''), (''createdAt'', JStr ''x'')]"

lemma post_read: "parseRecord fine ''x'' = Inr read_post"
  by (simp add: parseRecord_def and_then_def parsed_def has_prefix_def is_map_def read_post_def)

lemma post_kept: "rewriteURIs read_post ''did:a'' ''did:r'' = read_post"
  by (simp add: read_post_def rewriteURIs_def uri_prefix_def has_prefix_def)

lemma post_walked: "attempt (publishBlobs fine in_order tok d read_post) s = (Inr (Inr (JObj (visit_map in_order [(''subject'', JStr ''x''), (''createdAt'', JStr ''x'')]))), s)"
  unfolding publishBlobs_def attempt_def read_post_def
  by (subst walk_text) (simp_all add: string_member_def member_def)

lemma bridge_publishes:
  "\<exists>t. publish_item fine in_order ''jwt'' ''did:a'' ''did:r'' one_post (bridge_state\<lparr>tick := 2\<rparr>) = (Inr (1, []), t)"
proof -
  have new: "\<not> carried ''publish'' ''cx'' (db bridge_state)"
    by (simp add: carried_def bridge_state_def demo_state_def empty_db_def tbl_get_def)
  obtain t where t: "bsky_createRecord fine ''jwt'' ''did:r'' postCollection
      (JObj (visit_map in_order [(''subject'', JStr ''x''), (''createdAt'', JStr ''x'')])) (bridge_state\<lparr>tick := 3\<rparr>) = (Inr [], t)"
    using create_answers by blast
  have post: "postCollection \<noteq> profileCollection"
    by (simp add: postCollection_def profileCollection_def)
  obtain u where u: "markSynced fine ''publish'' ''cx'' (uri_prefix ''did:a'' @ postCollection @ ''/k1'') [] t = (Inr (), u)"
    using markSynced_run [OF fine_no_faults(1)] by blast
  show ?thesis
    using new t u post
    by (simp add: publish_item_def Let_def go_bind_def go_ret_def synced_run one_post_def post_read post_kept post_walked
        publish_record_def attempt_def [of "bsky_createRecord E k r c v" for E k r c v])
qed

theorem publish_idempotent_witness:
  "\<exists>t u. publish_items fine in_order ''jwt'' ''did:a'' ''did:r'' bridge_state = (Inr (1, []), t) \<and>
     publish_items fine in_order ''other'' ''did:a'' ''did:r'' t = (Inr (0, []), u) \<and> outbox u = outbox t \<and> db u = db t"
proof -
  obtain t where t: "publish_items fine in_order ''jwt'' ''did:a'' ''did:r'' bridge_state = (Inr (1, []), t)"
    using bridge_publishes by (auto simp: bridge_reads go_bind_def go_ret_def)
  from publish_idempotent [OF fine_no_faults(1) t, of in_order "''other''" "''did:r''"] t show ?thesis by blast
qed

end
