(* ===== verification/Spec2Isabelle.thy ===== *)
theory Spec2Isabelle
  imports Prelude GoStrings Tables State Json Crypto Http Config Demo Plc Auth Accounts Email RepoApi SyncApi
    Firehose Subscription Blockstore Blob Manager Listing Batch Batch_Runs Import Runs RateLimit Schema Frames
    AppView Feed Console Contract App_Contract Server Sessions Integrity Ownership Lifecycle Api_Runs Server_Runs
    Console_Login Views Views_Runs Remote Bridge Tunnel Supervisor Bridge_Contract Command Bridge_Props Bridge_Runs
begin

text \<open>
  pocketPDS is a single-binary personal data server for the AT protocol, written in Go: it holds
  accounts and their repositories in one SQLite file, answers the \<open>com.atproto\<close> endpoints, tells
  relays and subscribers about every commit, serves a small \<open>app.bsky\<close> view of its own accounts,
  has a web console for its operator, and can mirror the posts of an account at bsky.social and run
  a Cloudflare tunnel. This development models it and states what makes it
  correct.

  \<^bold>\<open>How the program is put together, and where its parts are.\<close>
  \<open>cmd/pocketpds/main.go\<close> reads the configuration (\<open>Config\<close>), opens the
  database (\<open>Schema\<close>: the migrations), and either runs a command of the operator or
  listens (\<open>Command\<close>: both, up to the listener) with the handler of
  \<open>internal/server/server.go\<close> (\<open>Server\<close>: the routes, cors,
  \<open>logUnhandled\<close>; \<open>RateLimit\<close>: the token bucket of
  \<open>ratelimit.go\<close>). The routes lead to two groups of handlers:

  \<^item> \<open>internal/api\<close>: sessions and tokens (\<open>auth.go\<close> in \<open>Auth\<close>, \<open>jwt.go\<close> in \<open>Crypto\<close>), accounts,
    app passwords, invite codes and mailed codes (\<open>account.go\<close>, \<open>account_admin.go\<close>, \<open>apppass.go\<close>,
    \<open>invite.go\<close> in \<open>Accounts\<close>, \<open>email.go\<close> in \<open>Email\<close>), records (\<open>repo.go\<close>, \<open>import.go\<close> in
    \<open>RepoApi\<close>), synchronisation, blobs and identities (\<open>sync.go\<close>, \<open>blob.go\<close>, \<open>identity.go\<close>,
    \<open>didweb.go\<close>, \<open>health.go\<close> in \<open>SyncApi\<close>), and the AppView (\<open>appview.go\<close>, \<open>appview_viewer.go\<close>
    and \<open>appview_search.go\<close> in \<open>AppView\<close>, \<open>appview_feed.go\<close>, \<open>appview_graph.go\<close> and
    \<open>appview_misc.go\<close> in \<open>Feed\<close>).
  \<^item> \<open>internal/admin\<close>: the console, in \<open>Console\<close>; its settings in \<open>Config\<close>, the decoding of
    stored events in \<open>Frames\<close>, its pages of the bridge (\<open>api_bridge.go\<close>) in \<open>Bridge\<close> and of the
    tunnel (\<open>api_cloudflare.go\<close>) in \<open>Tunnel\<close>.

  Below the handlers are \<open>internal/repo/manager.go\<close> (\<open>Manager\<close>: the write
  path; \<open>Listing\<close>: the paged reads), \<open>import.go\<close> of the same package
  (\<open>Import\<close>), the blockstore with its recording and the CAR writer
  (\<open>Blockstore\<close>), \<open>internal/blob\<close> (\<open>Blob\<close>),
  \<open>internal/firehose\<close> (\<open>Firehose\<close>: numbering, persisting and broadcasting;
  \<open>Subscription\<close>: one subscriber's goroutine; \<open>Frames\<close>: the wire format),
  \<open>internal/crypto\<close> and \<open>internal/db/password.go\<close> (\<open>Crypto\<close>),
  \<open>internal/plc\<close> and \<open>internal/identity\<close> (\<open>Plc\<close>),
  \<open>internal/email\<close> (\<open>Email\<close>), \<open>internal/bridge\<close>
  (\<open>Remote\<close>: the client of bsky.social; \<open>Bridge\<close>: the records and both
  directions of a run), \<open>internal/cloudflare\<close> (\<open>Remote\<close>), and
  \<open>internal/tunnel\<close> (\<open>Tunnel\<close>: its files and its log;
  \<open>Supervisor\<close>: the goroutine that keeps one process running, next to those that stop
  and restart it; \<open>Command\<close>: the installation of the binary).

  \<^bold>\<open>The state.\<close> \<open>State\<close> has it as one record \<open>pds\<close>:
  the tables of the database (a table is the list of its rows in insertion order, see
  \<open>Tables\<close>), the cache of open repo handles of the manager, the emitter with its
  subscribers' channels, the blob files, and what left the program (mails, relay notifications, PLC
  operations, requests to bsky.social and Cloudflare). A Go function is a function of type
  \<open>go\<close> from the state to an error or a value, and the new state
  (\<open>Prelude\<close>); it is written with \<open>go_bind\<close> in the order of the source, so
  that what happened before an error stays. A handler ends with a \<open>response\<close>
  (\<open>Http\<close>). \<open>fmt.Errorf\<close> with \<open>%w\<close> is \<open>Wrap\<close>; a
  run-time panic (an index out of range, a nil map) is the error \<open>Panic\<close>, which no
  handler turns into a response.

  \<^bold>\<open>The world outside.\<close> The record \<open>env\<close> of \<open>State\<close>
  has a field for each thing the program calls and does not define: the clock and the random source
  (read at a position, \<open>tick\<close>, that grows with every call), the outcome of the
  \<open>n\<close>-th statement (\<open>fault\<close>, so that every statement may fail), indigo's
  repo handle and lexicon decoder, DAG-CBOR, Argon2id, AES-GCM, HMAC, SHA-256, key parsing and
  signing, HTTP to other hosts, SMTP, the text of an error, and reading and querying JSON
  (\<open>json_read\<close>, \<open>json_extract\<close>). Properties hold for every such world;
  those that need a law of one of these parts name it as a hypothesis (\<open>tree_laws\<close> in
  \<open>Batch\<close> for indigo's handle, that decryption undoes encryption, and so on), and
  \<open>Demo\<close> is a world in which the laws hold, on which the witnesses of the
  \<open>_Runs\<close> theories evaluate.

  \<^bold>\<open>Interfaces.\<close> \<open>Tables\<close> has the locales
  \<open>keyed_table\<close> (what a lookup returns after an upsert or a delete) and
  \<open>keyset_pager\<close> (walking the pages of an ordered query). Both are interpreted on the
  program's own statements: the index of a repo, the block revisions and the settings; the pages of
  records, repos, collections and the timeline. \<open>Contract\<close> has
  \<open>table_invariant\<close>: what a property of the tables promises when every statement of the
  program keeps it. Its lemmas go through every handler once; \<open>Integrity\<close> interprets it
  on the keys and references of the schema, \<open>Lifecycle\<close> on what a spent code needs.

  \<^bold>\<open>What is shown.\<close>

  \<^item> \<open>Batch\<close>: a batch of writes is a run of an abstract machine on the tree of the repo, with the
    same results and event; the index agrees with the tree afterwards unless a key is deleted and
    written again in the batch; nothing but blocks changes before the commit row is there; other
    accounts are not touched; \<open>swapCommit\<close> is honoured; the event carries the blocks of the commit.
  \<^item> \<open>Server\<close>, \<open>Ownership\<close>, \<open>Integrity\<close>, \<open>Lifecycle\<close>: over every route and any sequence of requests,
    the rows of an account change only for its own credentials, keys and references hold, and a
    code works once. The two streaming routes refuse every request.
  \<^item> \<open>Sessions\<close>, \<open>Crypto\<close>, \<open>RateLimit\<close>, \<open>Console_Login\<close>: who gets a session, what a refresh does,
    how long a token lives, and how many guesses the two limiters let through.
  \<^item> \<open>Subscription\<close>, \<open>Frames\<close>: no event is lost between replay and live delivery, in any
    interleaving of publisher and subscriber (an \<open>inductive\<close> step relation with an invariant);
    order; the one duplicate; headers read back.
  \<^item> \<open>Import\<close>, \<open>Schema\<close>, \<open>Config\<close>, \<open>Blob\<close>, \<open>Listing\<close>, \<open>Plc\<close>: imports are atomic, migrations reach
    the latest version or stop at a recorded one, settings survive a restart, blobs read back,
    paging visits every row once, and identifiers have their form.
  \<^item> \<open>Views\<close>: the two ways of finding the viewer state of a post agree, the thread of a post is
    bounded, and the timeline's pages are complete when times differ.
  \<^item> \<open>Bridge_Props\<close>, \<open>Supervisor\<close>: references are rewritten back to what they were, publishing twice
    publishes once, a log line reaches the log once however it was written; the supervisor runs at
    most one process, stops when asked, and a restart ends the old process, but for one
    interleaving in which it is lost.

  \<^bold>\<open>Bounds and fuel.\<close> \<open>walk_pages\<close>, the client that follows
  cursors, has fuel; the paging properties hold for any fuel greater than the number of rows, since
  every page but the last shows a row. Reading a CAR is by a measure on the bytes left. A thread is
  opened at most five levels deep, which is the program's own bound. Lengths in headers and cursors
  are kept within 64 bits (\<open>parse_int64\<close>, \<open>readInt64\<close>).
  \<open>archive_pages\<close> has the number of pages read before the client goes away: the program
  stops only at a page without a cursor, which the remote service decides. The tokens of a bucket,
  \<open>float64\<close> in the program, are exact rationals. Times are whole seconds, apart from
  the two limiters, which count nanoseconds.

  \<^bold>\<open>Conventions.\<close> A body is passed to its handler as the outcome of decoding it.
  Fields of a JSON object are matched as \<open>encoding/json\<close> does, by the last key equal up
  to ASCII case. A query without ORDER BY returns rows in insertion order. The
  \<open>created_at\<close> of a mute, which nothing reads, is omitted. Requests are served one
  after the other; what concurrent requests can do to the tables between two statements is covered
  where an invariant is one of single statements (\<open>table_invariant\<close>), and for the
  firehose and the tunnel's supervisor by a step relation each: a step of \<open>Supervisor\<close>
  is what one goroutine does between two releases of the mutex, or what the operating system does to
  a process. The bytes of a file that \<open>os.WriteFile\<close> failed to write are those it had.

  A range over a Go map goes through its entries in an order of the runtime's choice, which is a
  parameter where it shows (\<open>visiting\<close> in \<open>Bridge\<close>: the order of blob
  uploads).

  The database has a single connection. Where the program asks for it while it holds it, in
  \<open>localLikes\<close> and \<open>localReposters\<close>, the inner statement fails with the
  end of the request (\<open>while_open\<close> in \<open>Feed\<close>); the time until then, during
  which every other request waits, has no counterpart here, nor has the wait of a replay for a
  subscriber that does not read.

  \<^bold>\<open>Not modelled.\<close> The parsing of flags, the listener, the signals that end it and the logger of
  \<open>main.go\<close>; the embedded static files of the console;
  \<open>internal/api/register.go\<close>, which imports the packages that register lexicon types. They read and
  change none of the modelled state. \<open>HandleSubscribeRepos\<close> and \<open>eventsStream\<close> are modelled up to
  their loops, which write each frame of the subscription to the connection. Login and logout of
  the console answer with cookies and are in \<open>Console\<close>, not among the routes of \<open>serve\<close>.
\<close>

end
